theory Spec2Isabelle
  imports Complex_Main "HOL-Library.AList"
begin

section \<open>Custom gap fill actions: a model of \<^verbatim>\<open>tools/custom_gap_fill_actions.py\<close>\<close>

text \<open>
  The script is a plugin of a motion capture application. It holds a global list of gap
  fill definitions, registers ten commands with the host, builds a menu from the list and,
  when a command runs, fills every gap of one trajectory through the host's API.

  The host application is not part of the repository. Its API is a parameter of the
  model: a record of functions over an abstract host state \<open>'h\<close>. Every call the script
  makes is applied to the host state and appended to a trace, so that a statement about
  what the script asks of the host is a statement about the trace, and a statement about
  what has reached the host is one about the host state.
\<close>

subsection \<open>Python values, exceptions and dictionaries\<close>

text \<open>
  The values stored in a settings dictionary (docstring, lines 19 to 25): trajectory
  names, the trajectory IDs that replace them, booleans and an XYZ offset. The script
  never computes with any of them; it stores them and hands them to the host.
\<close>

datatype pyval = PNone | PStr string | PInt int | PBool bool | PVec3f real real real

datatype exc = IndexError | KeyError string | HostError string

type_synonym pydict = "(string \<times> pyval) list"

text \<open>
  A dictionary is an association list in insertion order. \<open>d[k]\<close> raises KeyError on a
  missing key; \<open>d[k] = v\<close> replaces the value of a key that is present where it stands and
  appends a new key at the end.
\<close>

definition dict_contains :: "pydict \<Rightarrow> string \<Rightarrow> bool" where
  "dict_contains d k = (map_of d k \<noteq> None)"

definition dict_getitem :: "pydict \<Rightarrow> string \<Rightarrow> exc + pyval" where
  "dict_getitem d k = (case map_of d k of None \<Rightarrow> Inl (KeyError k) | Some v \<Rightarrow> Inr v)"

definition dict_setitem :: "pydict \<Rightarrow> string \<Rightarrow> pyval \<Rightarrow> pydict" where
  "dict_setitem d k v = AList.update k v d"

text \<open>\<open>xs[i]\<close>: a negative index counts from the end, an index out of range raises.\<close>

definition list_getitem :: "'a list \<Rightarrow> int \<Rightarrow> exc + 'a" where
  "list_getitem xs i =
     (let n = int (length xs); j = (if i < 0 then i + n else i)
      in if 0 \<le> j \<and> j < n then Inr (xs ! nat j) else Inl IndexError)"

text \<open>\<open>str(i)\<close> for a number that is not negative: its decimal digits.\<close>

definition digit_char :: "nat \<Rightarrow> char" where
  "digit_char d = ''0123456789'' ! d"

fun str_nat :: "nat \<Rightarrow> string" where
  "str_nat n = (if n < 10 then [digit_char n] else str_nat (n div 10) @ [digit_char (n mod 10)])"

declare str_nat.simps [simp del]

subsection \<open>Definitions, the heap and the state of the script\<close>

text \<open>
  A gap fill definition is a dictionary with the keys \<open>display_name\<close>, \<open>target\<close> and
  \<open>method\<close> (read as \<open>gf_method\<close>), all text, and an optional key \<open>settings\<close> whose
  value is a dictionary (docstring, lines 15 to 25). The settings dictionary is the one
  object the script writes to, so it lives on a heap and the definition holds its address:
  two references to one address see each other's writes.
\<close>

type_synonym addr = nat

record gf_def =
  display_name :: string
  target :: string
  gf_method :: string
  settings :: "addr option"

text \<open>The function object that \<open>lambda:(_gap_fill_def(k))\<close> evaluates to.\<close>

datatype callback = Lambda_gap_fill_def int

text \<open>
  One constructor per host function the script calls, with the arguments of the call. A
  dictionary argument is recorded with the items it has when the call is made. The last
  argument of \<open>FillTrajectory\<close> is the outcome: the exception the call raised, if any;
  the last argument of \<open>GetCommands\<close> is the list of commands the host returned.
\<close>

datatype 'g event =
    FindTrajectory pyval
  | GetGapRanges pyval
  | FillTrajectory pyval string 'g "pydict option" "exc option"
  | TrmWrite string
  | AddCommand string
  | SetCommandExecuteFunction string callback
  | InsertMenuSubmenu pyval string
  | GetCommands string "string list"
  | InsertMenuButton pyval string string

text \<open>
  The host's API. The two trajectory queries and \<open>fill_trajectory\<close> may raise (docstring,
  lines 29 to 33); a query reads the host state and leaves it as it is. \<open>fill_trajectory\<close>
  changes the host state whether it raises or not, and is taken not to write to the
  dictionary it is handed. The terminal and menu calls are taken to return normally.
\<close>

record ('h, 'g) qtm =
  find_trajectory :: "'h \<Rightarrow> pyval \<Rightarrow> exc + pyval"
  get_gap_ranges :: "'h \<Rightarrow> pyval \<Rightarrow> exc + 'g list"
  fill_trajectory :: "'h \<Rightarrow> pyval \<Rightarrow> string \<Rightarrow> 'g \<Rightarrow> pydict option \<Rightarrow> exc option \<times> 'h"
  trm_write :: "'h \<Rightarrow> string \<Rightarrow> 'h"
  add_command :: "'h \<Rightarrow> string \<Rightarrow> 'h"
  set_command_execute_function :: "'h \<Rightarrow> string \<Rightarrow> callback \<Rightarrow> 'h"
  insert_menu_submenu :: "'h \<Rightarrow> pyval \<Rightarrow> string \<Rightarrow> pyval \<times> 'h"
  get_commands :: "'h \<Rightarrow> string \<Rightarrow> string list"
  insert_menu_button :: "'h \<Rightarrow> pyval \<Rightarrow> string \<Rightarrow> string \<Rightarrow> 'h"

text \<open>
  The state: the global \<open>list_of_definitions\<close>, the heap of dictionaries with the next
  free address, the host and the trace of calls made so far.
\<close>

record ('h, 'g) state =
  list_of_definitions :: "gf_def list"
  heap :: "addr \<Rightarrow> pydict"
  next_addr :: addr
  host :: 'h
  trace :: "'g event list"

subsection \<open>Calls to the host\<close>

definition record_call :: "'g event \<Rightarrow> ('h, 'g) state \<Rightarrow> ('h, 'g) state" where
  "record_call e s = s\<lparr>trace := trace s @ [e]\<rparr>"

definition call_find_trajectory ::
  "('h, 'g) qtm \<Rightarrow> pyval \<Rightarrow> ('h, 'g) state \<Rightarrow> (exc + pyval) \<times> ('h, 'g) state" where
  "call_find_trajectory api name s =
     (find_trajectory api (host s) name, record_call (FindTrajectory name) s)"

definition call_get_gap_ranges ::
  "('h, 'g) qtm \<Rightarrow> pyval \<Rightarrow> ('h, 'g) state \<Rightarrow> (exc + 'g list) \<times> ('h, 'g) state" where
  "call_get_gap_ranges api tid s =
     (get_gap_ranges api (host s) tid, record_call (GetGapRanges tid) s)"

definition call_trm_write :: "('h, 'g) qtm \<Rightarrow> string \<Rightarrow> ('h, 'g) state \<Rightarrow> ('h, 'g) state" where
  "call_trm_write api msg s = record_call (TrmWrite msg) (s\<lparr>host := trm_write api (host s) msg\<rparr>)"

definition call_add_command :: "('h, 'g) qtm \<Rightarrow> string \<Rightarrow> ('h, 'g) state \<Rightarrow> ('h, 'g) state" where
  "call_add_command api name s = record_call (AddCommand name) (s\<lparr>host := add_command api (host s) name\<rparr>)"

definition call_set_command_execute_function ::
  "('h, 'g) qtm \<Rightarrow> string \<Rightarrow> callback \<Rightarrow> ('h, 'g) state \<Rightarrow> ('h, 'g) state" where
  "call_set_command_execute_function api name f s =
     record_call (SetCommandExecuteFunction name f)
       (s\<lparr>host := set_command_execute_function api (host s) name f\<rparr>)"

definition call_insert_menu_submenu ::
  "('h, 'g) qtm \<Rightarrow> pyval \<Rightarrow> string \<Rightarrow> ('h, 'g) state \<Rightarrow> pyval \<times> ('h, 'g) state" where
  "call_insert_menu_submenu api parent label s =
     (case insert_menu_submenu api (host s) parent label of
        (menu_id, h) \<Rightarrow> (menu_id, record_call (InsertMenuSubmenu parent label) (s\<lparr>host := h\<rparr>)))"

definition call_get_commands ::
  "('h, 'g) qtm \<Rightarrow> string \<Rightarrow> ('h, 'g) state \<Rightarrow> string list \<times> ('h, 'g) state" where
  "call_get_commands api kind s =
     (get_commands api (host s) kind,
      record_call (GetCommands kind (get_commands api (host s) kind)) s)"

definition call_insert_menu_button ::
  "('h, 'g) qtm \<Rightarrow> pyval \<Rightarrow> string \<Rightarrow> string \<Rightarrow> ('h, 'g) state \<Rightarrow> ('h, 'g) state" where
  "call_insert_menu_button api parent label command s =
     record_call (InsertMenuButton parent label command)
       (s\<lparr>host := insert_menu_button api (host s) parent label command\<rparr>)"

subsection \<open>\<^verbatim>\<open>_gap_fill_def\<close>\<close>

text \<open>
  \<open>copy.deepcopy\<close> of a settings dictionary: a new dictionary at a fresh address with
  the items of the old one (the values are immutable, so they are shared).
\<close>

definition deepcopy :: "addr \<Rightarrow> ('h, 'g) state \<Rightarrow> addr \<times> ('h, 'g) state" where
  "deepcopy a s =
     (next_addr s, s\<lparr>heap := (heap s)(next_addr s := heap s a), next_addr := Suc (next_addr s)\<rparr>)"

text \<open>
  Lines 83 to 85, and again 86 to 88 and 89 to 91 with the keys \<open>line\<close> and \<open>plane\<close>:
  \<^verbatim>\<open>
  if "origin" in settings.keys():
      marker_name = settings["origin"]
      settings["origin"] = traj.find_trajectory(marker_name)
  \<close>
  where \<open>settings\<close> is a reference to the dictionary at address \<open>a\<close>.
\<close>

definition convert_key ::
  "('h, 'g) qtm \<Rightarrow> string \<Rightarrow> addr \<Rightarrow> ('h, 'g) state \<Rightarrow> (exc + unit) \<times> ('h, 'g) state" where
  "convert_key api k a s =
     (if dict_contains (heap s a) k then
        (case dict_getitem (heap s a) k of
           Inl e \<Rightarrow> (Inl e, s)
         | Inr marker_name \<Rightarrow>
             (case call_find_trajectory api marker_name s of
                (Inl e, s1) \<Rightarrow> (Inl e, s1)
              | (Inr tid, s1) \<Rightarrow>
                  (Inr (), s1\<lparr>heap := (heap s1)(a := dict_setitem (heap s1 a) k tid)\<rparr>)))
      else (Inr (), s))"

text \<open>
  Lines 79 to 93. The result is the local variable \<open>settings\<close>: a reference to the
  converted copy, or \<open>None\<close>.
\<close>

definition convert_settings ::
  "('h, 'g) qtm \<Rightarrow> gf_def \<Rightarrow> ('h, 'g) state \<Rightarrow> (exc + addr option) \<times> ('h, 'g) state" where
  "convert_settings api gf s =
     (if gf_method gf \<in> set [''relational'', ''virtual''] then
        (case settings gf of
           None \<Rightarrow> (Inl (KeyError ''settings''), s)
         | Some a0 \<Rightarrow>
             (case deepcopy a0 s of
                (a, s1) \<Rightarrow>
                  (case convert_key api ''origin'' a s1 of
                     (Inl e, s2) \<Rightarrow> (Inl e, s2)
                   | (Inr _, s2) \<Rightarrow>
                       (case convert_key api ''line'' a s2 of
                          (Inl e, s3) \<Rightarrow> (Inl e, s3)
                        | (Inr _, s3) \<Rightarrow>
                            (case convert_key api ''plane'' a s3 of
                               (Inl e, s4) \<Rightarrow> (Inl e, s4)
                             | (Inr _, s4) \<Rightarrow> (Inr (Some a), s4))))))
      else (Inr None, s))"

text \<open>
  Lines 98 to 104: the loop over the gap ranges. The bare \<open>except\<close> catches whatever
  \<open>fill_trajectory\<close> raises, sets the flag and goes on with the next gap.
\<close>

fun fill_gaps ::
  "('h, 'g) qtm \<Rightarrow> pyval \<Rightarrow> string \<Rightarrow> addr option \<Rightarrow> 'g list \<Rightarrow> bool \<Rightarrow> ('h, 'g) state
     \<Rightarrow> bool \<times> ('h, 'g) state" where
  "fill_gaps api id_target algorithm st [] flag s = (flag, s)"
| "fill_gaps api id_target algorithm st (gap # gaps) flag s =
     (case fill_trajectory api (host s) id_target algorithm gap (map_option (heap s) st) of
        (None, h) \<Rightarrow>
          fill_gaps api id_target algorithm st gaps flag
            (record_call (FillTrajectory id_target algorithm gap (map_option (heap s) st) None)
               (s\<lparr>host := h\<rparr>))
      | (Some e, h) \<Rightarrow>
          fill_gaps api id_target algorithm st gaps True
            (record_call (FillTrajectory id_target algorithm gap (map_option (heap s) st) (Some e))
               (s\<lparr>host := h\<rparr>)))"

definition gap_fill_def ::
  "('h, 'g) qtm \<Rightarrow> int \<Rightarrow> ('h, 'g) state \<Rightarrow> (exc + unit) \<times> ('h, 'g) state" where
  "gap_fill_def api def_id s =
     (case list_getitem (list_of_definitions s) def_id of
        Inl e \<Rightarrow> (Inl e, s)
      | Inr gf \<Rightarrow>
          (case call_find_trajectory api (PStr (target gf)) s of
             (Inl e, s1) \<Rightarrow> (Inl e, s1)
           | (Inr id_target, s1) \<Rightarrow>
               (case call_get_gap_ranges api id_target s1 of
                  (Inl e, s2) \<Rightarrow> (Inl e, s2)
                | (Inr gap_ranges, s2) \<Rightarrow>
                    (case convert_settings api gf s2 of
                       (Inl e, s3) \<Rightarrow> (Inl e, s3)
                     | (Inr st, s3) \<Rightarrow>
                         (case fill_gaps api id_target (gf_method gf) st gap_ranges False
                                 (call_trm_write api
                                    (''Applying gap filling action '' @ display_name gf) s3) of
                            (not_all_gaps_filled_flag, s4) \<Rightarrow>
                              (Inr (),
                               if not_all_gaps_filled_flag
                               then call_trm_write api ''- Not all gaps could be filled'' s4
                               else s4))))))"

subsection \<open>\<^verbatim>\<open>add_my_commands\<close> and \<^verbatim>\<open>setup_my_menu\<close>\<close>

text \<open>
  Lines 114 to 116, repeated ten times in the source with the names and indices written
  out (the table lists them):
  \<^verbatim>\<open>
  command_name = "gap_fill_def_0"
  qtm.gui.add_command(command_name)
  qtm.gui.set_command_execute_function(command_name, lambda:(_gap_fill_def(0)))
  \<close>
\<close>

definition register_command ::
  "('h, 'g) qtm \<Rightarrow> string \<Rightarrow> int \<Rightarrow> ('h, 'g) state \<Rightarrow> ('h, 'g) state" where
  "register_command api command_name k s =
     call_set_command_execute_function api command_name (Lambda_gap_fill_def k)
       (call_add_command api command_name s)"

definition command_table :: "(string \<times> int) list" where
  "command_table =
     [(''gap_fill_def_0'', 0), (''gap_fill_def_1'', 1), (''gap_fill_def_2'', 2),
      (''gap_fill_def_3'', 3), (''gap_fill_def_4'', 4), (''gap_fill_def_5'', 5),
      (''gap_fill_def_6'', 6), (''gap_fill_def_7'', 7), (''gap_fill_def_8'', 8),
      (''gap_fill_def_9'', 9)]"

definition add_my_commands :: "('h, 'g) qtm \<Rightarrow> ('h, 'g) state \<Rightarrow> ('h, 'g) state" where
  "add_my_commands api s =
     fold (\<lambda>(command_name, k). register_command api command_name k) command_table s"

text \<open>What the host does when the user runs a command: it calls the function bound to it.\<close>

fun execute ::
  "('h, 'g) qtm \<Rightarrow> callback \<Rightarrow> ('h, 'g) state \<Rightarrow> (exc + unit) \<times> ('h, 'g) state" where
  "execute api (Lambda_gap_fill_def k) s = gap_fill_def api k s"

text \<open>The command name of line 167 and the message of lines 169 and 170, for the index \<open>i\<close>.\<close>

definition command_for :: "nat \<Rightarrow> string" where
  "command_for i = ''gap_fill_def_'' @ str_nat i"

definition exceeds_maximum :: "nat \<Rightarrow> string" where
  "exceeds_maximum i =
     ''Number of gap fill definitions exceeds maximum:'' @ [CHR 0x0A] @
     ''- Definitions '' @ str_nat (i + 1) @ '' and higher are ignored.''"

text \<open>
  Lines 165 to 174: the loop over \<open>range(len(list_of_definitions))\<close>, given the indices
  still to visit. The \<open>break\<close> ends the loop after the warning.
\<close>

fun menu_buttons ::
  "('h, 'g) qtm \<Rightarrow> pyval \<Rightarrow> nat list \<Rightarrow> ('h, 'g) state \<Rightarrow> (exc + unit) \<times> ('h, 'g) state" where
  "menu_buttons api gf_sub_id [] s = (Inr (), s)"
| "menu_buttons api gf_sub_id (i # rest) s =
     (case list_getitem (list_of_definitions s) (int i) of
        Inl e \<Rightarrow> (Inl e, s)
      | Inr gf \<Rightarrow>
          (case call_get_commands api ''user'' s of
             (user_commands, s1) \<Rightarrow>
               if \<not> list_ex (\<lambda>uc. uc = command_for i) user_commands
               then (Inr (), call_trm_write api (exceeds_maximum i) s1)
               else menu_buttons api gf_sub_id rest
                      (call_insert_menu_button api gf_sub_id (display_name gf)
                         (command_for i) s1)))"

definition setup_my_menu ::
  "('h, 'g) qtm \<Rightarrow> ('h, 'g) state \<Rightarrow> (exc + unit) \<times> ('h, 'g) state" where
  "setup_my_menu api s =
     (case call_insert_menu_submenu api PNone ''My menu'' s of
        (my_menu_id, s1) \<Rightarrow>
          (case call_insert_menu_submenu api my_menu_id ''Gap fill...'' s1 of
             (gf_sub_id, s2) \<Rightarrow>
               menu_buttons api gf_sub_id [0..<length (list_of_definitions s2)] s2))"

subsection \<open>The definitions the script ships with\<close>

text \<open>
  Lines 60 to 65. Evaluating the list literal creates the two settings dictionaries, here
  at the addresses 0 and 1.
\<close>

definition shipped_definitions :: "gf_def list" where
  "shipped_definitions =
     [\<lparr>display_name = ''Q_WaistBack (polynomial)'', target = ''Q_WaistBack'',
        gf_method = ''polynomial'', settings = None\<rparr>,
      \<lparr>display_name = ''Q_WaistBack (kinematic)'', target = ''Q_WaistBack'',
        gf_method = ''kinematic'', settings = None\<rparr>,
      \<lparr>display_name = ''Q_WaistLFront (rel): WaistBack-WaistRFront-WaistL'',
        target = ''Q_WaistLFront'', gf_method = ''relational'', settings = Some 0\<rparr>,
      \<lparr>display_name = ''Q_WaistRFront (rel): WaistBack-WaistLFront-WaistR'',
        target = ''Q_WaistRFront'', gf_method = ''relational'', settings = Some 1\<rparr>]"

definition shipped_heap :: "addr \<Rightarrow> pydict" where
  "shipped_heap =
     (\<lambda>_. [])
       (0 := [(''origin'', PStr ''Q_WaistBack''), (''line'', PStr ''Q_WaistRFront''),
              (''plane'', PStr ''Q_WaistL'')],
        1 := [(''origin'', PStr ''Q_WaistBack''), (''line'', PStr ''Q_WaistLFront''),
              (''plane'', PStr ''Q_WaistR'')])"

definition shipped_state :: "'h \<Rightarrow> ('h, 'g) state" where
  "shipped_state h =
     \<lparr>list_of_definitions = shipped_definitions, heap = shipped_heap, next_addr = 2,
      host = h, trace = []\<rparr>"

section \<open>Observing a run\<close>

text \<open>
  The events a run appends to the trace, and what can be read off a list of events: the
  arguments of the \<open>fill_trajectory\<close> calls, which of them raised, the lines written to
  the terminal, the trajectory lookups.
\<close>

definition new_events :: "('h, 'g) state \<Rightarrow> ('h, 'g) state \<Rightarrow> 'g event list" where
  "new_events s s' = drop (length (trace s)) (trace s')"

fun fill_call :: "'g event \<Rightarrow> (pyval \<times> string \<times> 'g \<times> pydict option) list" where
  "fill_call (FillTrajectory t m g st r) = [(t, m, g, st)]"
| "fill_call _ = []"

definition fill_calls :: "'g event list \<Rightarrow> (pyval \<times> string \<times> 'g \<times> pydict option) list" where
  "fill_calls es = concat (map fill_call es)"

fun is_fill :: "'g event \<Rightarrow> bool" where
  "is_fill (FillTrajectory t m g st r) = True"
| "is_fill _ = False"

fun fill_raised :: "'g event \<Rightarrow> bool" where
  "fill_raised (FillTrajectory t m g st (Some e)) = True"
| "fill_raised _ = False"

fun is_find :: "'g event \<Rightarrow> bool" where
  "is_find (FindTrajectory v) = True"
| "is_find _ = False"

fun is_query :: "'g event \<Rightarrow> bool" where
  "is_query (FindTrajectory v) = True"
| "is_query (GetGapRanges v) = True"
| "is_query _ = False"

fun written :: "'g event \<Rightarrow> string list" where
  "written (TrmWrite msg) = [msg]"
| "written _ = []"

definition terminal_output :: "'g event list \<Rightarrow> string list" where
  "terminal_output es = concat (map written es)"

text \<open>The first line a fill action writes (line 96).\<close>

definition applying :: "gf_def \<Rightarrow> string" where
  "applying gf = ''Applying gap filling action '' @ display_name gf"

text \<open>
  The lookups of the names in a settings dictionary, in the order of lines 83 to 91, and
  what it means for \<open>d'\<close> to be \<open>d\<close> with its names resolved: the same keys in the same
  order, under \<open>origin\<close>, \<open>line\<close> and \<open>plane\<close> the ID that the lookup of the old value
  returned, under every other key the old value.
\<close>

definition name_lookups :: "pydict \<Rightarrow> 'g event list" where
  "name_lookups d =
     concat (map (\<lambda>k. case map_of d k of None \<Rightarrow> [] | Some v \<Rightarrow> [FindTrajectory v])
       [''origin'', ''line'', ''plane''])"

definition resolved_settings :: "(pyval \<Rightarrow> exc + pyval) \<Rightarrow> pydict \<Rightarrow> pydict \<Rightarrow> bool" where
  "resolved_settings lookup d d' \<longleftrightarrow>
     map fst d' = map fst d \<and>
     (\<forall>k \<in> set (map fst d).
        if k \<in> set [''origin'', ''line'', ''plane'']
        then map_option Inr (map_of d' k) = map_option lookup (map_of d k)
        else map_of d' k = map_of d k)"

text \<open>
  The condition under which lines 79 to 93 raise nothing: the method needs no settings, or
  the definition has settings and each of the three names that is present resolves.
\<close>

definition names_resolve :: "(pyval \<Rightarrow> exc + pyval) \<Rightarrow> pydict \<Rightarrow> bool" where
  "names_resolve lookup d \<longleftrightarrow>
     list_all (\<lambda>k. case map_of d k of
                      None \<Rightarrow> True
                    | Some v \<Rightarrow> (case lookup v of Inl e \<Rightarrow> False | Inr tid \<Rightarrow> True))
       [''origin'', ''line'', ''plane'']"

definition settings_usable :: "('h, 'g) qtm \<Rightarrow> ('h, 'g) state \<Rightarrow> gf_def \<Rightarrow> bool" where
  "settings_usable api s gf \<longleftrightarrow>
     (if gf_method gf \<in> set [''relational'', ''virtual'']
      then (case settings gf of
              None \<Rightarrow> False
            | Some a0 \<Rightarrow> names_resolve (find_trajectory api (host s)) (heap s a0))
      else True)"

text \<open>
  What the definitions hold, settings dictionaries included, and the condition that every
  settings dictionary of a definition has been allocated.
\<close>

definition definitions_value :: "('h, 'g) state \<Rightarrow> (gf_def \<times> pydict option) list" where
  "definitions_value s = map (\<lambda>gf. (gf, map_option (heap s) (settings gf))) (list_of_definitions s)"

definition settings_allocated :: "('h, 'g) state \<Rightarrow> bool" where
  "settings_allocated s \<longleftrightarrow>
     list_all (\<lambda>gf. case settings gf of None \<Rightarrow> True | Some a \<Rightarrow> a < next_addr s)
       (list_of_definitions s)"

text \<open>
  What building the menu asks of the host: the submenus and the buttons inserted, and the
  answers to the \<open>get_commands\<close> calls.
\<close>

fun submenu :: "'g event \<Rightarrow> (pyval \<times> string) list" where
  "submenu (InsertMenuSubmenu parent label) = [(parent, label)]"
| "submenu _ = []"

definition submenus :: "'g event list \<Rightarrow> (pyval \<times> string) list" where
  "submenus es = concat (map submenu es)"

fun button :: "'g event \<Rightarrow> (pyval \<times> string \<times> string) list" where
  "button (InsertMenuButton parent label command) = [(parent, label, command)]"
| "button _ = []"

definition buttons :: "'g event list \<Rightarrow> (pyval \<times> string \<times> string) list" where
  "buttons es = concat (map button es)"

fun answer :: "'g event \<Rightarrow> string list list" where
  "answer (GetCommands kind cmds) = [cmds]"
| "answer _ = []"

definition asked :: "'g event list \<Rightarrow> string list list" where
  "asked es = concat (map answer es)"

text \<open>The lookups of the names in a definition's settings, if its method asks for them.\<close>

definition settings_lookups :: "('h, 'g) state \<Rightarrow> gf_def \<Rightarrow> 'g event list" where
  "settings_lookups s gf =
     (if gf_method gf \<in> set [''relational'', ''virtual'']
      then (case settings gf of None \<Rightarrow> [] | Some a0 \<Rightarrow> name_lookups (heap s a0))
      else [])"

text \<open>
  What a recorded call does to the host: the host's own function applied to the arguments
  of the call (a query leaves the host as it is). \<open>replay\<close> makes the calls of a list of
  events in their order. The calls of a run have reached the host if the host ends in the
  state that replaying the run's events leads to from the state the run started in.
\<close>

fun host_after :: "('h, 'g) qtm \<Rightarrow> 'g event \<Rightarrow> 'h \<Rightarrow> 'h" where
  "host_after api (FindTrajectory name) h = h"
| "host_after api (GetGapRanges tid) h = h"
| "host_after api (FillTrajectory tid m g st r) h = snd (fill_trajectory api h tid m g st)"
| "host_after api (TrmWrite msg) h = trm_write api h msg"
| "host_after api (AddCommand name) h = add_command api h name"
| "host_after api (SetCommandExecuteFunction name f) h = set_command_execute_function api h name f"
| "host_after api (InsertMenuSubmenu parent label) h = snd (insert_menu_submenu api h parent label)"
| "host_after api (GetCommands kind cmds) h = h"
| "host_after api (InsertMenuButton parent label command) h =
     insert_menu_button api h parent label command"

definition replay :: "('h, 'g) qtm \<Rightarrow> 'g event list \<Rightarrow> 'h \<Rightarrow> 'h" where
  "replay api es h = fold (host_after api) es h"

text \<open>
  A list of lookups cut after the first one that the host does not resolve, and the
  lookups of an invocation for the definition \<open>gf\<close>: the target name, and, if it resolves
  and \<open>get_gap_ranges\<close> returns, the names in the settings up to the first one that does
  not resolve.
\<close>

fun until_unresolved :: "(pyval \<Rightarrow> exc + pyval) \<Rightarrow> 'g event list \<Rightarrow> 'g event list" where
  "until_unresolved lookup [] = []"
| "until_unresolved lookup (FindTrajectory name # es) =
     FindTrajectory name #
     (case lookup name of Inl e \<Rightarrow> [] | Inr tid \<Rightarrow> until_unresolved lookup es)"
| "until_unresolved lookup (e # es) = e # until_unresolved lookup es"

definition lookups_made :: "('h, 'g) qtm \<Rightarrow> ('h, 'g) state \<Rightarrow> gf_def \<Rightarrow> 'g event list" where
  "lookups_made api s gf =
     FindTrajectory (PStr (target gf)) #
     (case find_trajectory api (host s) (PStr (target gf)) of
        Inl e \<Rightarrow> []
      | Inr tid \<Rightarrow>
          (case get_gap_ranges api (host s) tid of
             Inl e \<Rightarrow> []
           | Inr gap_ranges \<Rightarrow>
               until_unresolved (find_trajectory api (host s)) (settings_lookups s gf)))"

section \<open>A host to run the script against\<close>

text \<open>
  A small host for the examples. A trajectory's ID is the length of its name, and the
  name \<open>Ghost\<close> is unknown. The trajectory with ID 5 has no 3D data, the one with ID 11
  has no gaps, every other one has three, and the gap that starts at frame 40 cannot be
  filled. The host state counts the \<open>fill_trajectory\<close> calls. The user commands are the
  ten that the script registers.
\<close>

definition ten_names :: "string list" where
  "ten_names =
     [''gap_fill_def_0'', ''gap_fill_def_1'', ''gap_fill_def_2'', ''gap_fill_def_3'',
      ''gap_fill_def_4'', ''gap_fill_def_5'', ''gap_fill_def_6'', ''gap_fill_def_7'',
      ''gap_fill_def_8'', ''gap_fill_def_9'']"

definition demo_api :: "(nat, nat \<times> nat) qtm" where
  "demo_api =
     \<lparr>find_trajectory =
        (\<lambda>h v. case v of
                  PStr n \<Rightarrow> if n = ''Ghost'' then Inl (HostError ''unknown trajectory'')
                            else Inr (PInt (int (length n)))
                | _ \<Rightarrow> Inl (HostError ''not a name'')),
      get_gap_ranges =
        (\<lambda>h v. if v = PInt 5 then Inl (HostError ''no 3D data'')
               else if v = PInt 11 then Inr []
               else Inr [(10, 19), (40, 42), (77, 80)]),
      fill_trajectory =
        (\<lambda>h t m g st. (if fst g = 40 then Some (HostError ''gap not filled'') else None, Suc h)),
      trm_write = (\<lambda>h msg. h),
      add_command = (\<lambda>h name. h),
      set_command_execute_function = (\<lambda>h name f. h),
      insert_menu_submenu = (\<lambda>h parent label. (PInt (int (length label)), h)),
      get_commands = (\<lambda>h kind. ten_names),
      insert_menu_button = (\<lambda>h parent label command. h)\<rparr>"

definition demo_state :: "(nat, nat \<times> nat) state" where
  "demo_state = shipped_state 0"

text \<open>The third shipped action (index 2) run on the demo host: its trace and final state.\<close>

definition demo_trace_2 :: "(nat \<times> nat) event list" where
  "demo_trace_2 =
     [FindTrajectory (PStr ''Q_WaistLFront''), GetGapRanges (PInt 13),
      FindTrajectory (PStr ''Q_WaistBack''), FindTrajectory (PStr ''Q_WaistRFront''),
      FindTrajectory (PStr ''Q_WaistL''),
      TrmWrite ''Applying gap filling action Q_WaistLFront (rel): WaistBack-WaistRFront-WaistL'',
      FillTrajectory (PInt 13) ''relational'' (10, 19)
        (Some [(''origin'', PInt 11), (''line'', PInt 13), (''plane'', PInt 8)]) None,
      FillTrajectory (PInt 13) ''relational'' (40, 42)
        (Some [(''origin'', PInt 11), (''line'', PInt 13), (''plane'', PInt 8)])
        (Some (HostError ''gap not filled'')),
      FillTrajectory (PInt 13) ''relational'' (77, 80)
        (Some [(''origin'', PInt 11), (''line'', PInt 13), (''plane'', PInt 8)]) None,
      TrmWrite ''- Not all gaps could be filled'']"

definition demo_after_2 :: "(nat, nat \<times> nat) state" where
  "demo_after_2 =
     \<lparr>list_of_definitions = shipped_definitions,
      heap = shipped_heap(2 := [(''origin'', PInt 11), (''line'', PInt 13), (''plane'', PInt 8)]),
      next_addr = 3, host = 3, trace = demo_trace_2\<rparr>"

text \<open>The first shipped action (index 0) on the demo host: its trajectory has no gaps.\<close>

definition demo_after_0 :: "(nat, nat \<times> nat) state" where
  "demo_after_0 =
     demo_state\<lparr>trace := [FindTrajectory (PStr ''Q_WaistBack''), GetGapRanges (PInt 11),
                           TrmWrite ''Applying gap filling action Q_WaistBack (polynomial)'']\<rparr>"

text \<open>
  Definitions that nothing has checked: two that need settings and have none (the target
  of the first has gaps, that of the second has none), one whose target the demo host
  does not know, two whose settings name an unknown origin (again with and without
  gaps), and one whose target has no 3D data.
\<close>

definition unchecked_definitions :: "gf_def list" where
  "unchecked_definitions =
     [\<lparr>display_name = ''Q_WaistLFront (rel)'', target = ''Q_WaistLFront'',
        gf_method = ''relational'', settings = None\<rparr>,
      \<lparr>display_name = ''Q_WaistBack (virtual)'', target = ''Q_WaistBack'',
        gf_method = ''virtual'', settings = None\<rparr>,
      \<lparr>display_name = ''Ghost (polynomial)'', target = ''Ghost'',
        gf_method = ''polynomial'', settings = None\<rparr>,
      \<lparr>display_name = ''Q_WaistLFront (rel): Ghost-WaistBack'', target = ''Q_WaistLFront'',
        gf_method = ''relational'', settings = Some 0\<rparr>,
      \<lparr>display_name = ''Q_WaistBack (rel): Ghost-WaistBack'', target = ''Q_WaistBack'',
        gf_method = ''relational'', settings = Some 0\<rparr>,
      \<lparr>display_name = ''Q_Toe (polynomial)'', target = ''Q_Toe'',
        gf_method = ''polynomial'', settings = None\<rparr>]"

definition unchecked_state :: "(nat, nat \<times> nat) state" where
  "unchecked_state =
     \<lparr>list_of_definitions = unchecked_definitions,
      heap = (\<lambda>a. [])(0 := [(''origin'', PStr ''Ghost''), (''line'', PStr ''Q_WaistBack'')]),
      next_addr = 1, host = 0, trace = []\<rparr>"

text \<open>
  A definition with an offset and the two booleans in its settings, and one for the same
  target that needs no settings; the settings the first one hands to the host, and the
  traces of the two actions on the demo host.
\<close>

definition custom_definitions :: "gf_def list" where
  "custom_definitions =
     [\<lparr>display_name = ''Q_HeadTop (virtual)'', target = ''Q_HeadTop'',
        gf_method = ''virtual'', settings = Some 0\<rparr>,
      \<lparr>display_name = ''Q_HeadTop (polynomial)'', target = ''Q_HeadTop'',
        gf_method = ''polynomial'', settings = None\<rparr>]"

definition custom_state :: "(nat, nat \<times> nat) state" where
  "custom_state =
     \<lparr>list_of_definitions = custom_definitions,
      heap = (\<lambda>a. [])(0 := [(''origin'', PStr ''Q_HeadFront''), (''offset'', PVec3f 0 0 50),
                            (''is_rigid_body'', PBool True), (''is_relative_offset'', PBool False)]),
      next_addr = 1, host = 0, trace = []\<rparr>"

definition custom_settings :: pydict where
  "custom_settings =
     [(''origin'', PInt 11), (''offset'', PVec3f 0 0 50), (''is_rigid_body'', PBool True),
      (''is_relative_offset'', PBool False)]"

definition custom_trace_0 :: "(nat \<times> nat) event list" where
  "custom_trace_0 =
     [FindTrajectory (PStr ''Q_HeadTop''), GetGapRanges (PInt 9),
      FindTrajectory (PStr ''Q_HeadFront''),
      TrmWrite ''Applying gap filling action Q_HeadTop (virtual)'',
      FillTrajectory (PInt 9) ''virtual'' (10, 19) (Some custom_settings) None,
      FillTrajectory (PInt 9) ''virtual'' (40, 42) (Some custom_settings)
        (Some (HostError ''gap not filled'')),
      FillTrajectory (PInt 9) ''virtual'' (77, 80) (Some custom_settings) None,
      TrmWrite ''- Not all gaps could be filled'']"

definition custom_trace_1 :: "(nat \<times> nat) event list" where
  "custom_trace_1 =
     [FindTrajectory (PStr ''Q_HeadTop''), GetGapRanges (PInt 9),
      TrmWrite ''Applying gap filling action Q_HeadTop (polynomial)'',
      FillTrajectory (PInt 9) ''polynomial'' (10, 19) None None,
      FillTrajectory (PInt 9) ''polynomial'' (40, 42) None (Some (HostError ''gap not filled'')),
      FillTrajectory (PInt 9) ''polynomial'' (77, 80) None None,
      TrmWrite ''- Not all gaps could be filled'']"

text \<open>A host with only two of the commands, and the events of building the menu on both.\<close>

definition two_commands_api :: "(nat, nat \<times> nat) qtm" where
  "two_commands_api =
     demo_api\<lparr>get_commands := (\<lambda>h kind. [''gap_fill_def_0'', ''gap_fill_def_1''])\<rparr>"

definition demo_menu :: "(nat \<times> nat) event list" where
  "demo_menu =
     [InsertMenuSubmenu PNone ''My menu'', InsertMenuSubmenu (PInt 7) ''Gap fill...'',
      GetCommands ''user'' ten_names,
      InsertMenuButton (PInt 11) ''Q_WaistBack (polynomial)'' ''gap_fill_def_0'',
      GetCommands ''user'' ten_names,
      InsertMenuButton (PInt 11) ''Q_WaistBack (kinematic)'' ''gap_fill_def_1'',
      GetCommands ''user'' ten_names,
      InsertMenuButton (PInt 11) ''Q_WaistLFront (rel): WaistBack-WaistRFront-WaistL''
        ''gap_fill_def_2'',
      GetCommands ''user'' ten_names,
      InsertMenuButton (PInt 11) ''Q_WaistRFront (rel): WaistBack-WaistLFront-WaistR''
        ''gap_fill_def_3'']"

definition short_menu :: "(nat \<times> nat) event list" where
  "short_menu =
     [InsertMenuSubmenu PNone ''My menu'', InsertMenuSubmenu (PInt 7) ''Gap fill...'',
      GetCommands ''user'' [''gap_fill_def_0'', ''gap_fill_def_1''],
      InsertMenuButton (PInt 11) ''Q_WaistBack (polynomial)'' ''gap_fill_def_0'',
      GetCommands ''user'' [''gap_fill_def_0'', ''gap_fill_def_1''],
      InsertMenuButton (PInt 11) ''Q_WaistBack (kinematic)'' ''gap_fill_def_1'',
      GetCommands ''user'' [''gap_fill_def_0'', ''gap_fill_def_1''],
      TrmWrite (''Number of gap fill definitions exceeds maximum:'' @ [CHR 0x0A] @
                ''- Definitions 3 and higher are ignored.'')]"

text \<open>
  A host on which the ID of every trajectory is the number of \<open>fill_trajectory\<close> calls
  made so far, so that an ID kept from an earlier run would show; the first shipped action
  run twice on it.
\<close>

definition counting_api :: "(nat, nat \<times> nat) qtm" where
  "counting_api = demo_api\<lparr>find_trajectory := (\<lambda>h v. Inr (PInt (int h)))\<rparr>"

definition counting_trace :: "int \<Rightarrow> (nat \<times> nat) event list" where
  "counting_trace n =
     [FindTrajectory (PStr ''Q_WaistBack''), GetGapRanges (PInt n),
      TrmWrite ''Applying gap filling action Q_WaistBack (polynomial)'',
      FillTrajectory (PInt n) ''polynomial'' (10, 19) None None,
      FillTrajectory (PInt n) ''polynomial'' (40, 42) None (Some (HostError ''gap not filled'')),
      FillTrajectory (PInt n) ''polynomial'' (77, 80) None None,
      TrmWrite ''- Not all gaps could be filled'']"

definition counting_after_1 :: "(nat, nat \<times> nat) state" where
  "counting_after_1 = demo_state\<lparr>host := 3, trace := counting_trace 0\<rparr>"

definition counting_after_2 :: "(nat, nat \<times> nat) state" where
  "counting_after_2 = demo_state\<lparr>host := 6, trace := counting_trace 0 @ counting_trace 3\<rparr>"

text \<open>
  A host that keeps what it is told: the lines on its terminal, the commands added and the
  functions bound to them, the menus and the buttons, and the arguments of the
  \<open>fill_trajectory\<close> calls it has received. Its
  trajectories and their gaps are those of the demo host, and its user commands are the
  ones that have been added. The shipped actions with the indices 2 and 0 run on it, the
  host after \<^verbatim>\<open>add_my_commands\<close>, and the host after \<^verbatim>\<open>setup_my_menu\<close> when all ten
  commands are there and when only the first two are.
\<close>

record studio =
  terminal :: "string list"
  commands :: "string list"
  execute_functions :: "(string \<times> callback) list"
  menus :: "(pyval \<times> string) list"
  menu_items :: "(pyval \<times> string \<times> string) list"
  fills :: "(pyval \<times> string \<times> (nat \<times> nat) \<times> pydict option) list"

definition studio_api :: "(studio, nat \<times> nat) qtm" where
  "studio_api =
     \<lparr>find_trajectory = (\<lambda>h. find_trajectory demo_api 0),
      get_gap_ranges = (\<lambda>h. get_gap_ranges demo_api 0),
      fill_trajectory =
        (\<lambda>h t m g st. (if fst g = 40 then Some (HostError ''gap not filled'') else None,
                       h\<lparr>fills := fills h @ [(t, m, g, st)]\<rparr>)),
      trm_write = (\<lambda>h msg. h\<lparr>terminal := terminal h @ [msg]\<rparr>),
      add_command = (\<lambda>h name. h\<lparr>commands := commands h @ [name]\<rparr>),
      set_command_execute_function =
        (\<lambda>h name f. h\<lparr>execute_functions := execute_functions h @ [(name, f)]\<rparr>),
      insert_menu_submenu =
        (\<lambda>h parent label. (PInt (int (length label)), h\<lparr>menus := menus h @ [(parent, label)]\<rparr>)),
      get_commands = (\<lambda>h kind. commands h),
      insert_menu_button =
        (\<lambda>h parent label command. h\<lparr>menu_items := menu_items h @ [(parent, label, command)]\<rparr>)\<rparr>"

definition new_studio :: studio where
  "new_studio =
     \<lparr>terminal = [], commands = [], execute_functions = [], menus = [], menu_items = [],
      fills = []\<rparr>"

definition studio_state :: "(studio, nat \<times> nat) state" where
  "studio_state = shipped_state new_studio"

definition studio_after_2 :: "(studio, nat \<times> nat) state" where
  "studio_after_2 =
     \<lparr>list_of_definitions = shipped_definitions,
      heap = shipped_heap(2 := [(''origin'', PInt 11), (''line'', PInt 13), (''plane'', PInt 8)]),
      next_addr = 3,
      host = new_studio
        \<lparr>terminal :=
           [''Applying gap filling action Q_WaistLFront (rel): WaistBack-WaistRFront-WaistL'',
            ''- Not all gaps could be filled''],
         fills :=
           map (\<lambda>g. (PInt 13, ''relational'', g,
                      Some [(''origin'', PInt 11), (''line'', PInt 13), (''plane'', PInt 8)]))
             [(10, 19), (40, 42), (77, 80)]\<rparr>,
      trace = demo_trace_2\<rparr>"

definition studio_after_0 :: "(studio, nat \<times> nat) state" where
  "studio_after_0 =
     studio_state
       \<lparr>host := new_studio\<lparr>terminal := [''Applying gap filling action Q_WaistBack (polynomial)'']\<rparr>,
        trace := [FindTrajectory (PStr ''Q_WaistBack''), GetGapRanges (PInt 11),
                  TrmWrite ''Applying gap filling action Q_WaistBack (polynomial)'']\<rparr>"

definition studio_registered :: studio where
  "studio_registered =
     new_studio
       \<lparr>commands := ten_names,
        execute_functions :=
          [(''gap_fill_def_0'', Lambda_gap_fill_def 0), (''gap_fill_def_1'', Lambda_gap_fill_def 1),
           (''gap_fill_def_2'', Lambda_gap_fill_def 2), (''gap_fill_def_3'', Lambda_gap_fill_def 3),
           (''gap_fill_def_4'', Lambda_gap_fill_def 4), (''gap_fill_def_5'', Lambda_gap_fill_def 5),
           (''gap_fill_def_6'', Lambda_gap_fill_def 6), (''gap_fill_def_7'', Lambda_gap_fill_def 7),
           (''gap_fill_def_8'', Lambda_gap_fill_def 8), (''gap_fill_def_9'', Lambda_gap_fill_def 9)]\<rparr>"

definition studio_menu :: studio where
  "studio_menu =
     studio_registered
       \<lparr>menus := [(PNone, ''My menu''), (PInt 7, ''Gap fill...'')],
        menu_items :=
          [(PInt 11, ''Q_WaistBack (polynomial)'', ''gap_fill_def_0''),
           (PInt 11, ''Q_WaistBack (kinematic)'', ''gap_fill_def_1''),
           (PInt 11, ''Q_WaistLFront (rel): WaistBack-WaistRFront-WaistL'', ''gap_fill_def_2''),
           (PInt 11, ''Q_WaistRFront (rel): WaistBack-WaistLFront-WaistR'', ''gap_fill_def_3'')]\<rparr>"

definition studio_two :: studio where
  "studio_two = new_studio\<lparr>commands := [''gap_fill_def_0'', ''gap_fill_def_1'']\<rparr>"

definition studio_short_menu :: studio where
  "studio_short_menu =
     studio_two
       \<lparr>terminal := [''Number of gap fill definitions exceeds maximum:'' @ [CHR 0x0A] @
                      ''- Definitions 3 and higher are ignored.''],
        menus := [(PNone, ''My menu''), (PInt 7, ''Gap fill...'')],
        menu_items :=
          [(PInt 11, ''Q_WaistBack (polynomial)'', ''gap_fill_def_0''),
           (PInt 11, ''Q_WaistBack (kinematic)'', ''gap_fill_def_1'')]\<rparr>"

text \<open>
  Definitions whose invocation ends early, or whose method takes no settings. All four
  have the same settings, with a \<open>line\<close> that the demo host does not know. The target of
  the first has no 3D data, that of the second is unknown, the third stops at the \<open>line\<close>,
  and the fourth is \<open>polynomial\<close>.
\<close>

definition halted_definitions :: "gf_def list" where
  "halted_definitions =
     [\<lparr>display_name = ''Q_Toe (rel): WaistBack-Ghost-WaistL'', target = ''Q_Toe'',
        gf_method = ''relational'', settings = Some 0\<rparr>,
      \<lparr>display_name = ''Ghost (rel): WaistBack-Ghost-WaistL'', target = ''Ghost'',
        gf_method = ''relational'', settings = Some 0\<rparr>,
      \<lparr>display_name = ''Q_WaistLFront (rel): WaistBack-Ghost-WaistL'', target = ''Q_WaistLFront'',
        gf_method = ''relational'', settings = Some 0\<rparr>,
      \<lparr>display_name = ''Q_WaistLFront (polynomial)'', target = ''Q_WaistLFront'',
        gf_method = ''polynomial'', settings = Some 0\<rparr>]"

definition halted_state :: "(nat, nat \<times> nat) state" where
  "halted_state =
     \<lparr>list_of_definitions = halted_definitions,
      heap = (\<lambda>a. [])(0 := [(''origin'', PStr ''Q_WaistBack''), (''line'', PStr ''Ghost''),
                            (''plane'', PStr ''Q_WaistL'')]),
      next_addr = 1, host = 0, trace = []\<rparr>"

section \<open>Lemmas about events and dictionaries\<close>

lemma fill_calls_Nil [simp]: "fill_calls [] = []"
  by (simp add: fill_calls_def)

lemma fill_calls_Cons [simp]: "fill_calls (e # es) = fill_call e @ fill_calls es"
  by (simp add: fill_calls_def)

lemma fill_calls_append [simp]: "fill_calls (xs @ ys) = fill_calls xs @ fill_calls ys"
  by (simp add: fill_calls_def)

lemma terminal_output_simps [simp]:
  "terminal_output [] = []"
  "terminal_output (e # es) = written e @ terminal_output es"
  "terminal_output (es @ es') = terminal_output es @ terminal_output es'"
  by (simp_all add: terminal_output_def)

lemma new_events_append [simp]: "trace s' = trace s @ evs \<Longrightarrow> new_events s s' = evs"
  by (simp add: new_events_def)

lemma new_events_same [simp]: "new_events s s = []"
  by (simp add: new_events_def)

lemma is_find_only:
  "is_find e \<Longrightarrow> \<not> is_fill e \<and> \<not> fill_raised e \<and> written e = [] \<and> fill_call e = []"
  by (cases e) simp_all

lemma is_fill_only: "is_fill e \<Longrightarrow> \<not> is_find e \<and> written e = []"
  by (cases e) simp_all

lemma is_query_only:
  "is_query e \<Longrightarrow> \<not> is_fill e \<and> \<not> fill_raised e \<and> written e = [] \<and> fill_call e = []"
  by (cases e) simp_all

lemma is_find_query: "is_find e \<Longrightarrow> is_query e"
  by (cases e) simp_all

lemma finds_no_fill: "\<forall>e \<in> set es. is_find e \<Longrightarrow> fill_calls es = []"
  by (induction es) (simp_all add: is_find_only)

lemma finds_no_output: "\<forall>e \<in> set es. is_find e \<Longrightarrow> terminal_output es = []"
  by (induction es) (simp_all add: is_find_only)

lemma fills_filter_find: "\<forall>e \<in> set es. is_fill e \<Longrightarrow> filter is_find es = []"
  by (induction es) (simp_all add: is_fill_only)

lemma finds_filter_find: "\<forall>e \<in> set es. is_find e \<Longrightarrow> filter is_find es = es"
  by (induction es) simp_all

lemma queries_no_fill: "\<forall>e \<in> set es. is_query e \<Longrightarrow> fill_calls es = []"
  by (induction es) (simp_all add: is_query_only)

lemma queries_no_output: "\<forall>e \<in> set es. is_query e \<Longrightarrow> terminal_output es = []"
  by (induction es) (simp_all add: is_query_only)

lemma filter_none: "\<forall>e \<in> set es. \<not> P e \<Longrightarrow> filter P es = []"
  by (induction es) simp_all

lemma map_of_Some_key: "map_of d k = Some v \<Longrightarrow> k \<in> fst ` set d"
  by (metis map_of_eq_None_iff option.distinct(1))

section \<open>What each part of \<^verbatim>\<open>_gap_fill_def\<close> does to the state\<close>

text \<open>
  The loop makes one call per gap range, in order, all with the same arguments but the
  gap; it writes nothing but the host and the trace, and its flag says whether a call
  raised.
\<close>

lemma fill_gaps_effect:
  "fill_gaps api tid m st gs flag s = (flag', s') \<Longrightarrow>
     list_of_definitions s' = list_of_definitions s \<and> heap s' = heap s \<and>
     next_addr s' = next_addr s \<and>
     (\<exists>evs. trace s' = trace s @ evs \<and>
        fill_calls evs = map (\<lambda>g. (tid, m, g, map_option (heap s) st)) gs \<and>
        (\<forall>e \<in> set evs. is_fill e) \<and>
        flag' = (flag \<or> (\<exists>e \<in> set evs. fill_raised e)))"
proof (induction gs arbitrary: flag s)
  case Nil
  then show ?case by simp
next
  case (Cons g gs)
  obtain r h where fh: "fill_trajectory api (host s) tid m g (map_option (heap s) st) = (r, h)"
    by (cases "fill_trajectory api (host s) tid m g (map_option (heap s) st)")
  define e where "e = FillTrajectory tid m g (map_option (heap s) st) r"
  define s1 where "s1 = record_call e (s\<lparr>host := h\<rparr>)"
  have run: "fill_gaps api tid m st gs (flag \<or> r \<noteq> None) s1 = (flag', s')"
    using Cons.prems fh by (cases r) (simp_all add: s1_def e_def)
  have s1: "list_of_definitions s1 = list_of_definitions s" "heap s1 = heap s"
    "next_addr s1 = next_addr s" "trace s1 = trace s @ [e]"
    by (simp_all add: s1_def record_call_def)
  from Cons.IH [OF run] obtain evs where
    ih: "list_of_definitions s' = list_of_definitions s1" "heap s' = heap s1"
      "next_addr s' = next_addr s1" "trace s' = trace s1 @ evs"
      "fill_calls evs = map (\<lambda>g. (tid, m, g, map_option (heap s1) st)) gs"
      "\<forall>e \<in> set evs. is_fill e"
      "flag' = ((flag \<or> r \<noteq> None) \<or> (\<exists>e \<in> set evs. fill_raised e))"
    by blast
  have "trace s' = trace s @ (e # evs)" using ih(4) s1(4) by simp
  moreover have "fill_calls (e # evs) = map (\<lambda>g. (tid, m, g, map_option (heap s) st)) (g # gs)"
    using ih(5) s1(2) by (simp add: e_def)
  moreover have "\<forall>x \<in> set (e # evs). is_fill x" using ih(6) by (simp add: e_def)
  moreover have "flag' = (flag \<or> (\<exists>x \<in> set (e # evs). fill_raised x))"
    using ih(7) by (cases r) (auto simp: e_def)
  ultimately show ?case using ih(1-3) s1(1-3) by metis
qed

text \<open>Converting one key writes to the dictionary at \<open>a\<close> only, and only under that key.\<close>

lemma convert_key_effect:
  assumes "convert_key api k a s = (r, s')"
  shows "list_of_definitions s' = list_of_definitions s"
    and "host s' = host s"
    and "next_addr s' = next_addr s"
    and "b \<noteq> a \<Longrightarrow> heap s' b = heap s b"
    and "trace s' = trace s @ (case map_of (heap s a) k of None \<Rightarrow> [] | Some v \<Rightarrow> [FindTrajectory v])"
    and "map fst (heap s' a) = map fst (heap s a)"
    and "k' \<noteq> k \<Longrightarrow> map_of (heap s' a) k' = map_of (heap s a) k'"
    and "r = Inr () \<Longrightarrow>
           map_option Inr (map_of (heap s' a) k) =
           map_option (find_trajectory api (host s)) (map_of (heap s a) k)"
    and "r = Inl e \<Longrightarrow>
           \<exists>v. map_of (heap s a) k = Some v \<and> find_trajectory api (host s) v = Inl e"
  using assms
  by (auto simp: convert_key_def dict_contains_def dict_getitem_def dict_setitem_def
      call_find_trajectory_def record_call_def update_conv' update_keys
      split: option.splits sum.splits if_splits dest: map_of_Some_key)

text \<open>Lines 79 to 93, case by case.\<close>

lemma convert_settings_other:
  "gf_method gf \<notin> set [''relational'', ''virtual''] \<Longrightarrow> convert_settings api gf s = (Inr None, s)"
  by (simp add: convert_settings_def)

lemma convert_settings_missing:
  "gf_method gf \<in> set [''relational'', ''virtual''] \<Longrightarrow> settings gf = None \<Longrightarrow>
     convert_settings api gf s = (Inl (KeyError ''settings''), s)"
  by (simp add: convert_settings_def)

lemma convert_settings_copy:
  assumes m: "gf_method gf \<in> set [''relational'', ''virtual'']"
    and st: "settings gf = Some a0"
    and run: "convert_settings api gf s = (r, s')"
  shows "list_of_definitions s' = list_of_definitions s"
    and "host s' = host s"
    and "next_addr s' = Suc (next_addr s)"
    and "b \<noteq> next_addr s \<Longrightarrow> heap s' b = heap s b"
    and "\<exists>evs. trace s' = trace s @ evs \<and> (\<forall>e \<in> set evs. is_find e)"
    and "r = Inr x \<Longrightarrow> x = Some (next_addr s)"
    and "r = Inr x \<Longrightarrow>
           resolved_settings (find_trajectory api (host s)) (heap s a0) (heap s' (next_addr s))"
    and "r = Inr x \<Longrightarrow> trace s' = trace s @ name_lookups (heap s a0)"
    and "r = Inl e \<Longrightarrow>
           \<exists>k \<in> set [''origin'', ''line'', ''plane''].
             \<exists>v. map_of (heap s a0) k = Some v \<and> find_trajectory api (host s) v = Inl e"
proof -
  define a where "a = next_addr s"
  define s1 where "s1 = s\<lparr>heap := (heap s)(a := heap s a0), next_addr := Suc a\<rparr>"
  have dc: "deepcopy a0 s = (a, s1)"
    by (simp add: deepcopy_def a_def s1_def)
  obtain r1 s2 where k1: "convert_key api ''origin'' a s1 = (r1, s2)"
    by (cases "convert_key api ''origin'' a s1")
  obtain r2 s3 where k2: "convert_key api ''line'' a s2 = (r2, s3)"
    by (cases "convert_key api ''line'' a s2")
  obtain r3 s4 where k3: "convert_key api ''plane'' a s3 = (r3, s4)"
    by (cases "convert_key api ''plane'' a s3")
  note e1 = convert_key_effect [OF k1]
  note e2 = convert_key_effect [OF k2]
  note e3 = convert_key_effect [OF k3]
  have s1: "list_of_definitions s1 = list_of_definitions s" "host s1 = host s"
    "next_addr s1 = Suc (next_addr s)" "trace s1 = trace s" "heap s1 a = heap s a0"
    "\<And>b. b \<noteq> a \<Longrightarrow> heap s1 b = heap s b"
    by (simp_all add: s1_def a_def)
  have d2o: "map_of (heap s2 a) ''line'' = map_of (heap s a0) ''line''"
    and d2p: "map_of (heap s2 a) ''plane'' = map_of (heap s a0) ''plane''"
    using e1(7) [of "''line''"] e1(7) [of "''plane''"] s1(5) by simp_all
  have d3p: "map_of (heap s3 a) ''plane'' = map_of (heap s a0) ''plane''"
    using e2(7) [of "''plane''"] d2p by simp
  consider (f1) e1 where "r1 = Inl e1"
    | (f2) e2 where "r1 = Inr ()" "r2 = Inl e2"
    | (f3) e3 where "r1 = Inr ()" "r2 = Inr ()" "r3 = Inl e3"
    | (ok) "r1 = Inr ()" "r2 = Inr ()" "r3 = Inr ()"
    by (cases r1; cases r2; cases r3) auto
  then have main: "list_of_definitions s' = list_of_definitions s \<and> host s' = host s \<and>
      next_addr s' = Suc (next_addr s) \<and> (\<forall>b. b \<noteq> a \<longrightarrow> heap s' b = heap s b) \<and>
      (\<exists>evs. trace s' = trace s @ evs \<and> (\<forall>e \<in> set evs. is_find e)) \<and>
      (\<forall>x. r = Inr x \<longrightarrow> x = Some a \<and>
         resolved_settings (find_trajectory api (host s)) (heap s a0) (heap s' a) \<and>
         trace s' = trace s @ name_lookups (heap s a0)) \<and>
      (\<forall>e. r = Inl e \<longrightarrow>
         (\<exists>k \<in> set [''origin'', ''line'', ''plane''].
            \<exists>v. map_of (heap s a0) k = Some v \<and> find_trajectory api (host s) v = Inl e))"
  proof cases
    case f1
    have rs: "r = Inl e1" "s' = s2"
      using run m st dc k1 f1 by (simp_all add: convert_settings_def)
    have "\<exists>v. map_of (heap s a0) ''origin'' = Some v \<and> find_trajectory api (host s) v = Inl e1"
      using e1(9) [OF f1] s1 by simp
    moreover have "\<exists>evs. trace s2 = trace s @ evs \<and> (\<forall>e \<in> set evs. is_find e)"
      using e1(5) s1 by (auto split: option.splits)
    ultimately show ?thesis
      using rs e1(1-4) s1 by auto
  next
    case f2
    have rs: "r = Inl e2" "s' = s3"
      using run m st dc k1 k2 f2 by (simp_all add: convert_settings_def)
    have "\<exists>v. map_of (heap s a0) ''line'' = Some v \<and> find_trajectory api (host s) v = Inl e2"
      using e2(9) [OF f2(2)] d2o e1(2) s1 by simp
    moreover have "\<exists>evs. trace s3 = trace s @ evs \<and> (\<forall>e \<in> set evs. is_find e)"
      using e1(5) e2(5) s1 by (auto split: option.splits)
    ultimately show ?thesis
      using rs e1(1-4) e2(1-4) s1 by auto
  next
    case f3
    have rs: "r = Inl e3" "s' = s4"
      using run m st dc k1 k2 k3 f3 by (simp_all add: convert_settings_def)
    have "\<exists>v. map_of (heap s a0) ''plane'' = Some v \<and> find_trajectory api (host s) v = Inl e3"
      using e3(9) [OF f3(3)] d3p e1(2) e2(2) s1 by simp
    moreover have "\<exists>evs. trace s4 = trace s @ evs \<and> (\<forall>e \<in> set evs. is_find e)"
      using e1(5) e2(5) e3(5) s1 by (auto split: option.splits)
    ultimately show ?thesis
      using rs e1(1-4) e2(1-4) e3(1-4) s1 by auto
  next
    case ok
    have rs: "r = Inr (Some a)" "s' = s4"
      using run m st dc k1 k2 k3 ok by (simp_all add: convert_settings_def)
    have tr: "trace s4 = trace s @ name_lookups (heap s a0)"
      using e1(5) e2(5) e3(5) s1 d2o d3p by (simp add: name_lookups_def)
    have keys: "map fst (heap s4 a) = map fst (heap s a0)"
      using e1(6) e2(6) e3(6) s1 by simp
    have other: "map_of (heap s4 a) k = map_of (heap s a0) k"
      if "k \<notin> set [''origin'', ''line'', ''plane'']" for k
      using that e1(7) [of k] e2(7) [of k] e3(7) [of k] s1 by simp
    have h: "host s3 = host s" "host s2 = host s"
      using e1(2) e2(2) s1 by simp_all
    have o: "map_option Inr (map_of (heap s4 a) ''origin'') =
        map_option (find_trajectory api (host s)) (map_of (heap s a0) ''origin'')"
      using e1(8) [OF ok(1)] e2(7) [of "''origin''"] e3(7) [of "''origin''"] s1 by simp
    have l: "map_option Inr (map_of (heap s4 a) ''line'') =
        map_option (find_trajectory api (host s)) (map_of (heap s a0) ''line'')"
      using e2(8) [OF ok(2)] e3(7) [of "''line''"] d2o h by simp
    have p: "map_option Inr (map_of (heap s4 a) ''plane'') =
        map_option (find_trajectory api (host s)) (map_of (heap s a0) ''plane'')"
      using e3(8) [OF ok(3)] d3p h by simp
    have res: "resolved_settings (find_trajectory api (host s)) (heap s a0) (heap s4 a)"
      unfolding resolved_settings_def using keys other o l p by auto
    have "\<exists>evs. trace s4 = trace s @ evs \<and> (\<forall>e \<in> set evs. is_find e)"
      using tr by (auto simp: name_lookups_def split: option.splits)
    then show ?thesis
      using rs res tr e1(1-4) e2(1-4) e3(1-4) s1 by auto
  qed
  show "list_of_definitions s' = list_of_definitions s" "host s' = host s"
    "next_addr s' = Suc (next_addr s)"
    "\<exists>evs. trace s' = trace s @ evs \<and> (\<forall>e \<in> set evs. is_find e)"
    using main by blast+
  show "b \<noteq> next_addr s \<Longrightarrow> heap s' b = heap s b"
    using main a_def by blast
  show "r = Inr x \<Longrightarrow> x = Some (next_addr s)"
    using main a_def by blast
  show "r = Inr x \<Longrightarrow>
      resolved_settings (find_trajectory api (host s)) (heap s a0) (heap s' (next_addr s))"
    using main a_def by blast
  show "r = Inr x \<Longrightarrow> trace s' = trace s @ name_lookups (heap s a0)"
    using main by blast
  show "r = Inl e \<Longrightarrow>
      \<exists>k \<in> set [''origin'', ''line'', ''plane''].
        \<exists>v. map_of (heap s a0) k = Some v \<and> find_trajectory api (host s) v = Inl e"
    using main by blast
qed

lemma convert_settings_frame:
  assumes "convert_settings api gf s = (r, s')"
  shows "list_of_definitions s' = list_of_definitions s"
    and "host s' = host s"
    and "next_addr s \<le> next_addr s'"
    and "b \<noteq> next_addr s \<Longrightarrow> heap s' b = heap s b"
    and "\<exists>evs. trace s' = trace s @ evs \<and> (\<forall>e \<in> set evs. is_find e)"
proof -
  consider (other) "gf_method gf \<notin> set [''relational'', ''virtual'']"
    | (missing) "gf_method gf \<in> set [''relational'', ''virtual'']" "settings gf = None"
    | (copy) a0 where "gf_method gf \<in> set [''relational'', ''virtual'']" "settings gf = Some a0"
    by (cases "settings gf") auto
  then have "list_of_definitions s' = list_of_definitions s \<and> host s' = host s \<and>
      next_addr s \<le> next_addr s' \<and> (\<forall>b. b \<noteq> next_addr s \<longrightarrow> heap s' b = heap s b) \<and>
      (\<exists>evs. trace s' = trace s @ evs \<and> (\<forall>e \<in> set evs. is_find e))"
  proof cases
    case other
    then show ?thesis using assms by (simp add: convert_settings_other)
  next
    case missing
    then show ?thesis using assms by (simp add: convert_settings_missing)
  next
    case copy
    note c = convert_settings_copy [OF copy assms]
    show ?thesis using c(1-5) by simp
  qed
  then show "list_of_definitions s' = list_of_definitions s" "host s' = host s"
    "next_addr s \<le> next_addr s'" "b \<noteq> next_addr s \<Longrightarrow> heap s' b = heap s b"
    "\<exists>evs. trace s' = trace s @ evs \<and> (\<forall>e \<in> set evs. is_find e)"
    by blast+
qed

lemma convert_settings_usable:
  assumes "settings_usable api s gf"
  shows "\<exists>st s'. convert_settings api gf s = (Inr st, s')"
proof (cases "gf_method gf \<in> set [''relational'', ''virtual'']")
  case False
  then show ?thesis by (simp add: convert_settings_other)
next
  case True
  with assms obtain a0 where a0: "settings gf = Some a0"
    and nr: "names_resolve (find_trajectory api (host s)) (heap s a0)"
    by (auto simp: settings_usable_def split: option.splits)
  obtain r s' where run: "convert_settings api gf s = (r, s')"
    by (cases "convert_settings api gf s")
  show ?thesis
  proof (cases r)
    case (Inl e)
    from convert_settings_copy(9) [OF True a0 run Inl] nr have False
      by (auto simp: names_resolve_def)
    then show ?thesis ..
  next
    case (Inr st)
    with run show ?thesis by blast
  qed
qed

text \<open>The five ways through \<^verbatim>\<open>_gap_fill_def\<close>: four places to raise, and the loop.\<close>

lemma gap_fill_def_cases:
  assumes run: "gap_fill_def api def_id s = (r, s')"
  obtains
    (index) "list_getitem (list_of_definitions s) def_id = Inl IndexError"
      "r = Inl IndexError" "s' = s"
  | (lookup) gf e where "list_getitem (list_of_definitions s) def_id = Inr gf"
      "find_trajectory api (host s) (PStr (target gf)) = Inl e"
      "r = Inl e" "s' = record_call (FindTrajectory (PStr (target gf))) s"
  | (ranges) gf tid e where "list_getitem (list_of_definitions s) def_id = Inr gf"
      "find_trajectory api (host s) (PStr (target gf)) = Inr tid"
      "get_gap_ranges api (host s) tid = Inl e"
      "r = Inl e"
      "s' = record_call (GetGapRanges tid) (record_call (FindTrajectory (PStr (target gf))) s)"
  | (convert) gf tid gs e where "list_getitem (list_of_definitions s) def_id = Inr gf"
      "find_trajectory api (host s) (PStr (target gf)) = Inr tid"
      "get_gap_ranges api (host s) tid = Inr gs"
      "convert_settings api gf
         (record_call (GetGapRanges tid) (record_call (FindTrajectory (PStr (target gf))) s))
       = (Inl e, s')"
      "r = Inl e"
  | (loop) gf tid gs st s3 flag s4 where "list_getitem (list_of_definitions s) def_id = Inr gf"
      "find_trajectory api (host s) (PStr (target gf)) = Inr tid"
      "get_gap_ranges api (host s) tid = Inr gs"
      "convert_settings api gf
         (record_call (GetGapRanges tid) (record_call (FindTrajectory (PStr (target gf))) s))
       = (Inr st, s3)"
      "fill_gaps api tid (gf_method gf) st gs False (call_trm_write api (applying gf) s3) = (flag, s4)"
      "r = Inr ()"
      "s' = (if flag then call_trm_write api ''- Not all gaps could be filled'' s4 else s4)"
proof (cases "list_getitem (list_of_definitions s) def_id")
  case (Inl e)
  then have e: "e = IndexError"
    by (auto simp: list_getitem_def Let_def split: if_splits)
  have "r = Inl IndexError" "s' = s"
    using Inl e run by (simp_all add: gap_fill_def_def)
  with Inl e show ?thesis
    by (intro index) simp_all
next
  case gf: (Inr gf)
  define s1 where "s1 = record_call (FindTrajectory (PStr (target gf))) s"
  have h1: "host s1 = host s" by (simp add: s1_def record_call_def)
  show ?thesis
  proof (cases "find_trajectory api (host s) (PStr (target gf))")
    case (Inl e)
    have "r = Inl e" "s' = s1"
      using gf Inl run by (simp_all add: gap_fill_def_def call_find_trajectory_def s1_def)
    then show ?thesis
      using gf Inl by (intro lookup [of gf e]) (simp_all add: s1_def)
  next
    case tid: (Inr tid)
    define s2 where "s2 = record_call (GetGapRanges tid) s1"
    show ?thesis
    proof (cases "get_gap_ranges api (host s) tid")
      case (Inl e)
      have "r = Inl e" "s' = s2"
        using gf tid Inl run h1
        by (simp_all add: gap_fill_def_def call_find_trajectory_def call_get_gap_ranges_def
            s1_def s2_def)
      then show ?thesis
        using gf tid Inl by (intro ranges [of gf tid e]) (simp_all add: s1_def s2_def)
    next
      case gs: (Inr gs)
      obtain rc s3 where cv: "convert_settings api gf s2 = (rc, s3)"
        by (cases "convert_settings api gf s2")
      show ?thesis
      proof (cases rc)
        case (Inl e)
        have "r = Inl e" "s' = s3"
          using gf tid gs cv Inl run h1
          by (simp_all add: gap_fill_def_def call_find_trajectory_def call_get_gap_ranges_def
              s1_def s2_def)
        then show ?thesis
          using gf tid gs cv Inl by (intro convert [of gf tid gs e]) (simp_all add: s1_def s2_def)
      next
        case st: (Inr st)
        obtain flag s4 where fg:
          "fill_gaps api tid (gf_method gf) st gs False (call_trm_write api (applying gf) s3) = (flag, s4)"
          by (cases "fill_gaps api tid (gf_method gf) st gs False (call_trm_write api (applying gf) s3)")
        have "r = Inr ()"
          "s' = (if flag then call_trm_write api ''- Not all gaps could be filled'' s4 else s4)"
          using gf tid gs cv st fg run h1
          by (simp_all add: gap_fill_def_def call_find_trajectory_def call_get_gap_ranges_def
              s1_def s2_def applying_def)
        then show ?thesis
          using gf tid gs cv st fg
          by (intro loop [of gf tid gs st s3 flag s4]) (simp_all add: s1_def s2_def)
      qed
    qed
  qed
qed

lemma loop_effect:
  assumes cv: "convert_settings api gf
      (record_call (GetGapRanges tid) (record_call (FindTrajectory tn) s)) = (Inr st, s3)"
    and fg: "fill_gaps api tid m st gs False (call_trm_write api msg s3) = (flag, s4)"
    and s': "s' = (if flag then call_trm_write api note s4 else s4)"
  shows "\<exists>cevs fevs.
      trace s3 = trace s @ [FindTrajectory tn, GetGapRanges tid] @ cevs \<and>
      trace s' = trace s3 @ [TrmWrite msg] @ fevs @
        (if \<exists>e \<in> set fevs. fill_raised e then [TrmWrite note] else []) \<and>
      (\<forall>e \<in> set cevs. is_find e) \<and> (\<forall>e \<in> set fevs. is_fill e) \<and>
      fill_calls fevs = map (\<lambda>g. (tid, m, g, map_option (heap s3) st)) gs"
    and "list_of_definitions s' = list_of_definitions s"
    and "heap s' = heap s3"
    and "next_addr s' = next_addr s3"
proof -
  define s2 where "s2 = record_call (GetGapRanges tid) (record_call (FindTrajectory tn) s)"
  have s2: "trace s2 = trace s @ [FindTrajectory tn, GetGapRanges tid]"
    "list_of_definitions s2 = list_of_definitions s"
    by (simp_all add: s2_def record_call_def)
  note c = convert_settings_frame [OF cv [folded s2_def]]
  from c(5) obtain cevs where cevs: "trace s3 = trace s2 @ cevs" "\<forall>e \<in> set cevs. is_find e"
    by blast
  define s3w where "s3w = call_trm_write api msg s3"
  have s3w: "trace s3w = trace s3 @ [TrmWrite msg]" "heap s3w = heap s3"
    "list_of_definitions s3w = list_of_definitions s3" "next_addr s3w = next_addr s3"
    by (simp_all add: s3w_def call_trm_write_def record_call_def)
  from fill_gaps_effect [OF fg [folded s3w_def]] obtain fevs where
    f: "list_of_definitions s4 = list_of_definitions s3w" "heap s4 = heap s3w"
      "next_addr s4 = next_addr s3w" "trace s4 = trace s3w @ fevs"
      "fill_calls fevs = map (\<lambda>g. (tid, m, g, map_option (heap s3w) st)) gs"
      "\<forall>e \<in> set fevs. is_fill e" "flag = (False \<or> (\<exists>e \<in> set fevs. fill_raised e))"
    by blast
  have tr: "trace s' = trace s3 @ [TrmWrite msg] @ fevs @
      (if \<exists>e \<in> set fevs. fill_raised e then [TrmWrite note] else [])"
    using s' f(4,7) s3w(1) by (simp add: call_trm_write_def record_call_def)
  show "\<exists>cevs fevs.
      trace s3 = trace s @ [FindTrajectory tn, GetGapRanges tid] @ cevs \<and>
      trace s' = trace s3 @ [TrmWrite msg] @ fevs @
        (if \<exists>e \<in> set fevs. fill_raised e then [TrmWrite note] else []) \<and>
      (\<forall>e \<in> set cevs. is_find e) \<and> (\<forall>e \<in> set fevs. is_fill e) \<and>
      fill_calls fevs = map (\<lambda>g. (tid, m, g, map_option (heap s3) st)) gs"
    using cevs s2(1) tr f(5,6) s3w(2) by auto
  show "list_of_definitions s' = list_of_definitions s"
    using s' f(1) s3w(3) c(1) s2(2) by (simp add: call_trm_write_def record_call_def)
  show "heap s' = heap s3"
    using s' f(2) s3w(2) by (simp add: call_trm_write_def record_call_def)
  show "next_addr s' = next_addr s3"
    using s' f(3) s3w(4) by (simp add: call_trm_write_def record_call_def)
qed

lemma gap_fill_def_raises:
  assumes run: "gap_fill_def api def_id s = (Inl e, s')"
  shows "\<exists>evs. trace s' = trace s @ evs \<and> (\<forall>ev \<in> set evs. is_query ev)"
  using run
proof (cases rule: gap_fill_def_cases)
  case index
  then show ?thesis by simp
next
  case (lookup gf e)
  then show ?thesis by (simp add: record_call_def)
next
  case (ranges gf tid e)
  then show ?thesis by (simp add: record_call_def)
next
  case (convert gf tid gs e)
  from convert_settings_frame(5) [OF convert(4)] obtain cevs where
    "trace s' = trace s @ [FindTrajectory (PStr (target gf)), GetGapRanges tid] @ cevs"
    "\<forall>e \<in> set cevs. is_find e"
    by (auto simp: record_call_def)
  then show ?thesis by (auto simp: is_find_query)
next
  case (loop gf tid gs st s3 flag s4)
  then show ?thesis by simp
qed

lemma gap_fill_def_returns:
  assumes run: "gap_fill_def api def_id s = (Inr u, s')"
  obtains gf tid gs st s3 cevs fevs where
    "list_getitem (list_of_definitions s) def_id = Inr gf"
    "find_trajectory api (host s) (PStr (target gf)) = Inr tid"
    "get_gap_ranges api (host s) tid = Inr gs"
    "convert_settings api gf
       (record_call (GetGapRanges tid) (record_call (FindTrajectory (PStr (target gf))) s))
     = (Inr st, s3)"
    "new_events s s' =
       [FindTrajectory (PStr (target gf)), GetGapRanges tid] @ cevs @ [TrmWrite (applying gf)] @
       fevs @ (if \<exists>e \<in> set fevs. fill_raised e
               then [TrmWrite ''- Not all gaps could be filled''] else [])"
    "\<forall>e \<in> set cevs. is_find e"
    "\<forall>e \<in> set fevs. is_fill e"
    "fill_calls fevs = map (\<lambda>g. (tid, gf_method gf, g, map_option (heap s3) st)) gs"
    "new_events s s3 = [FindTrajectory (PStr (target gf)), GetGapRanges tid] @ cevs"
    "heap s' = heap s3"
    "next_addr s' = next_addr s3"
    "list_of_definitions s' = list_of_definitions s"
  using run
proof (cases rule: gap_fill_def_cases)
  case (loop gf tid gs st s3 flag s4)
  note l = loop_effect [OF loop(4,5,7)]
  from l(1) obtain cevs fevs where
    t: "trace s3 = trace s @ [FindTrajectory (PStr (target gf)), GetGapRanges tid] @ cevs"
      "trace s' = trace s3 @ [TrmWrite (applying gf)] @ fevs @
        (if \<exists>e \<in> set fevs. fill_raised e
         then [TrmWrite ''- Not all gaps could be filled''] else [])"
      "\<forall>e \<in> set cevs. is_find e" "\<forall>e \<in> set fevs. is_fill e"
      "fill_calls fevs = map (\<lambda>g. (tid, gf_method gf, g, map_option (heap s3) st)) gs"
    by blast
  have "trace s' = trace s @ ([FindTrajectory (PStr (target gf)), GetGapRanges tid] @ cevs @
      [TrmWrite (applying gf)] @ fevs @
      (if \<exists>e \<in> set fevs. fill_raised e
       then [TrmWrite ''- Not all gaps could be filled''] else []))"
    using t(1,2) by simp
  then have n: "new_events s s' =
      [FindTrajectory (PStr (target gf)), GetGapRanges tid] @ cevs @ [TrmWrite (applying gf)] @
      fevs @ (if \<exists>e \<in> set fevs. fill_raised e
              then [TrmWrite ''- Not all gaps could be filled''] else [])"
    by (rule new_events_append)
  have n3: "new_events s s3 = [FindTrajectory (PStr (target gf)), GetGapRanges tid] @ cevs"
    using t(1) by (rule new_events_append)
  show ?thesis
    using loop(1-4) n t(3-5) n3 l(3,4,2) by (rule that)
qed simp_all

lemma queried_state:
  "host (record_call e s) = host s" "heap (record_call e s) = heap s"
  "next_addr (record_call e s) = next_addr s"
  "list_of_definitions (record_call e s) = list_of_definitions s"
  "trace (record_call e s) = trace s @ [e]"
  by (simp_all add: record_call_def)

lemma settings_usable_queried:
  "settings_usable api (record_call e s) gf = settings_usable api s gf"
  by (simp add: settings_usable_def queried_state split: option.splits)

lemma convert_settings_returns:
  assumes run: "convert_settings api gf s = (Inr st, s')"
  shows "gf_method gf \<notin> set [''relational'', ''virtual''] \<Longrightarrow> st = None \<and> s' = s"
    and "gf_method gf \<in> set [''relational'', ''virtual''] \<Longrightarrow>
           \<exists>a0. settings gf = Some a0 \<and> st = Some (next_addr s) \<and>
             resolved_settings (find_trajectory api (host s)) (heap s a0) (heap s' (next_addr s)) \<and>
             trace s' = trace s @ name_lookups (heap s a0)"
proof -
  show "st = None \<and> s' = s" if "gf_method gf \<notin> set [''relational'', ''virtual'']"
    using run that by (simp add: convert_settings_other)
  show "\<exists>a0. settings gf = Some a0 \<and> st = Some (next_addr s) \<and>
      resolved_settings (find_trajectory api (host s)) (heap s a0) (heap s' (next_addr s)) \<and>
      trace s' = trace s @ name_lookups (heap s a0)"
    if m: "gf_method gf \<in> set [''relational'', ''virtual'']"
  proof (cases "settings gf")
    case None
    with m run show ?thesis by (simp add: convert_settings_missing)
  next
    case (Some a0)
    note c = convert_settings_copy [OF m Some run]
    show ?thesis using Some c(6,7,8) by simp
  qed
qed

lemma gap_fill_def_usable:
  assumes gf: "list_getitem (list_of_definitions s) def_id = Inr gf"
    and tid: "find_trajectory api (host s) (PStr (target gf)) = Inr tid"
    and gs: "get_gap_ranges api (host s) tid = Inr gs"
    and ok: "settings_usable api s gf"
    and run: "gap_fill_def api def_id s = (r, s')"
  shows "r = Inr ()"
  using run
proof (cases rule: gap_fill_def_cases)
  case index
  with gf show ?thesis by simp
next
  case (lookup gf' e)
  with gf tid show ?thesis by simp
next
  case (ranges gf' tid' e)
  with gf tid gs show ?thesis by simp
next
  case (convert gf' tid' gs' e)
  have "gf' = gf" using convert(1) gf by simp
  moreover have "settings_usable api
      (record_call (GetGapRanges tid') (record_call (FindTrajectory (PStr (target gf))) s)) gf"
    using ok by (simp add: settings_usable_queried)
  ultimately show ?thesis
    using convert(4) convert_settings_usable by fastforce
next
  case (loop gf' tid' gs' st s3 flag s4)
  then show ?thesis by simp
qed

lemma take2: "take 2 (a # b # xs) = [a, b]"
  by (simp add: numeral_2_eq_2)

text \<open>The first and the last thing an invocation looks up.\<close>

lemma gap_fill_def_lookups:
  assumes gf: "list_getitem (list_of_definitions s) def_id = Inr gf"
    and run: "gap_fill_def api def_id s = (r, s')"
  shows "take 1 (new_events s s') = [FindTrajectory (PStr (target gf))]"
    and "r = Inr () \<Longrightarrow>
      filter is_find (new_events s s') =
        FindTrajectory (PStr (target gf)) # settings_lookups s gf"
    and "c \<in> set (fill_calls (new_events s s')) \<Longrightarrow>
      find_trajectory api (host s) (PStr (target gf)) = Inr (fst c)"
proof -
  from run have "take 1 (new_events s s') = [FindTrajectory (PStr (target gf))] \<and>
      (r = Inr () \<longrightarrow> filter is_find (new_events s s') =
        FindTrajectory (PStr (target gf)) # settings_lookups s gf) \<and>
      (\<forall>c \<in> set (fill_calls (new_events s s')).
         find_trajectory api (host s) (PStr (target gf)) = Inr (fst c))"
  proof (cases rule: gap_fill_def_cases)
    case index
    with gf show ?thesis by simp
  next
    case (lookup gf' e)
    with gf show ?thesis by (simp add: queried_state)
  next
    case (ranges gf' tid e)
    with gf show ?thesis by (simp add: queried_state)
  next
    case (convert gf' tid gs e)
    from convert_settings_frame(5) [OF convert(4)] obtain cevs where
      c: "trace s' = trace s @ ([FindTrajectory (PStr (target gf')), GetGapRanges tid] @ cevs)"
        "\<forall>e \<in> set cevs. is_find e"
      by (auto simp: queried_state)
    have "new_events s s' = [FindTrajectory (PStr (target gf')), GetGapRanges tid] @ cevs"
      using c(1) by (rule new_events_append)
    with convert(1,5) gf c(2) show ?thesis
      by (simp add: finds_no_fill)
  next
    case (loop gf' tid gs st s3 flag s4)
    have eq: "gf' = gf" using loop(1) gf by simp
    note l = loop_effect [OF loop(4,5,7)]
    from l(1) obtain cevs fevs where
      t: "trace s3 = trace s @ [FindTrajectory (PStr (target gf)), GetGapRanges tid] @ cevs"
        "trace s' = trace s3 @ [TrmWrite (applying gf)] @ fevs @
          (if \<exists>e \<in> set fevs. fill_raised e
           then [TrmWrite ''- Not all gaps could be filled''] else [])"
        "\<forall>e \<in> set cevs. is_find e" "\<forall>e \<in> set fevs. is_fill e"
        "fill_calls fevs = map (\<lambda>g. (tid, gf_method gf, g, map_option (heap s3) st)) gs"
      unfolding eq by blast
    have "trace s' = trace s @ ([FindTrajectory (PStr (target gf)), GetGapRanges tid] @ cevs @
        [TrmWrite (applying gf)] @ fevs @
        (if \<exists>e \<in> set fevs. fill_raised e
         then [TrmWrite ''- Not all gaps could be filled''] else []))"
      using t(1,2) by simp
    then have n: "new_events s s' =
        [FindTrajectory (PStr (target gf)), GetGapRanges tid] @ cevs @
        [TrmWrite (applying gf)] @ fevs @
        (if \<exists>e \<in> set fevs. fill_raised e
         then [TrmWrite ''- Not all gaps could be filled''] else [])"
      by (rule new_events_append)
    have cevs: "cevs = settings_lookups s gf"
    proof (cases "gf_method gf \<in> set [''relational'', ''virtual'']")
      case True
      from convert_settings_returns(2) [OF loop(4) [unfolded eq] True] t(1) True show ?thesis
        by (auto simp: settings_lookups_def queried_state)
    next
      case False
      from convert_settings_returns(1) [OF loop(4) [unfolded eq] False] t(1) False show ?thesis
        by (simp add: settings_lookups_def queried_state)
    qed
    have "filter is_find (new_events s s') = FindTrajectory (PStr (target gf)) # cevs"
      using n finds_filter_find [OF t(3)] fills_filter_find [OF t(4)] by simp
    moreover have "fill_calls (new_events s s') = fill_calls fevs"
      using n finds_no_fill [OF t(3)] by simp
    ultimately show ?thesis
      using n cevs t(5) loop(2) eq by auto
  qed
  then show "take 1 (new_events s s') = [FindTrajectory (PStr (target gf))]"
    "r = Inr () \<Longrightarrow>
      filter is_find (new_events s s') =
        FindTrajectory (PStr (target gf)) # settings_lookups s gf"
    "c \<in> set (fill_calls (new_events s s')) \<Longrightarrow>
      find_trajectory api (host s) (PStr (target gf)) = Inr (fst c)"
    by blast+
qed

lemma settings_lookups_queried:
  "settings_lookups (record_call e s) gf = settings_lookups s gf"
  by (simp add: settings_lookups_def queried_state split: option.splits)

text \<open>What an invocation leaves alone.\<close>

lemma gap_fill_def_frame:
  assumes run: "gap_fill_def api def_id s = (r, s')"
  shows "list_of_definitions s' = list_of_definitions s"
    and "next_addr s \<le> next_addr s'"
    and "b \<noteq> next_addr s \<Longrightarrow> heap s' b = heap s b"
proof -
  from run have "list_of_definitions s' = list_of_definitions s \<and> next_addr s \<le> next_addr s' \<and>
      (\<forall>b. b \<noteq> next_addr s \<longrightarrow> heap s' b = heap s b)"
  proof (cases rule: gap_fill_def_cases)
    case index
    then show ?thesis by simp
  next
    case (lookup gf e)
    then show ?thesis by (simp add: queried_state)
  next
    case (ranges gf tid e)
    then show ?thesis by (simp add: queried_state)
  next
    case (convert gf tid gs e)
    note c = convert_settings_frame [OF convert(4)]
    show ?thesis using c(1,3) c(4) by (simp add: queried_state)
  next
    case (loop gf tid gs st s3 flag s4)
    note c = convert_settings_frame [OF loop(4)]
    note l = loop_effect [OF loop(4,5,7)]
    show ?thesis using c(1,3) c(4) l(2,3,4) by (simp add: queried_state)
  qed
  then show "list_of_definitions s' = list_of_definitions s" "next_addr s \<le> next_addr s'"
    "b \<noteq> next_addr s \<Longrightarrow> heap s' b = heap s b"
    by blast+
qed

lemma definitions_value_frame:
  assumes "settings_allocated s"
    and "list_of_definitions s' = list_of_definitions s"
    and "next_addr s \<le> next_addr s'"
    and "\<And>b. b < next_addr s \<Longrightarrow> heap s' b = heap s b"
  shows "definitions_value s' = definitions_value s" and "settings_allocated s'"
proof -
  have a: "a < next_addr s" if "gf \<in> set (list_of_definitions s)" "settings gf = Some a" for gf a
    using assms(1) that by (auto simp: settings_allocated_def list_all_iff)
  have "map_option (heap s') (settings gf) = map_option (heap s) (settings gf)"
    if "gf \<in> set (list_of_definitions s)" for gf
    using a [OF that] assms(4) by (cases "settings gf") simp_all
  then show "definitions_value s' = definitions_value s"
    by (simp add: definitions_value_def assms(2))
  show "settings_allocated s'"
    using a assms(2,3) by (fastforce simp: settings_allocated_def list_all_iff split: option.splits)
qed

section \<open>Commands and the menu\<close>

text \<open>
  The names that line 167 computes for the indices below ten are the ten names that
  \<^verbatim>\<open>add_my_commands\<close> registers, and no other index gives one of them.
\<close>

lemma str_nat_digit: "n < 10 \<Longrightarrow> str_nat n = [digit_char n]"
  by (simp add: str_nat.simps)

lemma str_nat_nonempty: "str_nat n \<noteq> []"
  by (subst str_nat.simps) simp

lemma str_nat_long: "10 \<le> n \<Longrightarrow> 2 \<le> length (str_nat n)"
proof -
  assume n: "10 \<le> n"
  have "str_nat n = str_nat (n div 10) @ [digit_char (n mod 10)]"
    using n by (subst str_nat.simps) simp
  moreover have "1 \<le> length (str_nat (n div 10))"
    using str_nat_nonempty [of "n div 10"] by (cases "str_nat (n div 10)") simp_all
  ultimately show ?thesis by simp
qed

lemma command_for_small:
  "command_for 0 = ''gap_fill_def_0''" "command_for 1 = ''gap_fill_def_1''"
  "command_for 2 = ''gap_fill_def_2''" "command_for 3 = ''gap_fill_def_3''"
  "command_for 4 = ''gap_fill_def_4''" "command_for 5 = ''gap_fill_def_5''"
  "command_for 6 = ''gap_fill_def_6''" "command_for 7 = ''gap_fill_def_7''"
  "command_for 8 = ''gap_fill_def_8''" "command_for 9 = ''gap_fill_def_9''"
  "command_for (Suc 0) = ''gap_fill_def_1''"
  by (simp_all add: command_for_def str_nat_digit digit_char_def)

lemma command_for_upt:
  "map command_for [0..<10] = map fst command_table"
proof -
  have "[0..<10] = [0, 1, 2, 3, 4, 5, 6, 7, 8, 9 :: nat]"
    by (simp add: upt_rec)
  then show ?thesis
    by (simp add: command_for_small command_table_def)
qed

lemma command_table_upt: "command_table = map (\<lambda>i. (command_for i, int i)) [0..<10]"
proof -
  have "[0..<10] = [0, 1, 2, 3, 4, 5, 6, 7, 8, 9 :: nat]"
    by (simp add: upt_rec)
  then show ?thesis
    by (simp add: command_for_small command_table_def)
qed

lemma command_registered: "command_for i \<in> set (map fst command_table) \<longleftrightarrow> i < 10"
proof (cases "i < 10")
  case True
  then have "command_for i \<in> set (map command_for [0..<10])" by simp
  with True show ?thesis by (simp only: command_for_upt)
next
  case False
  then have "15 \<le> length (command_for i)"
    using str_nat_long [of i] by (simp add: command_for_def)
  moreover have "\<forall>c \<in> set (map fst command_table). length c = 14"
    by (simp add: command_table_def)
  ultimately show ?thesis using False by auto
qed

lemma register_command_effect:
  "list_of_definitions (register_command api name k s) = list_of_definitions s"
  "heap (register_command api name k s) = heap s"
  "next_addr (register_command api name k s) = next_addr s"
  "trace (register_command api name k s) =
     trace s @ [AddCommand name, SetCommandExecuteFunction name (Lambda_gap_fill_def k)]"
  by (simp_all add: register_command_def call_add_command_def
      call_set_command_execute_function_def record_call_def)

lemma register_all_effect:
  "list_of_definitions (fold (\<lambda>(name, k). register_command api name k) tbl s) = list_of_definitions s \<and>
   heap (fold (\<lambda>(name, k). register_command api name k) tbl s) = heap s \<and>
   next_addr (fold (\<lambda>(name, k). register_command api name k) tbl s) = next_addr s \<and>
   trace (fold (\<lambda>(name, k). register_command api name k) tbl s) =
     trace s @ concat (map (\<lambda>(name, k).
       [AddCommand name, SetCommandExecuteFunction name (Lambda_gap_fill_def k)]) tbl)"
proof (induction tbl arbitrary: s)
  case Nil
  then show ?case by simp
next
  case (Cons p tbl)
  obtain name k where p: "p = (name, k)" by (cases p)
  show ?case
    using Cons.IH [of "register_command api name k s"]
    by (simp add: p register_command_effect)
qed

lemma add_my_commands_effect:
  "list_of_definitions (add_my_commands api s) = list_of_definitions s"
  "heap (add_my_commands api s) = heap s"
  "next_addr (add_my_commands api s) = next_addr s"
  "new_events s (add_my_commands api s) =
     concat (map (\<lambda>(name, k).
       [AddCommand name, SetCommandExecuteFunction name (Lambda_gap_fill_def k)]) command_table)"
  using register_all_effect [of api command_table s]
  by (simp_all add: add_my_commands_def)

text \<open>The loop of \<^verbatim>\<open>setup_my_menu\<close>: what it never touches, and the events it adds.\<close>

lemma list_getitem_nat:
  "i < length xs \<Longrightarrow> list_getitem xs (int i) = Inr (xs ! i)"
  by (simp add: list_getitem_def)

lemma menu_projections [simp]:
  "submenus [] = []" "submenus (e # es) = submenu e @ submenus es"
  "submenus (es @ es') = submenus es @ submenus es'"
  "buttons [] = []" "buttons (e # es) = button e @ buttons es"
  "buttons (es @ es') = buttons es @ buttons es'"
  "asked [] = []" "asked (e # es) = answer e @ asked es"
  "asked (es @ es') = asked es @ asked es'"
  by (simp_all add: submenus_def buttons_def asked_def)

lemma menu_buttons_effect:
  "\<forall>i \<in> set ns. i < length (list_of_definitions s) \<Longrightarrow>
   menu_buttons api sub ns s = (r, s') \<Longrightarrow>
   r = Inr () \<and> list_of_definitions s' = list_of_definitions s \<and> heap s' = heap s \<and>
   next_addr s' = next_addr s \<and>
   (\<exists>evs k. trace s' = trace s @ evs \<and> k \<le> length ns \<and>
      buttons evs =
        map (\<lambda>i. (sub, display_name (list_of_definitions s ! i), command_for i)) (take k ns) \<and>
      terminal_output evs = (if k < length ns then [exceeds_maximum (ns ! k)] else []) \<and>
      length (asked evs) = (if k < length ns then Suc k else k) \<and>
      (\<forall>j < k. command_for (ns ! j) \<in> set (asked evs ! j)) \<and>
      (k < length ns \<longrightarrow>
         command_for (ns ! k) \<notin> set (asked evs ! k) \<and>
         last evs = TrmWrite (exceeds_maximum (ns ! k))) \<and>
      submenus evs = [] \<and> (\<forall>e \<in> set evs. \<not> is_find e))"
proof (induction ns arbitrary: s)
  case Nil
  then have "s' = s" "r = Inr ()" by simp_all
  then have "trace s' = trace s @ [] \<and> (0 :: nat) \<le> length ([] :: nat list) \<and>
      buttons ([] :: 'b event list) =
        map (\<lambda>i. (sub, display_name (list_of_definitions s ! i), command_for i)) (take 0 []) \<and>
      terminal_output ([] :: 'b event list) = [] \<and> submenus ([] :: 'b event list) = [] \<and>
      length (asked ([] :: 'b event list)) = 0"
    by simp
  with \<open>s' = s\<close> \<open>r = Inr ()\<close> show ?case
    by (intro conjI exI [of _ "[]"] exI [of _ 0]) simp_all
next
  case (Cons i ns)
  have i: "i < length (list_of_definitions s)" using Cons.prems(1) by simp
  define gf where "gf = list_of_definitions s ! i"
  have gf: "list_getitem (list_of_definitions s) (int i) = Inr gf"
    using i by (simp add: list_getitem_nat gf_def)
  define cmds where "cmds = get_commands api (host s) ''user''"
  define s1 where "s1 = record_call (GetCommands ''user'' cmds) s"
  have ex: "list_ex (\<lambda>uc. uc = command_for i) cmds \<longleftrightarrow> command_for i \<in> set cmds"
    by (auto simp: list_ex_iff)
  show ?case
  proof (cases "command_for i \<in> set cmds")
    case False
    have res: "r = Inr ()" "s' = call_trm_write api (exceeds_maximum i) s1"
      using Cons.prems(2) gf False ex
      by (simp_all add: call_get_commands_def s1_def cmds_def)
    define evs :: "'b event list" where
      "evs = [GetCommands ''user'' cmds, TrmWrite (exceeds_maximum i)]"
    have tr: "trace s' = trace s @ evs"
      by (simp add: res s1_def call_trm_write_def record_call_def evs_def)
    have fr: "list_of_definitions s' = list_of_definitions s" "heap s' = heap s"
      "next_addr s' = next_addr s"
      by (simp_all add: res s1_def call_trm_write_def record_call_def)
    have "(0 :: nat) \<le> length (i # ns) \<and>
      buttons evs =
        map (\<lambda>i. (sub, display_name (list_of_definitions s ! i), command_for i))
          (take 0 (i # ns)) \<and>
      terminal_output evs = (if 0 < length (i # ns) then [exceeds_maximum ((i # ns) ! 0)] else []) \<and>
      length (asked evs) = (if 0 < length (i # ns) then Suc 0 else 0) \<and>
      (\<forall>j < 0. command_for ((i # ns) ! j) \<in> set (asked evs ! j)) \<and>
      (0 < length (i # ns) \<longrightarrow>
         command_for ((i # ns) ! 0) \<notin> set (asked evs ! 0) \<and>
         last evs = TrmWrite (exceeds_maximum ((i # ns) ! 0))) \<and>
      submenus evs = [] \<and> (\<forall>e \<in> set evs. \<not> is_find e)"
      using False by (auto simp: evs_def cmds_def)
    with tr res(1) fr show ?thesis by blast
  next
    case True
    define b :: "'b event" where "b = InsertMenuButton sub (display_name gf) (command_for i)"
    define s2 where
      "s2 = call_insert_menu_button api sub (display_name gf) (command_for i) s1"
    have run: "menu_buttons api sub ns s2 = (r, s')"
      using Cons.prems(2) gf True ex
      by (simp add: call_get_commands_def s1_def s2_def cmds_def)
    have s2: "list_of_definitions s2 = list_of_definitions s" "heap s2 = heap s"
      "next_addr s2 = next_addr s" "trace s2 = trace s @ [GetCommands ''user'' cmds, b]"
      by (simp_all add: s2_def s1_def call_insert_menu_button_def record_call_def b_def)
    have b2: "\<forall>i \<in> set ns. i < length (list_of_definitions s2)"
      using Cons.prems(1) s2(1) by simp
    from Cons.IH [OF b2 run] obtain evs k where
      ih: "r = Inr ()" "list_of_definitions s' = list_of_definitions s2" "heap s' = heap s2"
        "next_addr s' = next_addr s2" "trace s' = trace s2 @ evs" "k \<le> length ns"
        "buttons evs =
           map (\<lambda>i. (sub, display_name (list_of_definitions s2 ! i), command_for i)) (take k ns)"
        "terminal_output evs = (if k < length ns then [exceeds_maximum (ns ! k)] else [])"
        "\<forall>j < k. command_for (ns ! j) \<in> set (asked evs ! j)"
        "k < length ns \<longrightarrow>
           command_for (ns ! k) \<notin> set (asked evs ! k) \<and>
           last evs = TrmWrite (exceeds_maximum (ns ! k))"
        "length (asked evs) = (if k < length ns then Suc k else k)"
        "submenus evs = []" "\<forall>e \<in> set evs. \<not> is_find e"
      by blast
    define evs' where "evs' = [GetCommands ''user'' cmds, b] @ evs"
    have tr: "trace s' = trace s @ evs'"
      using ih(5) s2(4) by (simp add: evs'_def)
    have nonempty: "evs \<noteq> []" if "k < length ns"
      using ih(8) that by auto
    have f1: "Suc k \<le> length (i # ns)" using ih(6) by simp
    have f2: "buttons evs' =
        map (\<lambda>i. (sub, display_name (list_of_definitions s ! i), command_for i))
          (take (Suc k) (i # ns))"
      using ih(7) s2(1) by (simp add: evs'_def b_def gf_def)
    have f3: "terminal_output evs' =
        (if Suc k < length (i # ns) then [exceeds_maximum ((i # ns) ! Suc k)] else [])"
      using ih(8) by (simp add: evs'_def b_def)
    have f4: "length (asked evs') = (if Suc k < length (i # ns) then Suc (Suc k) else Suc k)"
      using ih(11) by (simp add: evs'_def b_def)
    have f5: "\<forall>j < Suc k. command_for ((i # ns) ! j) \<in> set (asked evs' ! j)"
    proof (intro allI impI)
      fix j assume "j < Suc k"
      then show "command_for ((i # ns) ! j) \<in> set (asked evs' ! j)"
        using ih(9) True by (cases j) (simp_all add: evs'_def b_def)
    qed
    have f6: "Suc k < length (i # ns) \<longrightarrow>
         command_for ((i # ns) ! Suc k) \<notin> set (asked evs' ! Suc k) \<and>
         last evs' = TrmWrite (exceeds_maximum ((i # ns) ! Suc k))"
      using ih(10) nonempty by (simp add: evs'_def b_def)
    have f7: "submenus evs' = []" and f8: "\<forall>e \<in> set evs'. \<not> is_find e"
      using ih(12,13) by (simp_all add: evs'_def b_def)
    have "\<exists>evs k. trace s' = trace s @ evs \<and> k \<le> length (i # ns) \<and>
      buttons evs =
        map (\<lambda>i. (sub, display_name (list_of_definitions s ! i), command_for i))
          (take k (i # ns)) \<and>
      terminal_output evs = (if k < length (i # ns) then [exceeds_maximum ((i # ns) ! k)] else []) \<and>
      length (asked evs) = (if k < length (i # ns) then Suc k else k) \<and>
      (\<forall>j < k. command_for ((i # ns) ! j) \<in> set (asked evs ! j)) \<and>
      (k < length (i # ns) \<longrightarrow>
         command_for ((i # ns) ! k) \<notin> set (asked evs ! k) \<and>
         last evs = TrmWrite (exceeds_maximum ((i # ns) ! k))) \<and>
      submenus evs = [] \<and> (\<forall>e \<in> set evs. \<not> is_find e)"
      by (rule exI [of _ evs'], rule exI [of _ "Suc k"]) (intro conjI tr f1 f2 f3 f4 f5 f6 f7 f8)
    then show ?thesis
      using ih(1-4) s2(1-3) by simp
  qed
qed

lemma setup_my_menu_effect:
  assumes m1: "insert_menu_submenu api (host s) PNone ''My menu'' = (my_menu_id, h1)"
    and m2: "insert_menu_submenu api h1 my_menu_id ''Gap fill...'' = (gf_sub_id, h2)"
    and run: "setup_my_menu api s = (r, s')"
  shows "r = Inr () \<and> list_of_definitions s' = list_of_definitions s \<and> heap s' = heap s \<and>
    next_addr s' = next_addr s \<and>
    (\<exists>evs k.
       new_events s s' =
         [InsertMenuSubmenu PNone ''My menu'', InsertMenuSubmenu my_menu_id ''Gap fill...''] @ evs \<and>
       k \<le> length (list_of_definitions s) \<and>
       buttons evs =
         map (\<lambda>i. (gf_sub_id, display_name (list_of_definitions s ! i), command_for i)) [0..<k] \<and>
       terminal_output evs =
         (if k < length (list_of_definitions s) then [exceeds_maximum k] else []) \<and>
       length (asked evs) = (if k < length (list_of_definitions s) then Suc k else k) \<and>
       (\<forall>j < k. command_for j \<in> set (asked evs ! j)) \<and>
       (k < length (list_of_definitions s) \<longrightarrow>
          command_for k \<notin> set (asked evs ! k) \<and> last evs = TrmWrite (exceeds_maximum k)) \<and>
       submenus evs = [] \<and> (\<forall>e \<in> set evs. \<not> is_find e))"
proof -
  define n where "n = length (list_of_definitions s)"
  define s1 where "s1 = record_call (InsertMenuSubmenu PNone ''My menu'') (s\<lparr>host := h1\<rparr>)"
  define s2 where
    "s2 = record_call (InsertMenuSubmenu my_menu_id ''Gap fill...'') (s1\<lparr>host := h2\<rparr>)"
  have s2: "list_of_definitions s2 = list_of_definitions s" "heap s2 = heap s"
    "next_addr s2 = next_addr s"
    "trace s2 = trace s @ [InsertMenuSubmenu PNone ''My menu'',
       InsertMenuSubmenu my_menu_id ''Gap fill...'']"
    by (simp_all add: s2_def s1_def record_call_def)
  have b2: "\<forall>i \<in> set [0..<n]. i < length (list_of_definitions s2)"
    using s2(1) by (simp add: n_def)
  have run2: "menu_buttons api gf_sub_id [0..<n] s2 = (r, s')"
    using run m1 m2
    by (simp add: setup_my_menu_def call_insert_menu_submenu_def s1_def s2_def record_call_def
        n_def)
  from menu_buttons_effect [OF b2 run2] obtain evs k where
    e: "r = Inr ()" "list_of_definitions s' = list_of_definitions s2" "heap s' = heap s2"
      "next_addr s' = next_addr s2" "trace s' = trace s2 @ evs" "k \<le> length [0..<n]"
      "buttons evs =
         map (\<lambda>i. (gf_sub_id, display_name (list_of_definitions s2 ! i), command_for i))
           (take k [0..<n])"
      "terminal_output evs = (if k < length [0..<n] then [exceeds_maximum ([0..<n] ! k)] else [])"
      "length (asked evs) = (if k < length [0..<n] then Suc k else k)"
      "\<forall>j < k. command_for ([0..<n] ! j) \<in> set (asked evs ! j)"
      "k < length [0..<n] \<longrightarrow>
         command_for ([0..<n] ! k) \<notin> set (asked evs ! k) \<and>
         last evs = TrmWrite (exceeds_maximum ([0..<n] ! k))"
      "submenus evs = []" "\<forall>e \<in> set evs. \<not> is_find e"
    by blast
  have kn: "k \<le> n" using e(6) by simp
  have tk: "take k [0..<n] = [0..<k]" using kn by simp
  have "trace s' = trace s @ ([InsertMenuSubmenu PNone ''My menu'',
       InsertMenuSubmenu my_menu_id ''Gap fill...''] @ evs)"
    using e(5) s2(4) by simp
  then have n1: "new_events s s' = [InsertMenuSubmenu PNone ''My menu'',
       InsertMenuSubmenu my_menu_id ''Gap fill...''] @ evs"
    by (rule new_events_append)
  have n2: "buttons evs =
      map (\<lambda>i. (gf_sub_id, display_name (list_of_definitions s ! i), command_for i)) [0..<k]"
    using e(7) tk s2(1) by simp
  have n3: "terminal_output evs = (if k < n then [exceeds_maximum k] else [])"
    using e(8) by simp
  have n4: "length (asked evs) = (if k < n then Suc k else k)"
    using e(9) by simp
  have n5: "\<forall>j < k. command_for j \<in> set (asked evs ! j)"
    using e(10) kn by simp
  have n6: "k < n \<longrightarrow>
      command_for k \<notin> set (asked evs ! k) \<and> last evs = TrmWrite (exceeds_maximum k)"
    using e(11) by simp
  have "\<exists>evs k.
       new_events s s' =
         [InsertMenuSubmenu PNone ''My menu'', InsertMenuSubmenu my_menu_id ''Gap fill...''] @ evs \<and>
       k \<le> n \<and>
       buttons evs =
         map (\<lambda>i. (gf_sub_id, display_name (list_of_definitions s ! i), command_for i)) [0..<k] \<and>
       terminal_output evs = (if k < n then [exceeds_maximum k] else []) \<and>
       length (asked evs) = (if k < n then Suc k else k) \<and>
       (\<forall>j < k. command_for j \<in> set (asked evs ! j)) \<and>
       (k < n \<longrightarrow>
          command_for k \<notin> set (asked evs ! k) \<and> last evs = TrmWrite (exceeds_maximum k)) \<and>
       submenus evs = [] \<and> (\<forall>e \<in> set evs. \<not> is_find e)"
    by (rule exI [of _ evs], rule exI [of _ k]) (intro conjI n1 kn n2 n3 n4 n5 n6 e(12,13))
  then show ?thesis
    using e(1-4) s2(1-3) unfolding n_def by simp
qed

lemma setup_my_menu_frame:
  assumes run: "setup_my_menu api s = (r, s')"
  shows "list_of_definitions s' = list_of_definitions s"
    and "heap s' = heap s"
    and "next_addr s' = next_addr s"
    and "\<forall>e \<in> set (new_events s s'). \<not> is_find e"
proof -
  obtain my_menu_id h1 where m1:
    "insert_menu_submenu api (host s) PNone ''My menu'' = (my_menu_id, h1)"
    by (cases "insert_menu_submenu api (host s) PNone ''My menu''")
  obtain gf_sub_id h2 where m2:
    "insert_menu_submenu api h1 my_menu_id ''Gap fill...'' = (gf_sub_id, h2)"
    by (cases "insert_menu_submenu api h1 my_menu_id ''Gap fill...''")
  from setup_my_menu_effect [OF m1 m2 run] obtain evs where
    e: "list_of_definitions s' = list_of_definitions s" "heap s' = heap s"
      "next_addr s' = next_addr s"
      "new_events s s' =
         [InsertMenuSubmenu PNone ''My menu'', InsertMenuSubmenu my_menu_id ''Gap fill...''] @ evs"
      "\<forall>e \<in> set evs. \<not> is_find e"
    by blast
  show "list_of_definitions s' = list_of_definitions s" "heap s' = heap s"
    "next_addr s' = next_addr s"
    by (rule e)+
  show "\<forall>e \<in> set (new_events s s'). \<not> is_find e"
    using e(4,5) by simp
qed

text \<open>
  If every answer to \<open>get_commands\<close> holds the ten registered names and no other name
  of that form, the loop stops at ten or at the end of the list.
\<close>

lemma ten_commands_count:
  assumes len: "length answers = (if k < n then Suc k else k)"
    and reg: "\<forall>j < k. command_for j \<in> set (answers ! j)"
    and stop: "k < n \<longrightarrow> command_for k \<notin> set (answers ! k)"
    and kn: "k \<le> n"
    and ten: "\<forall>cmds \<in> set answers. set cmds = set (map fst command_table)"
  shows "k = min n 10"
proof -
  have small: "j < 10" if "j < k" for j
  proof -
    have "j < length answers" using that len by (simp split: if_splits)
    then have "set (answers ! j) = set (map fst command_table)" using ten by simp
    moreover have "command_for j \<in> set (answers ! j)" using reg that by simp
    ultimately show ?thesis using command_registered [of j] by simp
  qed
  have k10: "k \<le> 10"
  proof (rule ccontr)
    assume "\<not> k \<le> 10"
    then have "10 < k" by simp
    from small [OF this] show False by simp
  qed
  show ?thesis
  proof (cases "k < n")
    case True
    then have "k < length answers" using len by simp
    then have "set (answers ! k) = set (map fst command_table)" using ten by simp
    moreover have "command_for k \<notin> set (answers ! k)" using stop True by simp
    ultimately have "\<not> k < 10" using command_registered [of k] by simp
    with k10 True show ?thesis by simp
  next
    case False
    with kn k10 show ?thesis by simp
  qed
qed
section \<open>The host after a run, and the lookups of a run\<close>

text \<open>
  Replaying queries changes nothing. Each function of the script leaves the host in the
  state that replaying its events leads to.
\<close>

lemma replay_simps [simp]:
  "replay api [] h = h"
  "replay api (e # es) h = replay api es (host_after api e h)"
  "replay api (es @ es') h = replay api es' (replay api es h)"
  by (simp_all add: replay_def)

lemma replay_queries: "\<forall>e \<in> set es. is_query e \<Longrightarrow> replay api es h = h"
proof (induction es)
  case Nil
  then show ?case by simp
next
  case (Cons e es)
  then have "is_query e" by simp
  then have "host_after api e h = h" by (cases e) simp_all
  with Cons show ?case by simp
qed

lemma replay_finds: "\<forall>e \<in> set es. is_find e \<Longrightarrow> replay api es h = h"
  by (rule replay_queries) (simp add: is_find_query)

lemma fill_gaps_host:
  "fill_gaps api tid m st gs flag s = (flag', s') \<Longrightarrow>
     \<exists>evs. trace s' = trace s @ evs \<and> host s' = replay api evs (host s)"
proof (induction gs arbitrary: flag s)
  case Nil
  then show ?case by simp
next
  case (Cons g gs)
  obtain r h where fh: "fill_trajectory api (host s) tid m g (map_option (heap s) st) = (r, h)"
    by (cases "fill_trajectory api (host s) tid m g (map_option (heap s) st)")
  define e where "e = FillTrajectory tid m g (map_option (heap s) st) r"
  define s1 where "s1 = record_call e (s\<lparr>host := h\<rparr>)"
  have run: "fill_gaps api tid m st gs (flag \<or> r \<noteq> None) s1 = (flag', s')"
    using Cons.prems fh by (cases r) (simp_all add: s1_def e_def)
  have s1: "trace s1 = trace s @ [e]" "host s1 = host_after api e (host s)"
    using fh by (simp_all add: s1_def record_call_def e_def)
  from Cons.IH [OF run] obtain evs where
    ih: "trace s' = trace s1 @ evs" "host s' = replay api evs (host s1)"
    by blast
  have "trace s' = trace s @ (e # evs) \<and> host s' = replay api (e # evs) (host s)"
    using ih s1 by simp
  then show ?case by blast
qed

lemma written_host:
  "trace (call_trm_write api msg s) = trace s @ [TrmWrite msg]"
  "host (call_trm_write api msg s) = trm_write api (host s) msg"
  by (simp_all add: call_trm_write_def record_call_def)

text \<open>
  The host is in the state that the calls of the trace, made in their order, leave it in.
\<close>

lemma gap_fill_def_host:
  assumes run: "gap_fill_def api def_id s = (r, s')"
  shows "host s' = replay api (new_events s s') (host s)"
  using run
proof (cases rule: gap_fill_def_cases)
  case index
  then show ?thesis by simp
next
  case (lookup gf e)
  then show ?thesis by (simp add: queried_state)
next
  case (ranges gf tid e)
  then show ?thesis by (simp add: queried_state)
next
  case (convert gf tid gs e)
  note c = convert_settings_frame [OF convert(4)]
  from c(5) obtain cevs where
    cevs: "trace s' = trace s @ ([FindTrajectory (PStr (target gf)), GetGapRanges tid] @ cevs)"
      "\<forall>e \<in> set cevs. is_find e"
    by (auto simp: queried_state)
  have "new_events s s' = [FindTrajectory (PStr (target gf)), GetGapRanges tid] @ cevs"
    using cevs(1) by (rule new_events_append)
  then show ?thesis
    using c(2) cevs(2) by (simp add: queried_state replay_finds)
next
  case (loop gf tid gs st s3 flag s4)
  note c = convert_settings_frame [OF loop(4)]
  from c(5) obtain cevs where
    cevs: "trace s3 = trace s @ ([FindTrajectory (PStr (target gf)), GetGapRanges tid] @ cevs)"
      "\<forall>e \<in> set cevs. is_find e"
    by (auto simp: queried_state)
  have h3: "host s3 = host s" using c(2) by (simp add: queried_state)
  from fill_gaps_host [OF loop(5)] obtain fevs where
    fevs: "trace s4 = trace (call_trm_write api (applying gf) s3) @ fevs"
      "host s4 = replay api fevs (host (call_trm_write api (applying gf) s3))"
    by blast
  define tl :: "'b event list" where
    "tl = (if flag then [TrmWrite ''- Not all gaps could be filled''] else [])"
  have t': "trace s' = trace s4 @ tl" "host s' = replay api tl (host s4)"
    using loop(7) by (simp_all add: tl_def written_host)
  have "trace s' = trace s @ ([FindTrajectory (PStr (target gf)), GetGapRanges tid] @ cevs @
      [TrmWrite (applying gf)] @ fevs @ tl)"
    using t'(1) fevs(1) cevs(1) by (simp add: written_host)
  then have "new_events s s' = [FindTrajectory (PStr (target gf)), GetGapRanges tid] @ cevs @
      [TrmWrite (applying gf)] @ fevs @ tl"
    by (rule new_events_append)
  then show ?thesis
    using t'(2) fevs(2) h3 cevs(2) by (simp add: written_host replay_finds)
qed

lemma register_all_host:
  "host (fold (\<lambda>(name, k). register_command api name k) tbl s) =
     fold (\<lambda>(name, k) h.
        set_command_execute_function api (add_command api h name) name (Lambda_gap_fill_def k))
       tbl (host s)"
proof (induction tbl arbitrary: s)
  case Nil
  then show ?case by simp
next
  case (Cons p tbl)
  obtain name k where p: "p = (name, k)" by (cases p)
  have "host (register_command api name k s) =
      set_command_execute_function api (add_command api (host s) name) name (Lambda_gap_fill_def k)"
    by (simp add: register_command_def call_add_command_def
        call_set_command_execute_function_def record_call_def)
  then show ?case
    using Cons.IH [of "register_command api name k s"] by (simp add: p)
qed

lemma add_my_commands_host:
  "host (add_my_commands api s) =
     fold (\<lambda>i h. set_command_execute_function api (add_command api h (command_for i))
                   (command_for i) (Lambda_gap_fill_def (int i)))
       [0..<10] (host s)"
  unfolding add_my_commands_def register_all_host
  by (simp only: command_table_upt fold_map comp_def split_conv)

lemma menu_buttons_host:
  "menu_buttons api sub ns s = (r, s') \<Longrightarrow>
     \<exists>evs. trace s' = trace s @ evs \<and> host s' = replay api evs (host s)"
proof (induction ns arbitrary: s)
  case Nil
  then show ?case by simp
next
  case (Cons i ns)
  show ?case
  proof (cases "list_getitem (list_of_definitions s) (int i)")
    case (Inl e)
    with Cons.prems show ?thesis by simp
  next
    case (Inr gf)
    define cmds where "cmds = get_commands api (host s) ''user''"
    define s1 where "s1 = record_call (GetCommands ''user'' cmds) s"
    show ?thesis
    proof (cases "list_ex (\<lambda>uc. uc = command_for i) cmds")
      case False
      have "s' = call_trm_write api (exceeds_maximum i) s1"
        using Cons.prems Inr False by (simp add: call_get_commands_def s1_def cmds_def)
      then have "trace s' = trace s @ [GetCommands ''user'' cmds, TrmWrite (exceeds_maximum i)] \<and>
          host s' = replay api [GetCommands ''user'' cmds, TrmWrite (exceeds_maximum i)] (host s)"
        by (simp add: written_host s1_def queried_state)
      then show ?thesis by blast
    next
      case True
      define b :: "'b event" where "b = InsertMenuButton sub (display_name gf) (command_for i)"
      define s2 where
        "s2 = call_insert_menu_button api sub (display_name gf) (command_for i) s1"
      have run: "menu_buttons api sub ns s2 = (r, s')"
        using Cons.prems Inr True by (simp add: call_get_commands_def s1_def s2_def cmds_def)
      have s2: "trace s2 = trace s @ [GetCommands ''user'' cmds, b]"
        "host s2 = replay api [GetCommands ''user'' cmds, b] (host s)"
        by (simp_all add: s2_def s1_def call_insert_menu_button_def record_call_def b_def)
      from Cons.IH [OF run] obtain evs where
        ih: "trace s' = trace s2 @ evs" "host s' = replay api evs (host s2)"
        by blast
      have "trace s' = trace s @ ([GetCommands ''user'' cmds, b] @ evs) \<and>
          host s' = replay api ([GetCommands ''user'' cmds, b] @ evs) (host s)"
        using ih s2 by simp
      then show ?thesis by blast
    qed
  qed
qed

lemma setup_my_menu_host:
  assumes run: "setup_my_menu api s = (r, s')"
  shows "host s' = replay api (new_events s s') (host s)"
proof -
  obtain my_menu_id h1 where m1:
    "insert_menu_submenu api (host s) PNone ''My menu'' = (my_menu_id, h1)"
    by (cases "insert_menu_submenu api (host s) PNone ''My menu''")
  obtain gf_sub_id h2 where m2:
    "insert_menu_submenu api h1 my_menu_id ''Gap fill...'' = (gf_sub_id, h2)"
    by (cases "insert_menu_submenu api h1 my_menu_id ''Gap fill...''")
  define s1 where "s1 = record_call (InsertMenuSubmenu PNone ''My menu'') (s\<lparr>host := h1\<rparr>)"
  define s2 where
    "s2 = record_call (InsertMenuSubmenu my_menu_id ''Gap fill...'') (s1\<lparr>host := h2\<rparr>)"
  define evs2 :: "'b event list" where
    "evs2 = [InsertMenuSubmenu PNone ''My menu'', InsertMenuSubmenu my_menu_id ''Gap fill...'']"
  have s2: "trace s2 = trace s @ evs2" "host s2 = replay api evs2 (host s)"
    using m1 m2 by (simp_all add: s2_def s1_def record_call_def evs2_def)
  have run2: "menu_buttons api gf_sub_id [0..<length (list_of_definitions s2)] s2 = (r, s')"
    using run m1 m2
    by (simp add: setup_my_menu_def call_insert_menu_submenu_def s1_def s2_def record_call_def)
  from menu_buttons_host [OF run2] obtain evs where
    e: "trace s' = trace s2 @ evs" "host s' = replay api evs (host s2)"
    by blast
  have "trace s' = trace s @ (evs2 @ evs)" using e(1) s2(1) by simp
  then have "new_events s s' = evs2 @ evs" by (rule new_events_append)
  then show ?thesis using e(2) s2(2) by simp
qed

text \<open>
  The lookups that converting the settings makes: those of the names in the settings, cut
  after the first that does not resolve.
\<close>

lemma convert_settings_exact:
  assumes run: "convert_settings api gf s = (r, s')"
  shows "trace s' = trace s @ until_unresolved (find_trajectory api (host s)) (settings_lookups s gf)"
proof -
  consider (other) "gf_method gf \<notin> set [''relational'', ''virtual'']"
    | (missing) "gf_method gf \<in> set [''relational'', ''virtual'']" "settings gf = None"
    | (copy) a0 where "gf_method gf \<in> set [''relational'', ''virtual'']" "settings gf = Some a0"
    by (cases "settings gf") auto
  then show ?thesis
  proof cases
    case other
    then show ?thesis using run by (simp add: convert_settings_other settings_lookups_def)
  next
    case missing
    then show ?thesis using run by (simp add: convert_settings_missing settings_lookups_def)
  next
    case copy
    define f where "f = find_trajectory api (host s)"
    define a where "a = next_addr s"
    define s1 where "s1 = s\<lparr>heap := (heap s)(a := heap s a0), next_addr := Suc a\<rparr>"
    define look :: "string \<Rightarrow> 'b event list" where
      "look = (\<lambda>k. case map_of (heap s a0) k of None \<Rightarrow> [] | Some v \<Rightarrow> [FindTrajectory v])"
    have dc: "deepcopy a0 s = (a, s1)"
      by (simp add: deepcopy_def a_def s1_def)
    obtain r1 s2 where k1: "convert_key api ''origin'' a s1 = (r1, s2)"
      by (cases "convert_key api ''origin'' a s1")
    obtain r2 s3 where k2: "convert_key api ''line'' a s2 = (r2, s3)"
      by (cases "convert_key api ''line'' a s2")
    obtain r3 s4 where k3: "convert_key api ''plane'' a s3 = (r3, s4)"
      by (cases "convert_key api ''plane'' a s3")
    note e1 = convert_key_effect [OF k1]
    note e2 = convert_key_effect [OF k2]
    note e3 = convert_key_effect [OF k3]
    have s1: "trace s1 = trace s" "heap s1 a = heap s a0" "host s1 = host s"
      by (simp_all add: s1_def)
    have h: "host s2 = host s" "host s3 = host s"
      using e1(2) e2(2) s1(3) by simp_all
    have d2: "map_of (heap s2 a) ''line'' = map_of (heap s a0) ''line''"
      "map_of (heap s2 a) ''plane'' = map_of (heap s a0) ''plane''"
      using e1(7) [of "''line''"] e1(7) [of "''plane''"] s1(2) by simp_all
    have d3: "map_of (heap s3 a) ''plane'' = map_of (heap s a0) ''plane''"
      using e2(7) [of "''plane''"] d2(2) by simp
    have t2: "trace s2 = trace s @ look ''origin''"
      using e1(5) s1 by (simp add: look_def)
    have t3: "trace s3 = trace s @ look ''origin'' @ look ''line''"
      using e2(5) t2 d2(1) by (simp add: look_def)
    have t4: "trace s4 = trace s @ look ''origin'' @ look ''line'' @ look ''plane''"
      using e3(5) t3 d3 by (simp add: look_def)
    have all: "settings_lookups s gf = look ''origin'' @ look ''line'' @ look ''plane''"
      using copy by (simp add: settings_lookups_def name_lookups_def look_def)
    have good: "until_unresolved f (look k @ es) = look k @ until_unresolved f es"
      if "map_option Inr x = map_option f (map_of (heap s a0) k)" for k x es
      using that by (cases "map_of (heap s a0) k"; cases x) (auto simp: look_def split: sum.splits)
    have bad: "until_unresolved f (look k @ es) = look k"
      if "map_of (heap s a0) k = Some v" "f v = Inl e" for k v e es
      using that by (simp add: look_def)
    have g1: "until_unresolved f (look ''origin'' @ es) = look ''origin'' @ until_unresolved f es"
      if "r1 = Inr ()" for es
      using e1(8) [OF that] s1 by (intro good) (simp add: f_def)
    have g2: "until_unresolved f (look ''line'' @ es) = look ''line'' @ until_unresolved f es"
      if "r2 = Inr ()" for es
      using e2(8) [OF that] d2(1) h by (intro good) (simp add: f_def)
    have g3: "until_unresolved f (look ''plane'' @ es) = look ''plane'' @ until_unresolved f es"
      if "r3 = Inr ()" for es
      using e3(8) [OF that] d3 h by (intro good) (simp add: f_def)
    have b1: "until_unresolved f (look ''origin'' @ es) = look ''origin''" if "r1 = Inl e" for e es
      using e1(9) [OF that] s1 bad [of "''origin''"] by (auto simp: f_def)
    have b2: "until_unresolved f (look ''line'' @ es) = look ''line''" if "r2 = Inl e" for e es
      using e2(9) [OF that] d2(1) h bad [of "''line''"] by (auto simp: f_def)
    have b3: "until_unresolved f (look ''plane'' @ es) = look ''plane''" if "r3 = Inl e" for e es
      using e3(9) [OF that] d3 h bad [of "''plane''"] by (auto simp: f_def)
    consider (f1) x where "r1 = Inl x"
      | (f2) x where "r1 = Inr ()" "r2 = Inl x"
      | (f3) x where "r1 = Inr ()" "r2 = Inr ()" "r3 = Inl x"
      | (ok) "r1 = Inr ()" "r2 = Inr ()" "r3 = Inr ()"
      by (cases r1; cases r2; cases r3) auto
    then have "trace s' = trace s @ until_unresolved f (look ''origin'' @ look ''line'' @ look ''plane'')"
    proof cases
      case f1
      have "s' = s2" using run copy dc k1 f1 by (simp add: convert_settings_def)
      then show ?thesis using t2 b1 [OF f1] by simp
    next
      case f2
      have "s' = s3" using run copy dc k1 k2 f2 by (simp add: convert_settings_def)
      then show ?thesis using t3 g1 [OF f2(1)] b2 [OF f2(2)] by simp
    next
      case f3
      have "s' = s4" using run copy dc k1 k2 k3 f3 by (simp add: convert_settings_def)
      then show ?thesis using t4 g1 [OF f3(1)] g2 [OF f3(2)] b3 [OF f3(3), of "[]"] by simp
    next
      case ok
      have "s' = s4" using run copy dc k1 k2 k3 ok by (simp add: convert_settings_def)
      then show ?thesis using t4 g1 [OF ok(1)] g2 [OF ok(2)] g3 [OF ok(3), of "[]"] by simp
    qed
    then show ?thesis by (simp add: all f_def)
  qed
qed

lemma until_unresolved_finds:
  "\<forall>e \<in> set es. is_find e \<Longrightarrow> \<forall>e \<in> set (until_unresolved f es). is_find e"
proof (induction es)
  case Nil
  then show ?case by simp
next
  case (Cons e es)
  then show ?case by (cases e) (auto split: sum.splits)
qed

lemma name_lookups_finds: "\<forall>e \<in> set (name_lookups d). is_find e"
  by (auto simp: name_lookups_def split: option.splits)

lemma settings_lookups_finds: "\<forall>e \<in> set (settings_lookups s gf). is_find e"
proof (cases "gf_method gf \<in> set [''relational'', ''virtual'']")
  case True
  then show ?thesis
    using name_lookups_finds by (cases "settings gf") (simp_all add: settings_lookups_def)
next
  case False
  then show ?thesis by (simp add: settings_lookups_def)
qed

lemma gap_fill_def_lookups_exact:
  assumes gf: "list_getitem (list_of_definitions s) def_id = Inr gf"
    and run: "gap_fill_def api def_id s = (r, s')"
  shows "filter is_find (new_events s s') = lookups_made api s gf"
  using run
proof (cases rule: gap_fill_def_cases)
  case index
  with gf show ?thesis by simp
next
  case (lookup gf' e)
  with gf show ?thesis by (simp add: queried_state lookups_made_def)
next
  case (ranges gf' tid e)
  with gf show ?thesis by (simp add: queried_state lookups_made_def)
next
  case (convert gf' tid gs e)
  have eq: "gf' = gf" using convert(1) gf by simp
  define evs :: "'b event list" where
    "evs = until_unresolved (find_trajectory api (host s)) (settings_lookups s gf)"
  have c: "trace s' = trace s @ ([FindTrajectory (PStr (target gf)), GetGapRanges tid] @ evs)"
    using convert_settings_exact [OF convert(4) [unfolded eq]]
    by (simp add: queried_state settings_lookups_queried evs_def)
  have finds: "\<forall>e \<in> set evs. is_find e"
    unfolding evs_def by (intro until_unresolved_finds settings_lookups_finds)
  have "new_events s s' = [FindTrajectory (PStr (target gf)), GetGapRanges tid] @ evs"
    using c by (rule new_events_append)
  then have "filter is_find (new_events s s') = FindTrajectory (PStr (target gf)) # evs"
    using finds_filter_find [OF finds] by simp
  then show ?thesis
    using convert(2,3) eq by (simp add: lookups_made_def evs_def)
next
  case (loop gf' tid gs st s3 flag s4)
  have eq: "gf' = gf" using loop(1) gf by simp
  define evs :: "'b event list" where
    "evs = until_unresolved (find_trajectory api (host s)) (settings_lookups s gf)"
  have finds: "\<forall>e \<in> set evs. is_find e"
    unfolding evs_def by (intro until_unresolved_finds settings_lookups_finds)
  have t3: "trace s3 = trace s @ [FindTrajectory (PStr (target gf)), GetGapRanges tid] @ evs"
    using convert_settings_exact [OF loop(4) [unfolded eq]]
    by (simp add: queried_state settings_lookups_queried evs_def)
  note l = loop_effect [OF loop(4,5,7)]
  from l(1) obtain cevs fevs where
    t: "trace s3 = trace s @ [FindTrajectory (PStr (target gf)), GetGapRanges tid] @ cevs"
      "trace s' = trace s3 @ [TrmWrite (applying gf)] @ fevs @
        (if \<exists>e \<in> set fevs. fill_raised e
         then [TrmWrite ''- Not all gaps could be filled''] else [])"
      "\<forall>e \<in> set fevs. is_fill e"
    unfolding eq by blast
  have "trace s' = trace s @ ([FindTrajectory (PStr (target gf)), GetGapRanges tid] @ evs @
      [TrmWrite (applying gf)] @ fevs @
      (if \<exists>e \<in> set fevs. fill_raised e
       then [TrmWrite ''- Not all gaps could be filled''] else []))"
    using t3 t(2) by simp
  then have n: "new_events s s' =
      [FindTrajectory (PStr (target gf)), GetGapRanges tid] @ evs @
      [TrmWrite (applying gf)] @ fevs @
      (if \<exists>e \<in> set fevs. fill_raised e
       then [TrmWrite ''- Not all gaps could be filled''] else [])"
    by (rule new_events_append)
  have "filter is_find (new_events s s') = FindTrajectory (PStr (target gf)) # evs"
    using n finds_filter_find [OF finds] fills_filter_find [OF t(3)] by simp
  then show ?thesis
    using loop(2,3) eq by (simp add: lookups_made_def evs_def)
qed


section \<open>The example runs\<close>

lemmas run_defs = gap_fill_def_def list_getitem_def call_find_trajectory_def
      call_get_gap_ranges_def call_trm_write_def record_call_def convert_settings_def
      convert_key_def deepcopy_def dict_contains_def dict_getitem_def dict_setitem_def

lemma demo_run_2: "gap_fill_def demo_api 2 demo_state = (Inr (), demo_after_2)"
  by (simp add: run_defs demo_api_def demo_state_def shipped_state_def
      shipped_definitions_def shipped_heap_def demo_after_2_def demo_trace_2_def)

lemma demo_new_2: "new_events demo_state demo_after_2 = demo_trace_2"
  by (simp add: new_events_def demo_state_def shipped_state_def demo_after_2_def)

lemma demo_run_0: "gap_fill_def demo_api 0 demo_state = (Inr (), demo_after_0)"
  by (simp add: run_defs demo_api_def demo_state_def shipped_state_def
      shipped_definitions_def shipped_heap_def demo_after_0_def)

lemma demo_definition:
  "list_getitem (list_of_definitions demo_state) 0 = Inr (shipped_definitions ! 0)"
  "list_getitem (list_of_definitions demo_state) 2 = Inr (shipped_definitions ! 2)"
  by (simp_all add: demo_state_def shipped_state_def shipped_definitions_def list_getitem_def)

lemma unchecked_definition:
  "list_getitem (list_of_definitions unchecked_state) 0 = Inr (unchecked_definitions ! 0)"
  "list_getitem (list_of_definitions unchecked_state) 1 = Inr (unchecked_definitions ! 1)"
  "list_getitem (list_of_definitions unchecked_state) 2 = Inr (unchecked_definitions ! 2)"
  "list_getitem (list_of_definitions unchecked_state) 3 = Inr (unchecked_definitions ! 3)"
  "list_getitem (list_of_definitions unchecked_state) 4 = Inr (unchecked_definitions ! 4)"
  "list_getitem (list_of_definitions unchecked_state) 5 = Inr (unchecked_definitions ! 5)"
  by (simp_all add: unchecked_state_def unchecked_definitions_def list_getitem_def)

lemma unchecked_targets:
  "find_trajectory demo_api (host unchecked_state) (PStr (target (unchecked_definitions ! 0)))
     = Inr (PInt 13)"
  "find_trajectory demo_api (host unchecked_state) (PStr (target (unchecked_definitions ! 1)))
     = Inr (PInt 11)"
  "find_trajectory demo_api (host unchecked_state) (PStr (target (unchecked_definitions ! 3)))
     = Inr (PInt 13)"
  "find_trajectory demo_api (host unchecked_state) (PStr (target (unchecked_definitions ! 4)))
     = Inr (PInt 11)"
  "find_trajectory demo_api (host unchecked_state) (PStr (target (unchecked_definitions ! 5)))
     = Inr (PInt 5)"
  by (simp_all add: unchecked_definitions_def demo_api_def)

lemma unchecked_gaps:
  "get_gap_ranges demo_api (host unchecked_state) (PInt 13) = Inr [(10, 19), (40, 42), (77, 80)]"
  "get_gap_ranges demo_api (host unchecked_state) (PInt 11) = Inr []"
  "get_gap_ranges demo_api (host unchecked_state) (PInt 5) = Inl (HostError ''no 3D data'')"
  by (simp_all add: demo_api_def)

lemma unchecked_result:
  "fst (gap_fill_def demo_api 0 unchecked_state) = Inl (KeyError ''settings'')"
  "fst (gap_fill_def demo_api 1 unchecked_state) = Inl (KeyError ''settings'')"
  "fst (gap_fill_def demo_api 3 unchecked_state) = Inl (HostError ''unknown trajectory'')"
  "fst (gap_fill_def demo_api 4 unchecked_state) = Inl (HostError ''unknown trajectory'')"
  "fst (gap_fill_def demo_api 5 unchecked_state) = Inl (HostError ''no 3D data'')"
  by (simp_all add: run_defs demo_api_def unchecked_state_def unchecked_definitions_def)

lemma unchecked_events:
  "new_events unchecked_state (snd (gap_fill_def demo_api 0 unchecked_state)) =
     [FindTrajectory (PStr ''Q_WaistLFront''), GetGapRanges (PInt 13)]"
  "new_events unchecked_state (snd (gap_fill_def demo_api 1 unchecked_state)) =
     [FindTrajectory (PStr ''Q_WaistBack''), GetGapRanges (PInt 11)]"
  "new_events unchecked_state (snd (gap_fill_def demo_api 3 unchecked_state)) =
     [FindTrajectory (PStr ''Q_WaistLFront''), GetGapRanges (PInt 13),
      FindTrajectory (PStr ''Ghost'')]"
  "new_events unchecked_state (snd (gap_fill_def demo_api 4 unchecked_state)) =
     [FindTrajectory (PStr ''Q_WaistBack''), GetGapRanges (PInt 11),
      FindTrajectory (PStr ''Ghost'')]"
  "new_events unchecked_state (snd (gap_fill_def demo_api 5 unchecked_state)) =
     [FindTrajectory (PStr ''Q_Toe''), GetGapRanges (PInt 5)]"
  by (simp_all add: run_defs new_events_def demo_api_def unchecked_state_def
      unchecked_definitions_def)

lemma custom_run_0:
  "gap_fill_def demo_api 0 custom_state =
     (Inr (), custom_state\<lparr>heap := (heap custom_state)(1 := custom_settings), next_addr := 2,
                host := 3, trace := custom_trace_0\<rparr>)"
  by (simp add: run_defs demo_api_def custom_state_def custom_definitions_def
      custom_settings_def custom_trace_0_def)

lemma custom_run_1:
  "gap_fill_def demo_api 1 custom_state =
     (Inr (), custom_state\<lparr>host := 3, trace := custom_trace_1\<rparr>)"
  by (simp add: run_defs demo_api_def custom_state_def custom_definitions_def
      custom_trace_1_def)

lemma custom_new:
  "new_events custom_state (custom_state\<lparr>heap := hp, next_addr := n, host := h, trace := es\<rparr>) = es"
  "new_events custom_state (custom_state\<lparr>host := h, trace := es\<rparr>) = es"
  by (simp_all add: new_events_def custom_state_def)

lemma counting_run_1: "gap_fill_def counting_api 0 demo_state = (Inr (), counting_after_1)"
  by (simp add: run_defs counting_api_def demo_api_def demo_state_def shipped_state_def
      shipped_definitions_def counting_after_1_def counting_trace_def)

lemma counting_run_2: "gap_fill_def counting_api 0 counting_after_1 = (Inr (), counting_after_2)"
  by (simp add: run_defs counting_api_def demo_api_def demo_state_def shipped_state_def
      shipped_definitions_def counting_after_1_def counting_after_2_def counting_trace_def)

lemma counting_new:
  "new_events demo_state counting_after_1 = counting_trace 0"
  "new_events counting_after_1 counting_after_2 = counting_trace 3"
  by (simp_all add: new_events_def demo_state_def shipped_state_def counting_after_1_def
      counting_after_2_def counting_trace_def)

lemma command_for_Suc:
  "command_for (Suc (Suc 0)) = ''gap_fill_def_2''"
  "command_for (Suc (Suc (Suc 0))) = ''gap_fill_def_3''"
  by (simp_all add: command_for_def str_nat_digit digit_char_def)

lemmas menu_defs = setup_my_menu_def call_insert_menu_submenu_def call_get_commands_def
  call_insert_menu_button_def call_trm_write_def record_call_def list_getitem_def
  command_for_small command_for_Suc

lemma demo_menu_run:
  "setup_my_menu demo_api demo_state = (Inr (), demo_state\<lparr>trace := demo_menu\<rparr>)"
  by (simp add: menu_defs demo_api_def demo_state_def shipped_state_def
      shipped_definitions_def demo_menu_def ten_names_def)

lemma short_menu_run:
  "setup_my_menu two_commands_api demo_state = (Inr (), demo_state\<lparr>trace := short_menu\<rparr>)"
  by (simp add: menu_defs two_commands_api_def demo_api_def demo_state_def shipped_state_def
      shipped_definitions_def short_menu_def exceeds_maximum_def str_nat_digit digit_char_def)

lemma demo_menu_new: "new_events demo_state (demo_state\<lparr>trace := es\<rparr>) = es"
  by (simp add: new_events_def demo_state_def shipped_state_def)

lemma demo_submenus:
  "insert_menu_submenu demo_api (host demo_state) PNone ''My menu'' = (PInt 7, 0)"
  "insert_menu_submenu demo_api 0 (PInt 7) ''Gap fill...'' = (PInt 11, 0)"
  "insert_menu_submenu two_commands_api (host demo_state) PNone ''My menu'' = (PInt 7, 0)"
  "insert_menu_submenu two_commands_api 0 (PInt 7) ''Gap fill...'' = (PInt 11, 0)"
  by (simp_all add: demo_api_def two_commands_api_def demo_state_def shipped_state_def)

lemma studio_run_2: "gap_fill_def studio_api 2 studio_state = (Inr (), studio_after_2)"
  by (simp add: run_defs studio_api_def demo_api_def studio_state_def shipped_state_def
      shipped_definitions_def shipped_heap_def studio_after_2_def demo_trace_2_def new_studio_def)

lemma studio_run_0: "gap_fill_def studio_api 0 studio_state = (Inr (), studio_after_0)"
  by (simp add: run_defs studio_api_def demo_api_def studio_state_def shipped_state_def
      shipped_definitions_def shipped_heap_def studio_after_0_def new_studio_def)

lemma studio_new:
  "new_events studio_state studio_after_2 = demo_trace_2"
  "new_events studio_state studio_after_0 =
     [FindTrajectory (PStr ''Q_WaistBack''), GetGapRanges (PInt 11),
      TrmWrite ''Applying gap filling action Q_WaistBack (polynomial)'']"
  "new_events (shipped_state h) ((shipped_state h')\<lparr>trace := es\<rparr>) = es"
  by (simp_all add: new_events_def studio_state_def shipped_state_def studio_after_2_def
      studio_after_0_def)

lemma studio_definition:
  "list_getitem (list_of_definitions studio_state) 0 = Inr (shipped_definitions ! 0)"
  "list_getitem (list_of_definitions studio_state) 2 = Inr (shipped_definitions ! 2)"
  by (simp_all add: studio_state_def shipped_state_def shipped_definitions_def list_getitem_def)

lemma studio_menu_run:
  "setup_my_menu studio_api (shipped_state studio_registered) =
     (Inr (), (shipped_state studio_menu)\<lparr>trace := demo_menu\<rparr>)"
  by (simp add: menu_defs studio_api_def shipped_state_def studio_registered_def
      studio_menu_def new_studio_def shipped_definitions_def demo_menu_def ten_names_def)

lemma studio_short_run:
  "setup_my_menu studio_api (shipped_state studio_two) =
     (Inr (), (shipped_state studio_short_menu)\<lparr>trace := short_menu\<rparr>)"
  by (simp add: menu_defs studio_api_def shipped_state_def studio_two_def
      studio_short_menu_def new_studio_def shipped_definitions_def short_menu_def
      exceeds_maximum_def str_nat_digit digit_char_def)

lemma studio_submenus:
  "insert_menu_submenu studio_api (host (shipped_state studio_registered)) PNone ''My menu'' =
     (PInt 7, studio_registered\<lparr>menus := [(PNone, ''My menu'')]\<rparr>)"
  "insert_menu_submenu studio_api (studio_registered\<lparr>menus := [(PNone, ''My menu'')]\<rparr>)
     (PInt 7) ''Gap fill...'' =
     (PInt 11, studio_registered\<lparr>menus := [(PNone, ''My menu''), (PInt 7, ''Gap fill...'')]\<rparr>)"
  "insert_menu_submenu studio_api (host (shipped_state studio_two)) PNone ''My menu'' =
     (PInt 7, studio_two\<lparr>menus := [(PNone, ''My menu'')]\<rparr>)"
  "insert_menu_submenu studio_api (studio_two\<lparr>menus := [(PNone, ''My menu'')]\<rparr>)
     (PInt 7) ''Gap fill...'' =
     (PInt 11, studio_two\<lparr>menus := [(PNone, ''My menu''), (PInt 7, ''Gap fill...'')]\<rparr>)"
  by (simp_all add: studio_api_def shipped_state_def studio_registered_def studio_two_def
      new_studio_def)

lemma halted_definition:
  "list_getitem (list_of_definitions halted_state) 0 = Inr (halted_definitions ! 0)"
  "list_getitem (list_of_definitions halted_state) 1 = Inr (halted_definitions ! 1)"
  "list_getitem (list_of_definitions halted_state) 2 = Inr (halted_definitions ! 2)"
  "list_getitem (list_of_definitions halted_state) 3 = Inr (halted_definitions ! 3)"
  by (simp_all add: halted_state_def halted_definitions_def list_getitem_def)

lemma halted_result:
  "fst (gap_fill_def demo_api 0 halted_state) = Inl (HostError ''no 3D data'')"
  "fst (gap_fill_def demo_api 1 halted_state) = Inl (HostError ''unknown trajectory'')"
  "fst (gap_fill_def demo_api 2 halted_state) = Inl (HostError ''unknown trajectory'')"
  "fst (gap_fill_def demo_api 3 halted_state) = Inr ()"
  "fst (gap_fill_def demo_api 4 demo_state) = Inl IndexError"
  by (simp_all add: run_defs demo_api_def halted_state_def halted_definitions_def
      demo_state_def shipped_state_def shipped_definitions_def)

lemma halted_events:
  "filter is_find (new_events halted_state (snd (gap_fill_def demo_api 0 halted_state))) =
     [FindTrajectory (PStr ''Q_Toe'')]"
  "filter is_find (new_events halted_state (snd (gap_fill_def demo_api 1 halted_state))) =
     [FindTrajectory (PStr ''Ghost'')]"
  "filter is_find (new_events halted_state (snd (gap_fill_def demo_api 2 halted_state))) =
     [FindTrajectory (PStr ''Q_WaistLFront''), FindTrajectory (PStr ''Q_WaistBack''),
      FindTrajectory (PStr ''Ghost'')]"
  "filter is_find (new_events halted_state (snd (gap_fill_def demo_api 3 halted_state))) =
     [FindTrajectory (PStr ''Q_WaistLFront'')]"
  "filter is_find (new_events demo_state (snd (gap_fill_def demo_api 4 demo_state))) = []"
  by (simp_all add: run_defs new_events_def demo_api_def halted_state_def halted_definitions_def
      demo_state_def shipped_state_def shipped_definitions_def)

lemma halted_settings:
  "heap halted_state 0 =
     [(''origin'', PStr ''Q_WaistBack''), (''line'', PStr ''Ghost''), (''plane'', PStr ''Q_WaistL'')]"
  "gf_method (halted_definitions ! 0) = ''relational''" "settings (halted_definitions ! 0) = Some 0"
  "gf_method (halted_definitions ! 1) = ''relational''" "settings (halted_definitions ! 1) = Some 0"
  "gf_method (halted_definitions ! 2) = ''relational''" "settings (halted_definitions ! 2) = Some 0"
  "gf_method (halted_definitions ! 3) = ''polynomial''" "settings (halted_definitions ! 3) = Some 0"
  by (simp_all add: halted_state_def halted_definitions_def)


section \<open>The claims\<close>

text \<open>
  C1, as amended. An invocation of \<^verbatim>\<open>_gap_fill_def\<close> whose index is in range, whose target
  name resolves, whose \<open>get_gap_ranges\<close> call returns, and whose definition either has a
  method other than \<open>relational\<close> and \<open>virtual\<close> or has settings in which the names under
  \<open>origin\<close>, \<open>line\<close> and \<open>plane\<close> (those present) resolve, returns normally. It first
  resolves the target name with \<open>find_trajectory\<close> and asks \<open>get_gap_ranges\<close> for the gaps
  of the ID it got; it calls \<open>fill_trajectory\<close> once per gap range, in the order the host
  returned them, each time with that ID, the definition's method, the gap range, and the
  settings: \<open>None\<close>, or the copy with its names resolved. The calls have reached the
  host: it ends in the state that the calls of the run, made in their order, lead to from
  the state it was in.
\<close>

theorem each_gap_filled:
  assumes gf: "list_getitem (list_of_definitions s) def_id = Inr gf"
    and tid: "find_trajectory api (host s) (PStr (target gf)) = Inr tid"
    and gs: "get_gap_ranges api (host s) tid = Inr gs"
    and ok: "settings_usable api s gf"
    and run: "gap_fill_def api def_id s = (r, s')"
  shows "r = Inr () \<and>
    take 2 (new_events s s') = [FindTrajectory (PStr (target gf)), GetGapRanges tid] \<and>
    fill_calls (new_events s s') =
      map (\<lambda>g. (tid, gf_method gf, g,
                 if gf_method gf \<in> set [''relational'', ''virtual'']
                 then Some (heap s' (next_addr s)) else None)) gs \<and>
    (\<forall>a0. gf_method gf \<in> set [''relational'', ''virtual''] \<and> settings gf = Some a0 \<longrightarrow>
       resolved_settings (find_trajectory api (host s)) (heap s a0) (heap s' (next_addr s))) \<and>
    host s' = replay api (new_events s s') (host s)"
proof -
  note h = gap_fill_def_host [OF run]
  have r: "r = Inr ()"
    using gf tid gs ok run by (rule gap_fill_def_usable)
  from run [unfolded r] show ?thesis
  proof (rule gap_fill_def_returns)
    fix gf' tid' gs' st s3 cevs fevs
    assume gf': "list_getitem (list_of_definitions s) def_id = Inr gf'"
      and tid': "find_trajectory api (host s) (PStr (target gf')) = Inr tid'"
      and gs': "get_gap_ranges api (host s) tid' = Inr gs'"
      and cv: "convert_settings api gf'
         (record_call (GetGapRanges tid') (record_call (FindTrajectory (PStr (target gf'))) s))
       = (Inr st, s3)"
      and n: "new_events s s' =
         [FindTrajectory (PStr (target gf')), GetGapRanges tid'] @ cevs @
         [TrmWrite (applying gf')] @ fevs @
         (if \<exists>e \<in> set fevs. fill_raised e
          then [TrmWrite ''- Not all gaps could be filled''] else [])"
      and cevs: "\<forall>e \<in> set cevs. is_find e"
      and calls: "fill_calls fevs = map (\<lambda>g. (tid', gf_method gf', g, map_option (heap s3) st)) gs'"
      and hp: "heap s' = heap s3"
    have eq: "gf' = gf" "tid' = tid" "gs' = gs"
      using gf gf' tid tid' gs gs' by simp_all
    note cr = convert_settings_returns [OF cv [unfolded eq]]
    have arg: "map_option (heap s3) st =
        (if gf_method gf \<in> set [''relational'', ''virtual'']
         then Some (heap s' (next_addr s)) else None)"
      using cr hp by (auto simp: queried_state)
    have res: "resolved_settings (find_trajectory api (host s)) (heap s a0) (heap s' (next_addr s))"
      if "gf_method gf \<in> set [''relational'', ''virtual'']" "settings gf = Some a0" for a0
      using cr(2) [OF that(1)] that(2) hp by (auto simp: queried_state)
    have fc: "fill_calls (new_events s s') = fill_calls fevs"
      using n finds_no_fill [OF cevs] by simp
    have "take 2 (new_events s s') = [FindTrajectory (PStr (target gf)), GetGapRanges tid]"
      using n eq by (simp add: take2)
    then show ?thesis
      using r fc calls arg res eq h by simp
  qed
qed

theorem each_gap_filled_witness:
  "list_getitem (list_of_definitions demo_state) 2 = Inr (shipped_definitions ! 2) \<and>
   find_trajectory demo_api (host demo_state) (PStr (target (shipped_definitions ! 2)))
     = Inr (PInt 13) \<and>
   get_gap_ranges demo_api (host demo_state) (PInt 13) = Inr [(10, 19), (40, 42), (77, 80)] \<and>
   settings_usable demo_api demo_state (shipped_definitions ! 2) \<and>
   gap_fill_def demo_api 2 demo_state = (Inr (), demo_after_2) \<and>
   take 2 (new_events demo_state demo_after_2) =
     [FindTrajectory (PStr ''Q_WaistLFront''), GetGapRanges (PInt 13)] \<and>
   fill_calls (new_events demo_state demo_after_2) =
     map (\<lambda>g. (PInt 13, ''relational'', g,
                Some [(''origin'', PInt 11), (''line'', PInt 13), (''plane'', PInt 8)]))
       [(10, 19), (40, 42), (77, 80)] \<and>
   resolved_settings (find_trajectory demo_api (host demo_state)) (heap demo_state 0)
     (heap demo_after_2 (next_addr demo_state)) \<and>
   gap_fill_def studio_api 2 studio_state = (Inr (), studio_after_2) \<and>
   host studio_after_2 =
     replay studio_api (new_events studio_state studio_after_2) (host studio_state) \<and>
   fills (host studio_after_2) =
     map (\<lambda>g. (PInt 13, ''relational'', g,
                Some [(''origin'', PInt 11), (''line'', PInt 13), (''plane'', PInt 8)]))
       [(10, 19), (40, 42), (77, 80)]"
proof -
  have tid: "find_trajectory demo_api (host demo_state) (PStr (target (shipped_definitions ! 2)))
      = Inr (PInt 13)"
    by (simp add: demo_api_def shipped_definitions_def)
  have gs: "get_gap_ranges demo_api (host demo_state) (PInt 13) = Inr [(10, 19), (40, 42), (77, 80)]"
    by (simp add: demo_api_def)
  have ok: "settings_usable demo_api demo_state (shipped_definitions ! 2)"
    by (simp add: settings_usable_def names_resolve_def demo_api_def demo_state_def
        shipped_state_def shipped_definitions_def shipped_heap_def)
  have m: "gf_method (shipped_definitions ! 2) = ''relational''"
    "settings (shipped_definitions ! 2) = Some 0" "target (shipped_definitions ! 2) = ''Q_WaistLFront''"
    by (simp_all add: shipped_definitions_def)
  have hp: "heap demo_after_2 (next_addr demo_state) =
      [(''origin'', PInt 11), (''line'', PInt 13), (''plane'', PInt 8)]"
    by (simp add: demo_after_2_def demo_state_def shipped_state_def)
  have tid': "find_trajectory studio_api (host studio_state)
      (PStr (target (shipped_definitions ! 2))) = Inr (PInt 13)"
    by (simp add: studio_api_def demo_api_def shipped_definitions_def)
  have gs': "get_gap_ranges studio_api (host studio_state) (PInt 13) =
      Inr [(10, 19), (40, 42), (77, 80)]"
    by (simp add: studio_api_def demo_api_def)
  have ok': "settings_usable studio_api studio_state (shipped_definitions ! 2)"
    by (simp add: settings_usable_def names_resolve_def studio_api_def demo_api_def
        studio_state_def shipped_state_def shipped_definitions_def shipped_heap_def)
  have studio: "host studio_after_2 =
      replay studio_api (new_events studio_state studio_after_2) (host studio_state)"
    using each_gap_filled [OF studio_definition(2) tid' gs' ok' studio_run_2] by blast
  have shown: "fills (host studio_after_2) =
     map (\<lambda>g. (PInt 13, ''relational'', g,
                Some [(''origin'', PInt 11), (''line'', PInt 13), (''plane'', PInt 8)]))
       [(10, 19), (40, 42), (77, 80)]"
    by (simp add: studio_after_2_def new_studio_def)
  have first: "list_getitem (list_of_definitions demo_state) 2 = Inr (shipped_definitions ! 2) \<and>
   find_trajectory demo_api (host demo_state) (PStr (target (shipped_definitions ! 2)))
     = Inr (PInt 13) \<and>
   get_gap_ranges demo_api (host demo_state) (PInt 13) = Inr [(10, 19), (40, 42), (77, 80)] \<and>
   settings_usable demo_api demo_state (shipped_definitions ! 2) \<and>
   gap_fill_def demo_api 2 demo_state = (Inr (), demo_after_2) \<and>
   take 2 (new_events demo_state demo_after_2) =
     [FindTrajectory (PStr ''Q_WaistLFront''), GetGapRanges (PInt 13)] \<and>
   fill_calls (new_events demo_state demo_after_2) =
     map (\<lambda>g. (PInt 13, ''relational'', g,
                Some [(''origin'', PInt 11), (''line'', PInt 13), (''plane'', PInt 8)]))
       [(10, 19), (40, 42), (77, 80)] \<and>
   resolved_settings (find_trajectory demo_api (host demo_state)) (heap demo_state 0)
     (heap demo_after_2 (next_addr demo_state))"
    using each_gap_filled [OF demo_definition(2) tid gs ok demo_run_2]
      demo_definition(2) tid gs ok demo_run_2 m hp
    by simp
  show ?thesis
    using first studio shown studio_run_2 by simp
qed

text \<open>
  C1 as first stated asks only for an index in range and a target that resolves. Three
  definitions on the demo host meet both and get no \<open>fill_trajectory\<close> call: a
  \<open>relational\<close> one without settings, whose target has three gaps (line 82 raises
  KeyError); a \<open>relational\<close> one whose origin is unknown to the host, with the same
  target (line 85 raises); and one whose target has no 3D data (line 75 raises).
\<close>

theorem each_gap_filled_counterexample:
  "list_getitem (list_of_definitions unchecked_state) 0 = Inr (unchecked_definitions ! 0) \<and>
   find_trajectory demo_api (host unchecked_state) (PStr (target (unchecked_definitions ! 0)))
     = Inr (PInt 13) \<and>
   get_gap_ranges demo_api (host unchecked_state) (PInt 13) = Inr [(10, 19), (40, 42), (77, 80)] \<and>
   fst (gap_fill_def demo_api 0 unchecked_state) = Inl (KeyError ''settings'') \<and>
   fill_calls (new_events unchecked_state (snd (gap_fill_def demo_api 0 unchecked_state))) = [] \<and>
   list_getitem (list_of_definitions unchecked_state) 3 = Inr (unchecked_definitions ! 3) \<and>
   find_trajectory demo_api (host unchecked_state) (PStr (target (unchecked_definitions ! 3)))
     = Inr (PInt 13) \<and>
   fst (gap_fill_def demo_api 3 unchecked_state) = Inl (HostError ''unknown trajectory'') \<and>
   fill_calls (new_events unchecked_state (snd (gap_fill_def demo_api 3 unchecked_state))) = [] \<and>
   list_getitem (list_of_definitions unchecked_state) 5 = Inr (unchecked_definitions ! 5) \<and>
   find_trajectory demo_api (host unchecked_state) (PStr (target (unchecked_definitions ! 5)))
     = Inr (PInt 5) \<and>
   get_gap_ranges demo_api (host unchecked_state) (PInt 5) = Inl (HostError ''no 3D data'') \<and>
   fst (gap_fill_def demo_api 5 unchecked_state) = Inl (HostError ''no 3D data'') \<and>
   fill_calls (new_events unchecked_state (snd (gap_fill_def demo_api 5 unchecked_state))) = []"
  using unchecked_definition unchecked_targets
  by (simp add: unchecked_gaps unchecked_result unchecked_events)

text \<open>
  C2. Whatever a \<open>fill_trajectory\<close> call raises stays inside \<^verbatim>\<open>_gap_fill_def\<close>: a run that
  has made a \<open>fill_trajectory\<close> call returns normally. The loop goes on after a call that
  raised: a run that returns has made one call for every gap range the host returned, in
  order. The line \<open>- Not all gaps could be filled\<close> is written once, as the last event,
  if a call raised, and not at all otherwise. Each call of the run, this write included,
  has reached the host: the host ends in the state that these calls, made in this order,
  lead to from the state it was in.
\<close>

theorem fill_errors_suppressed:
  assumes run: "gap_fill_def api def_id s = (r, s')"
  shows "((\<exists>e \<in> set (new_events s s'). is_fill e) \<longrightarrow> r = Inr ()) \<and>
    (\<forall>gf tid. list_getitem (list_of_definitions s) def_id = Inr gf \<and>
       find_trajectory api (host s) (PStr (target gf)) = Inr tid \<and> r = Inr () \<longrightarrow>
       get_gap_ranges api (host s) tid =
         Inr (map (\<lambda>(t, m, g, st). g) (fill_calls (new_events s s')))) \<and>
    filter (\<lambda>e. e = TrmWrite ''- Not all gaps could be filled'') (new_events s s') =
      (if \<exists>e \<in> set (new_events s s'). fill_raised e
       then [TrmWrite ''- Not all gaps could be filled''] else []) \<and>
    ((\<exists>e \<in> set (new_events s s'). fill_raised e) \<longrightarrow>
       last (new_events s s') = TrmWrite ''- Not all gaps could be filled'') \<and>
    host s' = replay api (new_events s s') (host s)"
proof (cases r)
  case (Inl e)
  note h = gap_fill_def_host [OF run]
  from gap_fill_def_raises [OF run [unfolded Inl]] obtain evs where
    evs: "trace s' = trace s @ evs" "\<forall>ev \<in> set evs. is_query ev"
    by blast
  have n: "new_events s s' = evs" using evs(1) by simp
  have q: "\<not> is_fill ev \<and> \<not> fill_raised ev \<and> ev \<noteq> TrmWrite m" if "ev \<in> set evs" for ev m
    using evs(2) that is_query_only [of ev] by auto
  have "filter (\<lambda>e. e = TrmWrite ''- Not all gaps could be filled'') evs = []"
    using q by (intro filter_none) blast
  then show ?thesis using Inl n q h by auto
next
  case (Inr u)
  note h = gap_fill_def_host [OF run]
  from run [unfolded Inr] show ?thesis
  proof (rule gap_fill_def_returns)
    fix gf tid gs st s3 cevs fevs
    assume gf: "list_getitem (list_of_definitions s) def_id = Inr gf"
      and tid: "find_trajectory api (host s) (PStr (target gf)) = Inr tid"
      and gs: "get_gap_ranges api (host s) tid = Inr gs"
      and n: "new_events s s' =
         [FindTrajectory (PStr (target gf)), GetGapRanges tid] @ cevs @ [TrmWrite (applying gf)] @
         fevs @ (if \<exists>e \<in> set fevs. fill_raised e
                 then [TrmWrite ''- Not all gaps could be filled''] else [])"
      and cevs: "\<forall>e \<in> set cevs. is_find e"
      and fevs: "\<forall>e \<in> set fevs. is_fill e"
      and "convert_settings api gf
         (record_call (GetGapRanges tid) (record_call (FindTrajectory (PStr (target gf))) s))
       = (Inr st, s3)"
      and calls: "fill_calls fevs = map (\<lambda>g. (tid, gf_method gf, g, map_option (heap s3) st)) gs"
    have c: "\<not> fill_raised e \<and> e \<noteq> TrmWrite m" if "e \<in> set cevs" for e m
      using cevs that is_find_only [of e] by auto
    have f: "e \<noteq> TrmWrite m" if "e \<in> set fevs" for e m
      using fevs that is_fill_only [of e] by auto
    have fc: "filter (\<lambda>e. e = TrmWrite ''- Not all gaps could be filled'') cevs = []"
      using c by (intro filter_none) blast
    have ff: "filter (\<lambda>e. e = TrmWrite ''- Not all gaps could be filled'') fevs = []"
      using f by (intro filter_none) blast
    have raised: "(\<exists>e \<in> set (new_events s s'). fill_raised e) = (\<exists>e \<in> set fevs. fill_raised e)"
      using n c by auto
    have gaps: "map (\<lambda>(t, m, g, st). g) (fill_calls (new_events s s')) = gs"
      using n calls finds_no_fill [OF cevs] by (simp add: comp_def)
    have filt: "filter (\<lambda>e. e = TrmWrite ''- Not all gaps could be filled'') (new_events s s') =
        (if \<exists>e \<in> set fevs. fill_raised e
         then [TrmWrite ''- Not all gaps could be filled''] else [])"
      using n fc ff by (simp add: applying_def)
    have lst: "(\<exists>e \<in> set fevs. fill_raised e) \<longrightarrow>
        last (new_events s s') = TrmWrite ''- Not all gaps could be filled''"
      using n by simp
    show ?thesis
      using Inr gf tid gs gaps filt lst raised h by simp
  qed
qed

theorem fill_errors_suppressed_witness:
  "gap_fill_def demo_api 2 demo_state = (Inr (), demo_after_2) \<and>
   (\<exists>e \<in> set (new_events demo_state demo_after_2). fill_raised e) \<and>
   list_getitem (list_of_definitions demo_state) 2 = Inr (shipped_definitions ! 2) \<and>
   find_trajectory demo_api (host demo_state) (PStr (target (shipped_definitions ! 2))) = Inr (PInt 13) \<and>
   get_gap_ranges demo_api (host demo_state) (PInt 13) =
     Inr (map (\<lambda>(t, m, g, st). g) (fill_calls (new_events demo_state demo_after_2))) \<and>
   map (\<lambda>(t, m, g, st). g) (fill_calls (new_events demo_state demo_after_2)) =
     [(10, 19), (40, 42), (77, 80)] \<and>
   filter (\<lambda>e. e = TrmWrite ''- Not all gaps could be filled'')
     (new_events demo_state demo_after_2) = [TrmWrite ''- Not all gaps could be filled''] \<and>
   last (new_events demo_state demo_after_2) = TrmWrite ''- Not all gaps could be filled'' \<and>
   gap_fill_def studio_api 2 studio_state = (Inr (), studio_after_2) \<and>
   host studio_after_2 =
     replay studio_api (new_events studio_state studio_after_2) (host studio_state) \<and>
   terminal (host studio_after_2) =
     [''Applying gap filling action Q_WaistLFront (rel): WaistBack-WaistRFront-WaistL'',
      ''- Not all gaps could be filled''] \<and>
   map (\<lambda>(t, m, g, st). g) (fills (host studio_after_2)) = [(10, 19), (40, 42), (77, 80)]"
proof -
  have raised: "\<exists>e \<in> set (new_events demo_state demo_after_2). fill_raised e"
    by (simp add: demo_new_2 demo_trace_2_def)
  have gf: "list_getitem (list_of_definitions demo_state) 2 = Inr (shipped_definitions ! 2)"
    by (simp add: demo_state_def shipped_state_def shipped_definitions_def list_getitem_def)
  have tid: "find_trajectory demo_api (host demo_state) (PStr (target (shipped_definitions ! 2)))
      = Inr (PInt 13)"
    by (simp add: demo_api_def shipped_definitions_def)
  have gaps: "map (\<lambda>(t, m, g, st). g) (fill_calls (new_events demo_state demo_after_2)) =
     [(10, 19), (40, 42), (77, 80)]"
    by (simp add: demo_new_2 demo_trace_2_def)
  have shown: "terminal (host studio_after_2) =
      [''Applying gap filling action Q_WaistLFront (rel): WaistBack-WaistRFront-WaistL'',
       ''- Not all gaps could be filled'']"
    "map (\<lambda>(t, m, g, st). g) (fills (host studio_after_2)) = [(10, 19), (40, 42), (77, 80)]"
    by (simp_all add: studio_after_2_def new_studio_def)
  have studio: "host studio_after_2 =
      replay studio_api (new_events studio_state studio_after_2) (host studio_state)"
    using fill_errors_suppressed [OF studio_run_2] by blast
  show ?thesis
    using fill_errors_suppressed [OF demo_run_2] raised gf tid gaps demo_run_2 studio_run_2
      studio shown
    by simp
qed

text \<open>
  C3. No invocation of \<^verbatim>\<open>_gap_fill_def\<close>, \<^verbatim>\<open>add_my_commands\<close> or \<^verbatim>\<open>setup_my_menu\<close> changes
  what \<open>list_of_definitions\<close> holds, the definitions and their settings dictionaries
  included, and the state after it is again one in which every settings dictionary is
  allocated. The two setup functions write to no dictionary at all, and \<^verbatim>\<open>_gap_fill_def\<close>
  writes only to the address that was free when it started: the deep copy.
\<close>

theorem definitions_unchanged:
  assumes wf: "settings_allocated s"
  shows "definitions_value (snd (gap_fill_def api def_id s)) = definitions_value s \<and>
    settings_allocated (snd (gap_fill_def api def_id s)) \<and>
    (\<forall>b. b \<noteq> next_addr s \<longrightarrow> heap (snd (gap_fill_def api def_id s)) b = heap s b) \<and>
    definitions_value (add_my_commands api s) = definitions_value s \<and>
    settings_allocated (add_my_commands api s) \<and>
    heap (add_my_commands api s) = heap s \<and>
    definitions_value (snd (setup_my_menu api s)) = definitions_value s \<and>
    settings_allocated (snd (setup_my_menu api s)) \<and>
    heap (snd (setup_my_menu api s)) = heap s"
proof -
  have keep: "definitions_value s1 = definitions_value s \<and> settings_allocated s1"
    if "list_of_definitions s1 = list_of_definitions s" "next_addr s \<le> next_addr s1"
      "\<And>b. b \<noteq> next_addr s \<Longrightarrow> heap s1 b = heap s b"
    for s1 :: "('a, 'b) state"
  proof -
    have "heap s1 b = heap s b" if "b < next_addr s" for b
      using that \<open>\<And>b. b \<noteq> next_addr s \<Longrightarrow> heap s1 b = heap s b\<close> by simp
    then show ?thesis
      using definitions_value_frame [OF wf that(1,2)] by blast
  qed
  have g: "gap_fill_def api def_id s =
      (fst (gap_fill_def api def_id s), snd (gap_fill_def api def_id s))"
    by simp
  note gf = gap_fill_def_frame [OF g]
  have m: "setup_my_menu api s = (fst (setup_my_menu api s), snd (setup_my_menu api s))"
    by simp
  note mf = setup_my_menu_frame [OF m]
  note af = add_my_commands_effect [where api = api and s = s]
  have "definitions_value (snd (gap_fill_def api def_id s)) = definitions_value s \<and>
      settings_allocated (snd (gap_fill_def api def_id s))"
    by (rule keep) (rule gf)+
  moreover have "definitions_value (add_my_commands api s) = definitions_value s \<and>
      settings_allocated (add_my_commands api s)"
    by (rule keep) (simp_all add: af(1-3))
  moreover have "definitions_value (snd (setup_my_menu api s)) = definitions_value s \<and>
      settings_allocated (snd (setup_my_menu api s))"
    by (rule keep) (simp_all add: mf(1-3))
  ultimately show ?thesis
    using gf(3) af(2) mf(2) by simp
qed

theorem definitions_unchanged_witness:
  "settings_allocated demo_state \<and>
   definitions_value demo_after_2 = definitions_value demo_state \<and>
   settings_allocated demo_after_2 \<and>
   heap demo_after_2 0 =
     [(''origin'', PStr ''Q_WaistBack''), (''line'', PStr ''Q_WaistRFront''),
      (''plane'', PStr ''Q_WaistL'')] \<and>
   heap demo_after_2 (next_addr demo_state) =
     [(''origin'', PInt 11), (''line'', PInt 13), (''plane'', PInt 8)] \<and>
   definitions_value (add_my_commands demo_api demo_state) = definitions_value demo_state \<and>
   definitions_value (snd (setup_my_menu demo_api demo_state)) = definitions_value demo_state"
proof -
  have wf: "settings_allocated demo_state"
    by (simp add: settings_allocated_def demo_state_def shipped_state_def shipped_definitions_def)
  have run: "snd (gap_fill_def demo_api 2 demo_state) = demo_after_2"
    by (simp add: demo_run_2)
  have hp: "heap demo_after_2 0 =
     [(''origin'', PStr ''Q_WaistBack''), (''line'', PStr ''Q_WaistRFront''),
      (''plane'', PStr ''Q_WaistL'')]"
    "heap demo_after_2 (next_addr demo_state) =
     [(''origin'', PInt 11), (''line'', PInt 13), (''plane'', PInt 8)]"
    by (simp_all add: demo_after_2_def demo_state_def shipped_state_def shipped_heap_def)
  show ?thesis
    using definitions_unchanged [OF wf, of demo_api 2] run hp wf by simp
qed

text \<open>
  C4. Every \<open>fill_trajectory\<close> call of an invocation gets, for a definition whose method
  is \<open>relational\<close> or \<open>virtual\<close>, a settings dictionary with the keys of the definition's
  settings in their order, in which each of \<open>origin\<close>, \<open>line\<close> and \<open>plane\<close> that is
  present holds the ID that \<open>find_trajectory\<close> returned for the name, and every other
  key holds the value it had; for a definition with any other method it gets \<open>None\<close>.
  The calls have reached the host with these arguments: it ends in the state that the calls
  of the run, made in their order, lead to from the state it was in.
\<close>

theorem settings_passed:
  assumes gf: "list_getitem (list_of_definitions s) def_id = Inr gf"
    and run: "gap_fill_def api def_id s = (r, s')"
    and call: "(t, m, g, stv) \<in> set (fill_calls (new_events s s'))"
  shows "(if gf_method gf \<in> set [''relational'', ''virtual'']
          then \<exists>a0 d'. settings gf = Some a0 \<and> stv = Some d' \<and>
                 resolved_settings (find_trajectory api (host s)) (heap s a0) d'
          else stv = None) \<and>
    host s' = replay api (new_events s s') (host s)"
proof -
  have passed: "if gf_method gf \<in> set [''relational'', ''virtual'']
      then \<exists>a0 d'. settings gf = Some a0 \<and> stv = Some d' \<and>
             resolved_settings (find_trajectory api (host s)) (heap s a0) d'
      else stv = None"
  proof (cases r)
    case (Inl e)
    from gap_fill_def_raises [OF run [unfolded Inl]] obtain evs where
      "trace s' = trace s @ evs" "\<forall>ev \<in> set evs. is_query ev"
      by blast
    then have "fill_calls (new_events s s') = []"
      by (simp add: queries_no_fill)
    with call show ?thesis by simp
  next
    case (Inr u)
    from run [unfolded Inr] show ?thesis
    proof (rule gap_fill_def_returns)
      fix gf' tid gs st s3 cevs fevs
      assume gf': "list_getitem (list_of_definitions s) def_id = Inr gf'"
        and cv: "convert_settings api gf'
           (record_call (GetGapRanges tid) (record_call (FindTrajectory (PStr (target gf'))) s))
         = (Inr st, s3)"
        and n: "new_events s s' =
           [FindTrajectory (PStr (target gf')), GetGapRanges tid] @ cevs @
           [TrmWrite (applying gf')] @ fevs @
           (if \<exists>e \<in> set fevs. fill_raised e
            then [TrmWrite ''- Not all gaps could be filled''] else [])"
        and cevs: "\<forall>e \<in> set cevs. is_find e"
        and calls: "fill_calls fevs = map (\<lambda>g. (tid, gf_method gf', g, map_option (heap s3) st)) gs"
      have eq: "gf' = gf" using gf gf' by simp
      have "fill_calls (new_events s s') = fill_calls fevs"
        using n finds_no_fill [OF cevs] by simp
      with call calls have stv: "stv = map_option (heap s3) st"
        by auto
      note cr = convert_settings_returns [OF cv [unfolded eq]]
      show ?thesis
      proof (cases "gf_method gf \<in> set [''relational'', ''virtual'']")
        case True
        from cr(2) [OF True] stv True show ?thesis
          by (auto simp: queried_state)
      next
        case False
        from cr(1) [OF False] stv False show ?thesis
          by simp
      qed
    qed
  qed
  show ?thesis
    using passed gap_fill_def_host [OF run] by (rule conjI)
qed

theorem settings_passed_witness:
  "list_getitem (list_of_definitions custom_state) 0 = Inr (custom_definitions ! 0) \<and>
   (PInt 9, ''virtual'', (10, 19), Some custom_settings)
     \<in> set (fill_calls (new_events custom_state (snd (gap_fill_def demo_api 0 custom_state)))) \<and>
   gf_method (custom_definitions ! 0) \<in> set [''relational'', ''virtual''] \<and>
   (\<exists>a0 d'. settings (custom_definitions ! 0) = Some a0 \<and> Some custom_settings = Some d' \<and>
      resolved_settings (find_trajectory demo_api (host custom_state)) (heap custom_state a0) d') \<and>
   resolved_settings (find_trajectory demo_api 0)
     [(''origin'', PStr ''Q_HeadFront''), (''offset'', PVec3f 0 0 50),
      (''is_rigid_body'', PBool True), (''is_relative_offset'', PBool False)]
     custom_settings \<and>
   list_getitem (list_of_definitions custom_state) 1 = Inr (custom_definitions ! 1) \<and>
   (PInt 9, ''polynomial'', (40, 42), None)
     \<in> set (fill_calls (new_events custom_state (snd (gap_fill_def demo_api 1 custom_state)))) \<and>
   gf_method (custom_definitions ! 1) \<notin> set [''relational'', ''virtual''] \<and>
   gap_fill_def studio_api 2 studio_state = (Inr (), studio_after_2) \<and>
   (PInt 13, ''relational'', (10, 19),
    Some [(''origin'', PInt 11), (''line'', PInt 13), (''plane'', PInt 8)])
     \<in> set (fill_calls (new_events studio_state studio_after_2)) \<and>
   host studio_after_2 =
     replay studio_api (new_events studio_state studio_after_2) (host studio_state) \<and>
   map (\<lambda>(t, m, g, st). st) (fills (host studio_after_2)) =
     [Some [(''origin'', PInt 11), (''line'', PInt 13), (''plane'', PInt 8)],
      Some [(''origin'', PInt 11), (''line'', PInt 13), (''plane'', PInt 8)],
      Some [(''origin'', PInt 11), (''line'', PInt 13), (''plane'', PInt 8)]]"
proof -
  have gf: "list_getitem (list_of_definitions custom_state) 0 = Inr (custom_definitions ! 0)"
    by (simp add: custom_state_def custom_definitions_def list_getitem_def)
  have run: "gap_fill_def demo_api 0 custom_state =
      (fst (gap_fill_def demo_api 0 custom_state), snd (gap_fill_def demo_api 0 custom_state))"
    by simp
  have call: "(PInt 9, ''virtual'', (10, 19), Some custom_settings)
     \<in> set (fill_calls (new_events custom_state (snd (gap_fill_def demo_api 0 custom_state))))"
    by (simp add: custom_run_0 custom_new custom_trace_0_def)
  have m: "gf_method (custom_definitions ! 0) \<in> set [''relational'', ''virtual'']"
    by (simp add: custom_definitions_def)
  have res: "resolved_settings (find_trajectory demo_api 0)
     [(''origin'', PStr ''Q_HeadFront''), (''offset'', PVec3f 0 0 50),
      (''is_rigid_body'', PBool True), (''is_relative_offset'', PBool False)]
     custom_settings"
    by (simp add: resolved_settings_def demo_api_def custom_settings_def)
  have gf1: "list_getitem (list_of_definitions custom_state) 1 = Inr (custom_definitions ! 1)"
    by (simp add: custom_state_def custom_definitions_def list_getitem_def)
  have run1: "gap_fill_def demo_api 1 custom_state =
      (fst (gap_fill_def demo_api 1 custom_state), snd (gap_fill_def demo_api 1 custom_state))"
    by simp
  have call1: "(PInt 9, ''polynomial'', (40, 42), None)
     \<in> set (fill_calls (new_events custom_state (snd (gap_fill_def demo_api 1 custom_state))))"
    by (simp add: custom_run_1 custom_new custom_trace_1_def)
  have m1: "gf_method (custom_definitions ! 1) \<notin> set [''relational'', ''virtual'']"
    by (simp add: custom_definitions_def)
  have call2: "(PInt 13, ''relational'', (10, 19),
      Some [(''origin'', PInt 11), (''line'', PInt 13), (''plane'', PInt 8)])
     \<in> set (fill_calls (new_events studio_state studio_after_2))"
    by (simp add: studio_new demo_trace_2_def)
  have studio: "host studio_after_2 =
      replay studio_api (new_events studio_state studio_after_2) (host studio_state)"
    using settings_passed [OF studio_definition(2) studio_run_2 call2] by blast
  have shown: "map (\<lambda>(t, m, g, st). st) (fills (host studio_after_2)) =
     [Some [(''origin'', PInt 11), (''line'', PInt 13), (''plane'', PInt 8)],
      Some [(''origin'', PInt 11), (''line'', PInt 13), (''plane'', PInt 8)],
      Some [(''origin'', PInt 11), (''line'', PInt 13), (''plane'', PInt 8)]]"
    by (simp add: studio_after_2_def new_studio_def)
  have first: "list_getitem (list_of_definitions custom_state) 0 = Inr (custom_definitions ! 0) \<and>
   (PInt 9, ''virtual'', (10, 19), Some custom_settings)
     \<in> set (fill_calls (new_events custom_state (snd (gap_fill_def demo_api 0 custom_state)))) \<and>
   gf_method (custom_definitions ! 0) \<in> set [''relational'', ''virtual''] \<and>
   (\<exists>a0 d'. settings (custom_definitions ! 0) = Some a0 \<and> Some custom_settings = Some d' \<and>
      resolved_settings (find_trajectory demo_api (host custom_state)) (heap custom_state a0) d') \<and>
   resolved_settings (find_trajectory demo_api 0)
     [(''origin'', PStr ''Q_HeadFront''), (''offset'', PVec3f 0 0 50),
      (''is_rigid_body'', PBool True), (''is_relative_offset'', PBool False)]
     custom_settings \<and>
   list_getitem (list_of_definitions custom_state) 1 = Inr (custom_definitions ! 1) \<and>
   (PInt 9, ''polynomial'', (40, 42), None)
     \<in> set (fill_calls (new_events custom_state (snd (gap_fill_def demo_api 1 custom_state)))) \<and>
   gf_method (custom_definitions ! 1) \<notin> set [''relational'', ''virtual'']"
    using settings_passed [OF gf run call] settings_passed [OF gf1 run1 call1]
      gf call m res gf1 call1 m1
    by simp
  show ?thesis
    using first studio shown studio_run_2 call2 by simp
qed

text \<open>
  C5. \<^verbatim>\<open>setup_my_menu\<close> returns normally. Its first two calls insert the menu \<open>My menu\<close> at
  the top level and the submenu \<open>Gap fill...\<close> in it, and it inserts no other menu. It
  then inserts \<open>k\<close> buttons in the submenu: one for each of the first \<open>k\<close> definitions,
  in list order, labelled with the display name and bound to \<open>gap_fill_def_i\<close>. For each
  of them the host's answer to \<open>get_commands\<close> in that round held the command. If \<open>k\<close>
  is less than the number of definitions, the answer in round \<open>k\<close> did not hold
  \<open>gap_fill_def_k\<close>; then the warning for index \<open>k\<close> is the one line written and the last
  event, so that definition and the later ones get no button. Otherwise nothing is
  written. When every answer is the ten commands that \<^verbatim>\<open>add_my_commands\<close> registers, \<open>k\<close>
  is the number of definitions or ten, whichever is less. Each of these calls has reached
  the host: the host ends in the state that the calls, made in this order, lead to from
  the state it was in.
\<close>

theorem menu_built:
  assumes m1: "insert_menu_submenu api (host s) PNone ''My menu'' = (my_menu_id, h1)"
    and m2: "insert_menu_submenu api h1 my_menu_id ''Gap fill...'' = (gf_sub_id, h2)"
    and run: "setup_my_menu api s = (r, s')"
    and k: "k = length (buttons (new_events s s'))"
  shows "r = Inr () \<and>
    take 2 (new_events s s') =
      [InsertMenuSubmenu PNone ''My menu'', InsertMenuSubmenu my_menu_id ''Gap fill...''] \<and>
    submenus (new_events s s') = [(PNone, ''My menu''), (my_menu_id, ''Gap fill...'')] \<and>
    k \<le> length (list_of_definitions s) \<and>
    buttons (new_events s s') =
      map (\<lambda>i. (gf_sub_id, display_name (list_of_definitions s ! i), command_for i)) [0..<k] \<and>
    terminal_output (new_events s s') =
      (if k < length (list_of_definitions s) then [exceeds_maximum k] else []) \<and>
    (\<forall>i < k. command_for i \<in> set (asked (new_events s s') ! i)) \<and>
    (k < length (list_of_definitions s) \<longrightarrow>
       command_for k \<notin> set (asked (new_events s s') ! k) \<and>
       last (new_events s s') = TrmWrite (exceeds_maximum k)) \<and>
    ((\<forall>cmds \<in> set (asked (new_events s s')). set cmds = set (map fst command_table)) \<longrightarrow>
       k = min (length (list_of_definitions s)) 10) \<and>
    host s' = replay api (new_events s s') (host s)"
proof -
  note h = setup_my_menu_host [OF run]
  from setup_my_menu_effect [OF m1 m2 run] obtain evs k' where
    e: "r = Inr ()"
      "new_events s s' =
         [InsertMenuSubmenu PNone ''My menu'', InsertMenuSubmenu my_menu_id ''Gap fill...''] @ evs"
      "k' \<le> length (list_of_definitions s)"
      "buttons evs =
         map (\<lambda>i. (gf_sub_id, display_name (list_of_definitions s ! i), command_for i)) [0..<k']"
      "terminal_output evs =
         (if k' < length (list_of_definitions s) then [exceeds_maximum k'] else [])"
      "length (asked evs) = (if k' < length (list_of_definitions s) then Suc k' else k')"
      "\<forall>j < k'. command_for j \<in> set (asked evs ! j)"
      "k' < length (list_of_definitions s) \<longrightarrow>
         command_for k' \<notin> set (asked evs ! k') \<and> last evs = TrmWrite (exceeds_maximum k')"
      "submenus evs = []"
    by blast
  have b: "buttons (new_events s s') = buttons evs" "asked (new_events s s') = asked evs"
    "terminal_output (new_events s s') = terminal_output evs"
    "submenus (new_events s s') = [(PNone, ''My menu''), (my_menu_id, ''Gap fill...'')]"
    using e(2,9) by simp_all
  have kk: "k = k'" using k b(1) e(4) by simp
  have nonempty: "evs \<noteq> []" if "k' < length (list_of_definitions s)"
    using e(5) that by auto
  have lst: "last (new_events s s') = last evs" if "k' < length (list_of_definitions s)"
    using e(2) nonempty [OF that] by simp
  have ten: "k' = min (length (list_of_definitions s)) 10"
    if "\<forall>cmds \<in> set (asked evs). set cmds = set (map fst command_table)"
    using e(6,7) e(8) e(3) that by (intro ten_commands_count [of "asked evs"]) simp_all
  have "take 2 (new_events s s') =
      [InsertMenuSubmenu PNone ''My menu'', InsertMenuSubmenu my_menu_id ''Gap fill...'']"
    using e(2) by (simp add: take2)
  then show ?thesis
    using h unfolding kk b using e(1,3,4,5,7) e(8) lst ten by simp
qed

theorem menu_built_witness:
  "setup_my_menu demo_api demo_state = (Inr (), demo_state\<lparr>trace := demo_menu\<rparr>) \<and>
   length (buttons demo_menu) = 4 \<and> length (list_of_definitions demo_state) = 4 \<and>
   buttons demo_menu =
     map (\<lambda>i. (PInt 11, display_name (shipped_definitions ! i), command_for i)) [0..<4] \<and>
   terminal_output demo_menu = [] \<and>
   asked demo_menu = [ten_names, ten_names, ten_names, ten_names] \<and>
   set ten_names = set (map fst command_table) \<and>
   min (length (list_of_definitions demo_state)) 10 = 4 \<and>
   setup_my_menu two_commands_api demo_state = (Inr (), demo_state\<lparr>trace := short_menu\<rparr>) \<and>
   length (buttons short_menu) = 2 \<and>
   buttons short_menu =
     map (\<lambda>i. (PInt 11, display_name (shipped_definitions ! i), command_for i)) [0..<2] \<and>
   terminal_output short_menu = [exceeds_maximum 2] \<and>
   command_for 2 \<notin> set (asked short_menu ! 2) \<and>
   last short_menu = TrmWrite (exceeds_maximum 2) \<and>
   setup_my_menu studio_api (shipped_state studio_registered) =
     (Inr (), (shipped_state studio_menu)\<lparr>trace := demo_menu\<rparr>) \<and>
   studio_menu = replay studio_api demo_menu studio_registered \<and>
   commands studio_menu = ten_names \<and>
   menus studio_menu = [(PNone, ''My menu''), (PInt 7, ''Gap fill...'')] \<and>
   menu_items studio_menu =
     [(PInt 11, ''Q_WaistBack (polynomial)'', ''gap_fill_def_0''),
      (PInt 11, ''Q_WaistBack (kinematic)'', ''gap_fill_def_1''),
      (PInt 11, ''Q_WaistLFront (rel): WaistBack-WaistRFront-WaistL'', ''gap_fill_def_2''),
      (PInt 11, ''Q_WaistRFront (rel): WaistBack-WaistLFront-WaistR'', ''gap_fill_def_3'')] \<and>
   terminal studio_menu = [] \<and>
   setup_my_menu studio_api (shipped_state studio_two) =
     (Inr (), (shipped_state studio_short_menu)\<lparr>trace := short_menu\<rparr>) \<and>
   studio_short_menu = replay studio_api short_menu studio_two \<and>
   menu_items studio_short_menu =
     [(PInt 11, ''Q_WaistBack (polynomial)'', ''gap_fill_def_0''),
      (PInt 11, ''Q_WaistBack (kinematic)'', ''gap_fill_def_1'')] \<and>
   terminal studio_short_menu = [exceeds_maximum 2]"
proof -
  have k4: "4 = length (buttons (new_events demo_state (demo_state\<lparr>trace := demo_menu\<rparr>)))"
    by (simp add: demo_menu_new demo_menu_def)
  have k2: "2 = length (buttons (new_events demo_state (demo_state\<lparr>trace := short_menu\<rparr>)))"
    by (simp add: demo_menu_new short_menu_def)
  have defs: "list_of_definitions demo_state = shipped_definitions"
    by (simp add: demo_state_def shipped_state_def)
  have ten: "asked demo_menu = [ten_names, ten_names, ten_names, ten_names]"
    "set ten_names = set (map fst command_table)"
    by (simp_all add: demo_menu_def ten_names_def command_table_def)
  have len: "length shipped_definitions = 4"
    by (simp add: shipped_definitions_def)
  note full = menu_built [OF demo_submenus(1,2) demo_menu_run k4]
  note short = menu_built [OF demo_submenus(3,4) short_menu_run k2]
  have a: "buttons demo_menu =
       map (\<lambda>i. (PInt 11, display_name (shipped_definitions ! i), command_for i)) [0..<4] \<and>
     terminal_output demo_menu = []"
    using full by (simp add: demo_menu_new defs len)
  have b: "buttons short_menu =
       map (\<lambda>i. (PInt 11, display_name (shipped_definitions ! i), command_for i)) [0..<2] \<and>
     terminal_output short_menu = [exceeds_maximum 2] \<and>
     command_for 2 \<notin> set (asked short_menu ! 2) \<and>
     last short_menu = TrmWrite (exceeds_maximum 2)"
    using short by (simp add: demo_menu_new defs len)
  have k4s: "4 = length (buttons (new_events (shipped_state studio_registered)
      ((shipped_state studio_menu)\<lparr>trace := demo_menu\<rparr>)))"
    by (simp add: studio_new demo_menu_def)
  have k2s: "2 = length (buttons (new_events (shipped_state studio_two)
      ((shipped_state studio_short_menu)\<lparr>trace := short_menu\<rparr>)))"
    by (simp add: studio_new short_menu_def)
  have c: "studio_menu = replay studio_api demo_menu studio_registered"
    using menu_built [OF studio_submenus(1,2) studio_menu_run k4s]
    by (simp add: studio_new shipped_state_def)
  have d: "studio_short_menu = replay studio_api short_menu studio_two"
    using menu_built [OF studio_submenus(3,4) studio_short_run k2s]
    by (simp add: studio_new shipped_state_def)
  have shown: "commands studio_menu = ten_names"
    "menus studio_menu = [(PNone, ''My menu''), (PInt 7, ''Gap fill...'')]"
    "menu_items studio_menu =
     [(PInt 11, ''Q_WaistBack (polynomial)'', ''gap_fill_def_0''),
      (PInt 11, ''Q_WaistBack (kinematic)'', ''gap_fill_def_1''),
      (PInt 11, ''Q_WaistLFront (rel): WaistBack-WaistRFront-WaistL'', ''gap_fill_def_2''),
      (PInt 11, ''Q_WaistRFront (rel): WaistBack-WaistLFront-WaistR'', ''gap_fill_def_3'')]"
    "terminal studio_menu = []"
    "menu_items studio_short_menu =
     [(PInt 11, ''Q_WaistBack (polynomial)'', ''gap_fill_def_0''),
      (PInt 11, ''Q_WaistBack (kinematic)'', ''gap_fill_def_1'')]"
    "terminal studio_short_menu = [exceeds_maximum 2]"
    by (simp_all add: studio_menu_def studio_registered_def studio_short_menu_def studio_two_def
        new_studio_def exceeds_maximum_def str_nat_digit digit_char_def)
  have first: "setup_my_menu demo_api demo_state = (Inr (), demo_state\<lparr>trace := demo_menu\<rparr>) \<and>
   length (buttons demo_menu) = 4 \<and> length (list_of_definitions demo_state) = 4 \<and>
   buttons demo_menu =
     map (\<lambda>i. (PInt 11, display_name (shipped_definitions ! i), command_for i)) [0..<4] \<and>
   terminal_output demo_menu = [] \<and>
   asked demo_menu = [ten_names, ten_names, ten_names, ten_names] \<and>
   set ten_names = set (map fst command_table) \<and>
   min (length (list_of_definitions demo_state)) 10 = 4 \<and>
   setup_my_menu two_commands_api demo_state = (Inr (), demo_state\<lparr>trace := short_menu\<rparr>) \<and>
   length (buttons short_menu) = 2 \<and>
   buttons short_menu =
     map (\<lambda>i. (PInt 11, display_name (shipped_definitions ! i), command_for i)) [0..<2] \<and>
   terminal_output short_menu = [exceeds_maximum 2] \<and>
   command_for 2 \<notin> set (asked short_menu ! 2) \<and>
   last short_menu = TrmWrite (exceeds_maximum 2)"
    using a b k4 k2 ten demo_menu_run short_menu_run
    by (simp add: demo_menu_new defs len)
  show ?thesis
    using first c d shown studio_menu_run studio_short_run by simp
qed

text \<open>
  C6. Whatever \<open>list_of_definitions\<close> holds, \<^verbatim>\<open>add_my_commands\<close> makes these twenty calls
  and no other: for each index from 0 to 9, in order, \<open>add_command\<close> with the name
  \<open>gap_fill_def_i\<close> and \<open>set_command_execute_function\<close> with that name and a function
  that, when executed, is \<^verbatim>\<open>_gap_fill_def\<close> at that index. The calls reach the host: it
  ends in the state that adding and binding the ten commands, one after the other, leads
  to from the state it was in.
\<close>

theorem commands_registered:
  "new_events s (add_my_commands api s) =
     concat (map (\<lambda>i. [AddCommand (command_for i),
                        SetCommandExecuteFunction (command_for i) (Lambda_gap_fill_def (int i))])
               [0..<10]) \<and>
   map command_for [0..<10] =
     [''gap_fill_def_0'', ''gap_fill_def_1'', ''gap_fill_def_2'', ''gap_fill_def_3'',
      ''gap_fill_def_4'', ''gap_fill_def_5'', ''gap_fill_def_6'', ''gap_fill_def_7'',
      ''gap_fill_def_8'', ''gap_fill_def_9''] \<and>
   execute api (Lambda_gap_fill_def j) s1 = gap_fill_def api j s1 \<and>
   host (add_my_commands api s) =
     fold (\<lambda>i h. set_command_execute_function api (add_command api h (command_for i))
                   (command_for i) (Lambda_gap_fill_def (int i)))
       [0..<10] (host s)"
proof -
  have "new_events s (add_my_commands api s) =
     concat (map (\<lambda>i. [AddCommand (command_for i),
                        SetCommandExecuteFunction (command_for i) (Lambda_gap_fill_def (int i))])
               [0..<10])"
    by (simp only: add_my_commands_effect(4) command_table_upt map_map comp_def split_conv)
  moreover have "map command_for [0..<10] =
     [''gap_fill_def_0'', ''gap_fill_def_1'', ''gap_fill_def_2'', ''gap_fill_def_3'',
      ''gap_fill_def_4'', ''gap_fill_def_5'', ''gap_fill_def_6'', ''gap_fill_def_7'',
      ''gap_fill_def_8'', ''gap_fill_def_9'']"
    by (simp add: command_for_upt command_table_def)
  ultimately show ?thesis
    using add_my_commands_host [of api s] by simp
qed

theorem commands_registered_witness:
  "new_events demo_state (add_my_commands demo_api demo_state) =
     [AddCommand ''gap_fill_def_0'',
      SetCommandExecuteFunction ''gap_fill_def_0'' (Lambda_gap_fill_def 0),
      AddCommand ''gap_fill_def_1'',
      SetCommandExecuteFunction ''gap_fill_def_1'' (Lambda_gap_fill_def 1),
      AddCommand ''gap_fill_def_2'',
      SetCommandExecuteFunction ''gap_fill_def_2'' (Lambda_gap_fill_def 2),
      AddCommand ''gap_fill_def_3'',
      SetCommandExecuteFunction ''gap_fill_def_3'' (Lambda_gap_fill_def 3),
      AddCommand ''gap_fill_def_4'',
      SetCommandExecuteFunction ''gap_fill_def_4'' (Lambda_gap_fill_def 4),
      AddCommand ''gap_fill_def_5'',
      SetCommandExecuteFunction ''gap_fill_def_5'' (Lambda_gap_fill_def 5),
      AddCommand ''gap_fill_def_6'',
      SetCommandExecuteFunction ''gap_fill_def_6'' (Lambda_gap_fill_def 6),
      AddCommand ''gap_fill_def_7'',
      SetCommandExecuteFunction ''gap_fill_def_7'' (Lambda_gap_fill_def 7),
      AddCommand ''gap_fill_def_8'',
      SetCommandExecuteFunction ''gap_fill_def_8'' (Lambda_gap_fill_def 8),
      AddCommand ''gap_fill_def_9'',
      SetCommandExecuteFunction ''gap_fill_def_9'' (Lambda_gap_fill_def 9)] \<and>
   execute demo_api (Lambda_gap_fill_def 2) demo_state = (Inr (), demo_after_2) \<and>
   host (add_my_commands studio_api studio_state) = studio_registered \<and>
   commands studio_registered = ten_names \<and>
   execute_functions studio_registered =
     [(''gap_fill_def_0'', Lambda_gap_fill_def 0), (''gap_fill_def_1'', Lambda_gap_fill_def 1),
      (''gap_fill_def_2'', Lambda_gap_fill_def 2), (''gap_fill_def_3'', Lambda_gap_fill_def 3),
      (''gap_fill_def_4'', Lambda_gap_fill_def 4), (''gap_fill_def_5'', Lambda_gap_fill_def 5),
      (''gap_fill_def_6'', Lambda_gap_fill_def 6), (''gap_fill_def_7'', Lambda_gap_fill_def 7),
      (''gap_fill_def_8'', Lambda_gap_fill_def 8), (''gap_fill_def_9'', Lambda_gap_fill_def 9)]"
proof -
  have u: "[0..<10] = [0, 1, 2, 3, 4, 5, 6, 7, 8, 9 :: nat]"
    by (simp add: upt_rec)
  have reg: "host (add_my_commands studio_api studio_state) = studio_registered"
    using commands_registered [of studio_state studio_api 2 studio_state]
    by (simp add: u command_for_small studio_api_def studio_state_def shipped_state_def
        new_studio_def studio_registered_def ten_names_def)
  have shown: "commands studio_registered = ten_names"
    "execute_functions studio_registered =
     [(''gap_fill_def_0'', Lambda_gap_fill_def 0), (''gap_fill_def_1'', Lambda_gap_fill_def 1),
      (''gap_fill_def_2'', Lambda_gap_fill_def 2), (''gap_fill_def_3'', Lambda_gap_fill_def 3),
      (''gap_fill_def_4'', Lambda_gap_fill_def 4), (''gap_fill_def_5'', Lambda_gap_fill_def 5),
      (''gap_fill_def_6'', Lambda_gap_fill_def 6), (''gap_fill_def_7'', Lambda_gap_fill_def 7),
      (''gap_fill_def_8'', Lambda_gap_fill_def 8), (''gap_fill_def_9'', Lambda_gap_fill_def 9)]"
    by (simp_all add: studio_registered_def new_studio_def)
  show ?thesis
    using commands_registered [of demo_state demo_api 2 demo_state] reg shown
    by (simp add: u command_for_small demo_run_2)
qed
text \<open>
  C7, as amended. Neither \<^verbatim>\<open>add_my_commands\<close> nor \<^verbatim>\<open>setup_my_menu\<close> calls \<open>find_trajectory\<close>. Every
  invocation of \<^verbatim>\<open>_gap_fill_def\<close> with an index in range begins by looking up the target
  name, and so does the next invocation after it. The lookups of an invocation are these
  and no others: the target; then, if the target resolves, \<open>get_gap_ranges\<close> returns and
  the method is \<open>relational\<close> or \<open>virtual\<close>, the names that the settings hold under
  \<open>origin\<close>, \<open>line\<close> and \<open>plane\<close>, in this order, up to and including the first that
  does not resolve. An invocation that returns has looked up all of them. The ID in every
  \<open>fill_trajectory\<close> call is the one the host gives for the target in the state the
  invocation started in: nothing is kept from an earlier run.
\<close>

theorem names_resolved_when_run:
  assumes gf: "list_getitem (list_of_definitions s) def_id = Inr gf"
    and run1: "gap_fill_def api def_id s = (r, s')"
    and run2: "gap_fill_def api def_id s' = (r2, s2)"
  shows "(\<forall>e \<in> set (new_events s (add_my_commands api s)). \<not> is_find e) \<and>
    (\<forall>e \<in> set (new_events s (snd (setup_my_menu api s))). \<not> is_find e) \<and>
    take 1 (new_events s s') = [FindTrajectory (PStr (target gf))] \<and>
    take 1 (new_events s' s2) = [FindTrajectory (PStr (target gf))] \<and>
    filter is_find (new_events s s') = lookups_made api s gf \<and>
    filter is_find (new_events s' s2) = lookups_made api s' gf \<and>
    (r = Inr () \<longrightarrow>
       filter is_find (new_events s s') =
         FindTrajectory (PStr (target gf)) # settings_lookups s gf) \<and>
    (r2 = Inr () \<longrightarrow>
       filter is_find (new_events s' s2) =
         FindTrajectory (PStr (target gf)) # settings_lookups s' gf) \<and>
    (\<forall>c \<in> set (fill_calls (new_events s s')).
       find_trajectory api (host s) (PStr (target gf)) = Inr (fst c)) \<and>
    (\<forall>c \<in> set (fill_calls (new_events s' s2)).
       find_trajectory api (host s') (PStr (target gf)) = Inr (fst c))"
proof -
  have gf': "list_getitem (list_of_definitions s') def_id = Inr gf"
    using gf gap_fill_def_frame(1) [OF run1] by simp
  have a: "\<forall>e \<in> set (new_events s (add_my_commands api s)). \<not> is_find e"
    by (auto simp: add_my_commands_effect(4))
  have m: "setup_my_menu api s = (fst (setup_my_menu api s), snd (setup_my_menu api s))"
    by simp
  note b = setup_my_menu_frame(4) [OF m]
  note l1 = gap_fill_def_lookups [OF gf run1]
  note l2 = gap_fill_def_lookups [OF gf' run2]
  note x1 = gap_fill_def_lookups_exact [OF gf run1]
  note x2 = gap_fill_def_lookups_exact [OF gf' run2]
  show ?thesis
    using a b l1 l2 x1 x2 by blast
qed

theorem names_resolved_when_run_witness:
  "list_getitem (list_of_definitions demo_state) 0 = Inr (shipped_definitions ! 0) \<and>
   gap_fill_def counting_api 0 demo_state = (Inr (), counting_after_1) \<and>
   gap_fill_def counting_api 0 counting_after_1 = (Inr (), counting_after_2) \<and>
   take 1 (new_events demo_state counting_after_1) = [FindTrajectory (PStr ''Q_WaistBack'')] \<and>
   take 1 (new_events counting_after_1 counting_after_2) = [FindTrajectory (PStr ''Q_WaistBack'')] \<and>
   filter is_find (new_events counting_after_1 counting_after_2) =
     [FindTrajectory (PStr ''Q_WaistBack'')] \<and>
   map fst (fill_calls (new_events demo_state counting_after_1)) = [PInt 0, PInt 0, PInt 0] \<and>
   map fst (fill_calls (new_events counting_after_1 counting_after_2)) = [PInt 3, PInt 3, PInt 3] \<and>
   find_trajectory counting_api (host demo_state) (PStr ''Q_WaistBack'') = Inr (PInt 0) \<and>
   find_trajectory counting_api (host counting_after_1) (PStr ''Q_WaistBack'') = Inr (PInt 3) \<and>
   list_getitem (list_of_definitions demo_state) 2 = Inr (shipped_definitions ! 2) \<and>
   gap_fill_def demo_api 2 demo_state = (Inr (), demo_after_2) \<and>
   filter is_find (new_events demo_state demo_after_2) =
     lookups_made demo_api demo_state (shipped_definitions ! 2) \<and>
   lookups_made demo_api demo_state (shipped_definitions ! 2) =
     [FindTrajectory (PStr ''Q_WaistLFront''), FindTrajectory (PStr ''Q_WaistBack''),
      FindTrajectory (PStr ''Q_WaistRFront''), FindTrajectory (PStr ''Q_WaistL'')]"
proof -
  have t: "target (shipped_definitions ! 0) = ''Q_WaistBack''"
    "settings_lookups counting_after_1 (shipped_definitions ! 0) = []"
    by (simp_all add: shipped_definitions_def settings_lookups_def)
  have c: "map fst (fill_calls (counting_trace n)) = [PInt n, PInt n, PInt n]" for n
    by (simp add: counting_trace_def)
  have f: "find_trajectory counting_api (host demo_state) (PStr ''Q_WaistBack'') = Inr (PInt 0)"
    "find_trajectory counting_api (host counting_after_1) (PStr ''Q_WaistBack'') = Inr (PInt 3)"
    by (simp_all add: counting_api_def demo_state_def shipped_state_def counting_after_1_def)
  have lm: "lookups_made counting_api s (shipped_definitions ! 0) =
      [FindTrajectory (PStr ''Q_WaistBack'')]" for s
    by (simp add: lookups_made_def settings_lookups_def counting_api_def demo_api_def
        shipped_definitions_def)
  have first: "list_getitem (list_of_definitions demo_state) 0 = Inr (shipped_definitions ! 0) \<and>
   gap_fill_def counting_api 0 demo_state = (Inr (), counting_after_1) \<and>
   gap_fill_def counting_api 0 counting_after_1 = (Inr (), counting_after_2) \<and>
   take 1 (new_events demo_state counting_after_1) = [FindTrajectory (PStr ''Q_WaistBack'')] \<and>
   take 1 (new_events counting_after_1 counting_after_2) = [FindTrajectory (PStr ''Q_WaistBack'')] \<and>
   filter is_find (new_events counting_after_1 counting_after_2) =
     [FindTrajectory (PStr ''Q_WaistBack'')] \<and>
   map fst (fill_calls (new_events demo_state counting_after_1)) = [PInt 0, PInt 0, PInt 0] \<and>
   map fst (fill_calls (new_events counting_after_1 counting_after_2)) = [PInt 3, PInt 3, PInt 3] \<and>
   find_trajectory counting_api (host demo_state) (PStr ''Q_WaistBack'') = Inr (PInt 0) \<and>
   find_trajectory counting_api (host counting_after_1) (PStr ''Q_WaistBack'') = Inr (PInt 3)"
    using names_resolved_when_run [OF demo_definition(1) counting_run_1 counting_run_2]
      demo_definition(1) counting_run_1 counting_run_2 t c f
    by (simp add: counting_new lm)
  have again: "gap_fill_def demo_api 2 demo_after_2 =
      (fst (gap_fill_def demo_api 2 demo_after_2), snd (gap_fill_def demo_api 2 demo_after_2))"
    by simp
  have made: "filter is_find (new_events demo_state demo_after_2) =
      lookups_made demo_api demo_state (shipped_definitions ! 2)"
    using names_resolved_when_run [OF demo_definition(2) demo_run_2 again] by blast
  have all: "lookups_made demo_api demo_state (shipped_definitions ! 2) =
     [FindTrajectory (PStr ''Q_WaistLFront''), FindTrajectory (PStr ''Q_WaistBack''),
      FindTrajectory (PStr ''Q_WaistRFront''), FindTrajectory (PStr ''Q_WaistL'')]"
    by (simp add: lookups_made_def settings_lookups_def name_lookups_def demo_api_def
        demo_state_def shipped_state_def shipped_definitions_def shipped_heap_def)
  show ?thesis
    using first made all demo_definition(2) demo_run_2 by simp
qed

text \<open>
  C7 as first stated has every invocation look up the target name and any \<open>origin\<close>,
  \<open>line\<close> and \<open>plane\<close> names. On the demo host the command with index 4 looks up nothing
  on the shipped list (line 71 raises). Of three \<open>relational\<close> definitions with the same
  settings, the one whose target has no 3D data and the one whose target is unknown look
  up the target only (lines 75 and 72 raise), and the third stops at the \<open>line\<close>, which is
  unknown, and never looks up the \<open>plane\<close> (line 88 raises). A \<open>polynomial\<close> definition
  with these settings looks up its target only, and returns.
\<close>

theorem names_resolved_when_run_counterexample:
  "fst (gap_fill_def demo_api 4 demo_state) = Inl IndexError \<and>
   filter is_find (new_events demo_state (snd (gap_fill_def demo_api 4 demo_state))) = [] \<and>
   heap halted_state 0 =
     [(''origin'', PStr ''Q_WaistBack''), (''line'', PStr ''Ghost''), (''plane'', PStr ''Q_WaistL'')] \<and>
   list_getitem (list_of_definitions halted_state) 0 = Inr (halted_definitions ! 0) \<and>
   gf_method (halted_definitions ! 0) = ''relational'' \<and>
   settings (halted_definitions ! 0) = Some 0 \<and>
   fst (gap_fill_def demo_api 0 halted_state) = Inl (HostError ''no 3D data'') \<and>
   filter is_find (new_events halted_state (snd (gap_fill_def demo_api 0 halted_state))) =
     [FindTrajectory (PStr ''Q_Toe'')] \<and>
   list_getitem (list_of_definitions halted_state) 1 = Inr (halted_definitions ! 1) \<and>
   gf_method (halted_definitions ! 1) = ''relational'' \<and>
   settings (halted_definitions ! 1) = Some 0 \<and>
   fst (gap_fill_def demo_api 1 halted_state) = Inl (HostError ''unknown trajectory'') \<and>
   filter is_find (new_events halted_state (snd (gap_fill_def demo_api 1 halted_state))) =
     [FindTrajectory (PStr ''Ghost'')] \<and>
   list_getitem (list_of_definitions halted_state) 2 = Inr (halted_definitions ! 2) \<and>
   gf_method (halted_definitions ! 2) = ''relational'' \<and>
   settings (halted_definitions ! 2) = Some 0 \<and>
   fst (gap_fill_def demo_api 2 halted_state) = Inl (HostError ''unknown trajectory'') \<and>
   filter is_find (new_events halted_state (snd (gap_fill_def demo_api 2 halted_state))) =
     [FindTrajectory (PStr ''Q_WaistLFront''), FindTrajectory (PStr ''Q_WaistBack''),
      FindTrajectory (PStr ''Ghost'')] \<and>
   list_getitem (list_of_definitions halted_state) 3 = Inr (halted_definitions ! 3) \<and>
   gf_method (halted_definitions ! 3) = ''polynomial'' \<and>
   settings (halted_definitions ! 3) = Some 0 \<and>
   fst (gap_fill_def demo_api 3 halted_state) = Inr () \<and>
   filter is_find (new_events halted_state (snd (gap_fill_def demo_api 3 halted_state))) =
     [FindTrajectory (PStr ''Q_WaistLFront'')]"
  using halted_definition halted_settings
  by (simp add: halted_result halted_events)


text \<open>
  C8. Nothing checks that a definition has the fields its method needs. An invocation for
  a \<open>relational\<close> or \<open>virtual\<close> definition without settings raises, and the exception
  is the KeyError of line 82 once the target has resolved and the gap ranges are there; an
  invocation whose target lookup raises, raises the same exception. Either way the
  exception leaves \<^verbatim>\<open>_gap_fill_def\<close> before the loop: no \<open>fill_trajectory\<close> call
  has been made and nothing has been written, and the host is in the state it was in.
\<close>

theorem unchecked_fields:
  assumes gf: "list_getitem (list_of_definitions s) def_id = Inr gf"
    and run: "gap_fill_def api def_id s = (r, s')"
  shows "(gf_method gf \<in> set [''relational'', ''virtual''] \<and> settings gf = None \<longrightarrow>
      (\<exists>e. r = Inl e) \<and> fill_calls (new_events s s') = [] \<and>
      terminal_output (new_events s s') = [] \<and> host s' = host s \<and>
      (\<forall>tid gs. find_trajectory api (host s) (PStr (target gf)) = Inr tid \<and>
         get_gap_ranges api (host s) tid = Inr gs \<longrightarrow> r = Inl (KeyError ''settings''))) \<and>
    (\<forall>e. find_trajectory api (host s) (PStr (target gf)) = Inl e \<longrightarrow>
       r = Inl e \<and> new_events s s' = [FindTrajectory (PStr (target gf))] \<and> host s' = host s)"
proof -
  have quiet: "fill_calls (new_events s s') = [] \<and> terminal_output (new_events s s') = [] \<and>
      host s' = host s"
    if "r = Inl e" for e
  proof -
    from gap_fill_def_raises [OF run [unfolded that]] obtain evs where
      "trace s' = trace s @ evs" "\<forall>ev \<in> set evs. is_query ev"
      by blast
    then show ?thesis
      using gap_fill_def_host [OF run]
      by (simp add: queries_no_fill queries_no_output replay_queries)
  qed
  from run have "(gf_method gf \<in> set [''relational'', ''virtual''] \<and> settings gf = None \<longrightarrow>
      (\<exists>e. r = Inl e) \<and>
      (\<forall>tid gs. find_trajectory api (host s) (PStr (target gf)) = Inr tid \<and>
         get_gap_ranges api (host s) tid = Inr gs \<longrightarrow> r = Inl (KeyError ''settings''))) \<and>
    (\<forall>e. find_trajectory api (host s) (PStr (target gf)) = Inl e \<longrightarrow>
       r = Inl e \<and> new_events s s' = [FindTrajectory (PStr (target gf))])"
  proof (cases rule: gap_fill_def_cases)
    case index
    with gf show ?thesis by simp
  next
    case (lookup gf' e)
    with gf show ?thesis by (simp add: queried_state)
  next
    case (ranges gf' tid e)
    with gf show ?thesis by auto
  next
    case (convert gf' tid gs e)
    have eq: "gf' = gf" using convert(1) gf by simp
    have "e = KeyError ''settings''"
      if "gf_method gf \<in> set [''relational'', ''virtual'']" "settings gf = None"
      using convert(4) that by (simp add: eq convert_settings_missing)
    with convert(2,3,5) eq show ?thesis by auto
  next
    case (loop gf' tid gs st s3 flag s4)
    have eq: "gf' = gf" using loop(1) gf by simp
    have False if "gf_method gf \<in> set [''relational'', ''virtual'']" "settings gf = None"
      using loop(4) that by (simp add: eq convert_settings_missing)
    with loop(2) eq show ?thesis by auto
  qed
  with quiet show ?thesis by blast
qed

theorem unchecked_fields_witness:
  "list_getitem (list_of_definitions unchecked_state) 0 = Inr (unchecked_definitions ! 0) \<and>
   gf_method (unchecked_definitions ! 0) \<in> set [''relational'', ''virtual''] \<and>
   settings (unchecked_definitions ! 0) = None \<and>
   find_trajectory demo_api (host unchecked_state) (PStr (target (unchecked_definitions ! 0)))
     = Inr (PInt 13) \<and>
   get_gap_ranges demo_api (host unchecked_state) (PInt 13) = Inr [(10, 19), (40, 42), (77, 80)] \<and>
   fst (gap_fill_def demo_api 0 unchecked_state) = Inl (KeyError ''settings'') \<and>
   fill_calls (new_events unchecked_state (snd (gap_fill_def demo_api 0 unchecked_state))) = [] \<and>
   list_getitem (list_of_definitions unchecked_state) 2 = Inr (unchecked_definitions ! 2) \<and>
   find_trajectory demo_api (host unchecked_state) (PStr (target (unchecked_definitions ! 2)))
     = Inl (HostError ''unknown trajectory'') \<and>
   fst (gap_fill_def demo_api 2 unchecked_state) = Inl (HostError ''unknown trajectory'') \<and>
   new_events unchecked_state (snd (gap_fill_def demo_api 2 unchecked_state)) =
     [FindTrajectory (PStr ''Ghost'')] \<and>
   host (snd (gap_fill_def demo_api 0 unchecked_state)) = host unchecked_state \<and>
   host (snd (gap_fill_def demo_api 2 unchecked_state)) = host unchecked_state"
proof -
  have run: "gap_fill_def demo_api i unchecked_state =
      (fst (gap_fill_def demo_api i unchecked_state), snd (gap_fill_def demo_api i unchecked_state))"
    for i
    by simp
  have d0: "gf_method (unchecked_definitions ! 0) \<in> set [''relational'', ''virtual'']"
    "settings (unchecked_definitions ! 0) = None"
    "find_trajectory demo_api (host unchecked_state) (PStr (target (unchecked_definitions ! 0)))
       = Inr (PInt 13)"
    "get_gap_ranges demo_api (host unchecked_state) (PInt 13) = Inr [(10, 19), (40, 42), (77, 80)]"
    by (simp_all add: unchecked_definitions_def demo_api_def)
  have d2: "find_trajectory demo_api (host unchecked_state)
      (PStr (target (unchecked_definitions ! 2))) = Inl (HostError ''unknown trajectory'')"
    "target (unchecked_definitions ! 2) = ''Ghost''"
    by (simp_all add: unchecked_definitions_def demo_api_def)
  have a: "fst (gap_fill_def demo_api 0 unchecked_state) = Inl (KeyError ''settings'') \<and>
      fill_calls (new_events unchecked_state (snd (gap_fill_def demo_api 0 unchecked_state))) = [] \<and>
      host (snd (gap_fill_def demo_api 0 unchecked_state)) = host unchecked_state"
    using unchecked_fields [OF unchecked_definition(1) run [of 0]] d0 by blast
  have b: "fst (gap_fill_def demo_api 2 unchecked_state) = Inl (HostError ''unknown trajectory'') \<and>
      new_events unchecked_state (snd (gap_fill_def demo_api 2 unchecked_state)) =
        [FindTrajectory (PStr ''Ghost'')] \<and>
      host (snd (gap_fill_def demo_api 2 unchecked_state)) = host unchecked_state"
    using unchecked_fields [OF unchecked_definition(3) run [of 2]] d2 by simp
  show ?thesis
    using a b unchecked_definition(1,3) d0 d2(1) by simp
qed

text \<open>
  C9. With the four definitions the script ships with, each of the commands
  \<open>gap_fill_def_4\<close> to \<open>gap_fill_def_9\<close> is registered by \<^verbatim>\<open>add_my_commands\<close>, and
  executing it raises IndexError at line 71 and leaves the state as it was: no call to the
  host has been made.
\<close>

theorem unused_commands_raise:
  assumes defs: "list_of_definitions s = shipped_definitions"
    and k: "4 \<le> k" "k \<le> 9"
  shows "SetCommandExecuteFunction (command_for k) (Lambda_gap_fill_def (int k))
       \<in> set (new_events t (add_my_commands api t)) \<and>
    execute api (Lambda_gap_fill_def (int k)) s = (Inl IndexError, s)"
proof -
  have "(command_for k, int k) \<in> set command_table"
    using k by (simp add: command_table_upt)
  then have "SetCommandExecuteFunction (command_for k) (Lambda_gap_fill_def (int k))
       \<in> set (new_events t (add_my_commands api t))"
    by (force simp: add_my_commands_effect(4))
  moreover have "gap_fill_def api (int k) s = (Inl IndexError, s)"
    using k defs by (simp add: gap_fill_def_def list_getitem_def shipped_definitions_def)
  ultimately show ?thesis by simp
qed

theorem unused_commands_raise_witness:
  "list_of_definitions demo_state = shipped_definitions \<and> (4 :: nat) \<le> 4 \<and> (4 :: nat) \<le> 9 \<and>
   SetCommandExecuteFunction ''gap_fill_def_4'' (Lambda_gap_fill_def 4)
     \<in> set (new_events demo_state (add_my_commands demo_api demo_state)) \<and>
   execute demo_api (Lambda_gap_fill_def 4) demo_state = (Inl IndexError, demo_state) \<and>
   SetCommandExecuteFunction ''gap_fill_def_9'' (Lambda_gap_fill_def 9)
     \<in> set (new_events demo_state (add_my_commands demo_api demo_state)) \<and>
   execute demo_api (Lambda_gap_fill_def 9) demo_state = (Inl IndexError, demo_state)"
proof -
  have defs: "list_of_definitions demo_state = shipped_definitions"
    by (simp add: demo_state_def shipped_state_def)
  show ?thesis
    using unused_commands_raise [OF defs, where k = 4 and t = demo_state and api = demo_api]
      unused_commands_raise [OF defs, where k = 9 and t = demo_state and api = demo_api] defs
    by (simp add: command_for_small)
qed

text \<open>
  C10, as amended. An invocation whose index is in range, whose target resolves and whose
  trajectory has no gaps never calls \<open>fill_trajectory\<close> and never writes
  \<open>- Not all gaps could be filled\<close>. If moreover the definition's settings are usable
  (the method is neither \<open>relational\<close> nor \<open>virtual\<close>, or the settings are there and
  their names resolve), it returns normally and writes exactly one line:
  \<open>Applying gap filling action\<close> and the display name; the host is then in the state
  that writing this line leads to from the state it was in. In every case the host ends
  in the state that the calls of the run lead to.
\<close>

theorem no_gaps:
  assumes gf: "list_getitem (list_of_definitions s) def_id = Inr gf"
    and tid: "find_trajectory api (host s) (PStr (target gf)) = Inr tid"
    and gs: "get_gap_ranges api (host s) tid = Inr []"
    and run: "gap_fill_def api def_id s = (r, s')"
  shows "fill_calls (new_events s s') = [] \<and>
    ''- Not all gaps could be filled'' \<notin> set (terminal_output (new_events s s')) \<and>
    (settings_usable api s gf \<longrightarrow>
       r = Inr () \<and> terminal_output (new_events s s') = [applying gf] \<and>
       host s' = trm_write api (host s) (applying gf)) \<and>
    host s' = replay api (new_events s s') (host s)"
proof (cases r)
  case (Inl e)
  from gap_fill_def_raises [OF run [unfolded Inl]] obtain evs where
    "trace s' = trace s @ evs" "\<forall>ev \<in> set evs. is_query ev"
    by blast
  then have "fill_calls (new_events s s') = []" "terminal_output (new_events s s') = []"
    by (simp_all add: queries_no_fill queries_no_output)
  moreover have "\<not> settings_usable api s gf"
    using gap_fill_def_usable [OF gf tid gs _ run] Inl by auto
  ultimately show ?thesis
    using gap_fill_def_host [OF run] by simp
next
  case (Inr u)
  from run [unfolded Inr] show ?thesis
  proof (rule gap_fill_def_returns)
    fix gf' tid' gs' st s3 cevs fevs
    assume gf': "list_getitem (list_of_definitions s) def_id = Inr gf'"
      and tid': "find_trajectory api (host s) (PStr (target gf')) = Inr tid'"
      and gs': "get_gap_ranges api (host s) tid' = Inr gs'"
      and "convert_settings api gf'
         (record_call (GetGapRanges tid') (record_call (FindTrajectory (PStr (target gf'))) s))
       = (Inr st, s3)"
      and n: "new_events s s' =
         [FindTrajectory (PStr (target gf')), GetGapRanges tid'] @ cevs @
         [TrmWrite (applying gf')] @ fevs @
         (if \<exists>e \<in> set fevs. fill_raised e
          then [TrmWrite ''- Not all gaps could be filled''] else [])"
      and cevs: "\<forall>e \<in> set cevs. is_find e"
      and fevs: "\<forall>e \<in> set fevs. is_fill e"
      and calls: "fill_calls fevs = map (\<lambda>g. (tid', gf_method gf', g, map_option (heap s3) st)) gs'"
    have eq: "gf' = gf" "tid' = tid" "gs' = []"
      using gf gf' tid tid' gs gs' by simp_all
    have none: "fevs = []"
    proof (cases fevs)
      case (Cons e es)
      then have "is_fill e" using fevs by simp
      then have "fill_call e \<noteq> []" by (cases e) simp_all
      with Cons calls eq show ?thesis by simp
    qed simp
    have "fill_calls (new_events s s') = []"
      using n none finds_no_fill [OF cevs] by simp
    moreover have "terminal_output (new_events s s') = [applying gf]"
      using n none eq finds_no_output [OF cevs] by simp
    moreover have "host s' = trm_write api (host s) (applying gf)"
      using gap_fill_def_host [OF run] n none eq by (simp add: replay_finds [OF cevs])
    ultimately show ?thesis
      using Inr gap_fill_def_host [OF run] by (simp add: applying_def)
  qed
qed

theorem no_gaps_witness:
  "list_getitem (list_of_definitions demo_state) 0 = Inr (shipped_definitions ! 0) \<and>
   find_trajectory demo_api (host demo_state) (PStr (target (shipped_definitions ! 0)))
     = Inr (PInt 11) \<and>
   get_gap_ranges demo_api (host demo_state) (PInt 11) = Inr [] \<and>
   gap_fill_def demo_api 0 demo_state = (Inr (), demo_after_0) \<and>
   settings_usable demo_api demo_state (shipped_definitions ! 0) \<and>
   fill_calls (new_events demo_state demo_after_0) = [] \<and>
   terminal_output (new_events demo_state demo_after_0) =
     [''Applying gap filling action Q_WaistBack (polynomial)''] \<and>
   gap_fill_def studio_api 0 studio_state = (Inr (), studio_after_0) \<and>
   settings_usable studio_api studio_state (shipped_definitions ! 0) \<and>
   host studio_after_0 =
     trm_write studio_api (host studio_state) (applying (shipped_definitions ! 0)) \<and>
   terminal (host studio_after_0) = [''Applying gap filling action Q_WaistBack (polynomial)'']"
proof -
  have tid: "find_trajectory demo_api (host demo_state) (PStr (target (shipped_definitions ! 0)))
      = Inr (PInt 11)"
    by (simp add: demo_api_def shipped_definitions_def)
  have gs: "get_gap_ranges demo_api (host demo_state) (PInt 11) = Inr []"
    by (simp add: demo_api_def)
  have ok: "settings_usable demo_api demo_state (shipped_definitions ! 0)"
    by (simp add: settings_usable_def shipped_definitions_def)
  have name: "applying (shipped_definitions ! 0) =
      ''Applying gap filling action Q_WaistBack (polynomial)''"
    by (simp add: applying_def shipped_definitions_def)
  have tid': "find_trajectory studio_api (host studio_state)
      (PStr (target (shipped_definitions ! 0))) = Inr (PInt 11)"
    by (simp add: studio_api_def demo_api_def shipped_definitions_def)
  have gs': "get_gap_ranges studio_api (host studio_state) (PInt 11) = Inr []"
    by (simp add: studio_api_def demo_api_def)
  have ok': "settings_usable studio_api studio_state (shipped_definitions ! 0)"
    by (simp add: settings_usable_def shipped_definitions_def)
  have shown: "terminal (host studio_after_0) =
      [''Applying gap filling action Q_WaistBack (polynomial)'']"
    by (simp add: studio_after_0_def new_studio_def)
  have studio: "host studio_after_0 =
      trm_write studio_api (host studio_state) (applying (shipped_definitions ! 0))"
    using no_gaps [OF studio_definition(1) tid' gs' studio_run_0] ok' by blast
  show ?thesis
    using no_gaps [OF demo_definition(1) tid gs demo_run_0] demo_definition(1) tid gs
      demo_run_0 ok name studio_run_0 ok' studio shown
    by simp
qed

text \<open>
  C10 as first stated promises the one line for every invocation without gaps. On the
  demo host two definitions whose target has no gaps write nothing: a \<open>virtual\<close> one
  without settings (line 82 raises) and a \<open>relational\<close> one whose origin is unknown
  (line 85 raises), both before line 96.
\<close>

theorem no_gaps_counterexample:
  "list_getitem (list_of_definitions unchecked_state) 1 = Inr (unchecked_definitions ! 1) \<and>
   find_trajectory demo_api (host unchecked_state) (PStr (target (unchecked_definitions ! 1)))
     = Inr (PInt 11) \<and>
   get_gap_ranges demo_api (host unchecked_state) (PInt 11) = Inr [] \<and>
   fst (gap_fill_def demo_api 1 unchecked_state) = Inl (KeyError ''settings'') \<and>
   terminal_output (new_events unchecked_state (snd (gap_fill_def demo_api 1 unchecked_state))) = [] \<and>
   list_getitem (list_of_definitions unchecked_state) 4 = Inr (unchecked_definitions ! 4) \<and>
   find_trajectory demo_api (host unchecked_state) (PStr (target (unchecked_definitions ! 4)))
     = Inr (PInt 11) \<and>
   fst (gap_fill_def demo_api 4 unchecked_state) = Inl (HostError ''unknown trajectory'') \<and>
   terminal_output (new_events unchecked_state (snd (gap_fill_def demo_api 4 unchecked_state))) = []"
  using unchecked_definition unchecked_targets
  by (simp add: unchecked_gaps unchecked_result unchecked_events)

end
